(* ===== verification/Prelude.thy ===== *)
theory Prelude
  imports Main "HOL-Library.Char_ord" "HOL-Library.List_Lexorder" "HOL-Library.Product_Lexorder"
    "HOL-Library.AList" "HOL-Library.Multiset" "HOL-Library.Word"
begin

text \<open>
  What the components share: the part of Go's \<open>strings\<close>, \<open>strconv\<close> and \<open>encoding/hex\<close>
  packages the program uses, on byte strings; Go maps that are iterated, as association lists;
  loops that keep the first element per key; results with errors; the market data record
  that every connector puts on the shared channel.

  Strings are lists of bytes (\<open>char\<close>). Case mapping and white space are those of ASCII: the
  program applies them to ticker symbols, exchange names, addresses, URLs and paths. Bytes
  above 127 are left alone by every function here.
\<close>

named_theorems go_str "facts about Go's strings package"
named_theorems go_map "facts about Go maps kept as association lists"
named_theorems go_res "facts about results and errors"

subsection \<open>Results\<close>

type_synonym ('e, 'a) result = "'e + 'a"

definition bind_res :: "('e, 'a) result \<Rightarrow> ('a \<Rightarrow> ('e, 'b) result) \<Rightarrow> ('e, 'b) result" where
  "bind_res r f = (case r of Inl e \<Rightarrow> Inl e | Inr a \<Rightarrow> f a)"

lemma bind_res_simps [simp, go_res]:
  "bind_res (Inl e) f = Inl e" "bind_res (Inr a) f = f a"
  by (simp_all add: bind_res_def)

lemma bind_res_Inr_iff [go_res]:
  "bind_res r f = Inr b \<longleftrightarrow> (\<exists>a. r = Inr a \<and> f a = Inr b)"
  by (cases r) simp_all

text \<open>A loop that stops at the first error and collects the results.\<close>

fun map_res :: "('a \<Rightarrow> ('e, 'b) result) \<Rightarrow> 'a list \<Rightarrow> ('e, 'b list) result" where
  "map_res f [] = Inr []"
| "map_res f (x # xs) = (case f x of Inl e \<Rightarrow> Inl e
     | Inr y \<Rightarrow> (case map_res f xs of Inl e \<Rightarrow> Inl e | Inr ys \<Rightarrow> Inr (y # ys)))"

lemma map_res_Inr [go_res]:
  "map_res f xs = Inr ys \<Longrightarrow> list_all2 (\<lambda>x y. f x = Inr y) xs ys"
  by (induction xs arbitrary: ys) (auto split: sum.splits)

lemma map_res_Inr_mem:
  assumes "map_res f xs = Inr ys" and "y \<in> set ys"
  obtains x where "x \<in> set xs" and "f x = Inr y"
proof -
  from map_res_Inr [OF assms(1)] assms(2) have "\<exists>x \<in> set xs. f x = Inr y"
    by (induction rule: list_all2_induct) auto
  with that show thesis by blast
qed

subsection \<open>Characters and strings\<close>

definition is_space :: "char \<Rightarrow> bool" where
  "is_space c \<longleftrightarrow> c \<in> {CHR 0x09, CHR 0x0A, CHR 0x0B, CHR 0x0C, CHR 0x0D, CHR 0x20}"

definition upper_char :: "char \<Rightarrow> char" where
  "upper_char c = (let n = (of_char c :: nat) in if 97 \<le> n \<and> n \<le> 122 then char_of (n - 32) else c)"

definition lower_char :: "char \<Rightarrow> char" where
  "lower_char c = (let n = (of_char c :: nat) in if 65 \<le> n \<and> n \<le> 90 then char_of (n + 32) else c)"

definition to_upper :: "string \<Rightarrow> string" where
  "to_upper s = map upper_char s"

definition to_lower :: "string \<Rightarrow> string" where
  "to_lower s = map lower_char s"

definition trim_space :: "string \<Rightarrow> string" where
  "trim_space s = rev (dropWhile is_space (rev (dropWhile is_space s)))"

definition equal_fold :: "string \<Rightarrow> string \<Rightarrow> bool" where
  "equal_fold a b \<longleftrightarrow> to_lower a = to_lower b"

definition replace_all :: "string \<Rightarrow> char \<Rightarrow> string \<Rightarrow> string" where
  "replace_all s old new = concat (map (\<lambda>c. if c = old then new else [c]) s)"

definition has_prefix :: "string \<Rightarrow> string \<Rightarrow> bool" where
  "has_prefix s p \<longleftrightarrow> take (length p) s = p"

definition has_suffix :: "string \<Rightarrow> string \<Rightarrow> bool" where
  "has_suffix s p \<longleftrightarrow> length p \<le> length s \<and> drop (length s - length p) s = p"

definition trim_prefix :: "string \<Rightarrow> string \<Rightarrow> string" where
  "trim_prefix s p = (if has_prefix s p then drop (length p) s else s)"

fun contains :: "string \<Rightarrow> string \<Rightarrow> bool" where
  "contains [] sub = (sub = [])"
| "contains (c # s) sub = (has_prefix (c # s) sub \<or> contains s sub)"

fun split_on :: "char \<Rightarrow> string \<Rightarrow> string list" where
  "split_on c [] = [[]]"
| "split_on c (x # xs) =
     (if x = c then [] # split_on c xs
      else (case split_on c xs of [] \<Rightarrow> [[x]] | p # ps \<Rightarrow> (x # p) # ps))"

fun join_with :: "string \<Rightarrow> string list \<Rightarrow> string" where
  "join_with sep [] = []"
| "join_with sep [p] = p"
| "join_with sep (p # q # ps) = p @ sep @ join_with sep (q # ps)"

lemma upper_char_idem [simp]: "upper_char (upper_char c) = upper_char c"
proof (cases "97 \<le> (of_char c :: nat) \<and> (of_char c :: nat) \<le> 122")
  case True
  then have "(of_char c - 32 :: nat) < 256" by linarith
  with True have "(of_char (upper_char c) :: nat) = of_char c - 32"
    by (simp add: upper_char_def Let_def)
  with True have "\<not> (97 \<le> (of_char (upper_char c) :: nat) \<and> (of_char (upper_char c) :: nat) \<le> 122)"
    by linarith
  then show ?thesis by (auto simp: upper_char_def [of "upper_char c"] Let_def)
qed (auto simp: upper_char_def Let_def)

lemma lower_char_idem [simp]: "lower_char (lower_char c) = lower_char c"
proof (cases "65 \<le> (of_char c :: nat) \<and> (of_char c :: nat) \<le> 90")
  case True
  then have "(of_char (lower_char c) :: nat) = of_char c + 32"
    by (simp add: lower_char_def Let_def)
  with True show ?thesis by (simp add: lower_char_def [of "lower_char c"] Let_def)
qed (auto simp: lower_char_def Let_def)

lemma to_upper_idem [simp, go_str]: "to_upper (to_upper s) = to_upper s"
  by (simp add: to_upper_def comp_def)

lemma to_lower_idem [simp, go_str]: "to_lower (to_lower s) = to_lower s"
  by (simp add: to_lower_def comp_def)

lemma to_upper_Nil_iff [simp, go_str]: "to_upper s = [] \<longleftrightarrow> s = []"
  by (simp add: to_upper_def)

lemma to_lower_Nil_iff [simp, go_str]: "to_lower s = [] \<longleftrightarrow> s = []"
  by (simp add: to_lower_def)

lemma to_upper_Nil [simp]: "to_upper [] = []" by simp

lemma to_lower_Nil [simp]: "to_lower [] = []" by simp

lemma to_upper_append [go_str]: "to_upper (a @ b) = to_upper a @ to_upper b"
  by (simp add: to_upper_def)

lemma to_lower_append [go_str]: "to_lower (a @ b) = to_lower a @ to_lower b"
  by (simp add: to_lower_def)

lemma length_to_upper [simp]: "length (to_upper s) = length s"
  by (simp add: to_upper_def)

lemma length_to_lower [simp]: "length (to_lower s) = length s"
  by (simp add: to_lower_def)

lemma of_char_CHR_space: "is_space c \<longleftrightarrow> (of_char c :: nat) \<in> {9, 10, 11, 12, 13, 32}"
proof -
  have "c = d \<longleftrightarrow> (of_char c :: nat) = of_char d" for d
    by (rule of_char_eq_iff [symmetric])
  from this [of "CHR 0x09"] this [of "CHR 0x0A"] this [of "CHR 0x0B"] this [of "CHR 0x0C"]
    this [of "CHR 0x0D"] this [of "CHR 0x20"]
  show ?thesis by (simp add: is_space_def)
qed

lemma is_space_upper [simp]: "is_space (upper_char c) = is_space c"
  by (auto simp: of_char_CHR_space upper_char_def Let_def)

lemma is_space_lower [simp]: "is_space (lower_char c) = is_space c"
  by (auto simp: of_char_CHR_space lower_char_def Let_def)

lemma trim_space_Nil [simp]: "trim_space [] = []"
  by (simp add: trim_space_def)

lemma dropWhile_map_inv:
  "(\<And>c. P (f c) = P c) \<Longrightarrow> dropWhile P (map f s) = map f (dropWhile P s)"
  by (induction s) auto

lemma trim_to_upper [go_str]: "trim_space (to_upper s) = to_upper (trim_space s)"
  by (simp add: trim_space_def to_upper_def dropWhile_map_inv rev_map)

lemma trim_to_lower [go_str]: "trim_space (to_lower s) = to_lower (trim_space s)"
  by (simp add: trim_space_def to_lower_def dropWhile_map_inv rev_map)

lemma dropWhile_hd: "dropWhile P s = [] \<or> \<not> P (hd (dropWhile P s))"
  by (induction s) auto

lemma dropWhile_last: "dropWhile P s \<noteq> [] \<Longrightarrow> last (dropWhile P s) = last s"
  by (induction s) (auto split: if_splits)

definition trimmed :: "string \<Rightarrow> bool" where
  "trimmed s \<longleftrightarrow> s = [] \<or> \<not> is_space (hd s) \<and> \<not> is_space (last s)"

lemma trimmed_fix: "trimmed s \<Longrightarrow> trim_space s = s"
proof (cases s)
  case (Cons c t)
  assume "trimmed s"
  with Cons have 1: "dropWhile is_space s = s" and 2: "\<not> is_space (hd (rev s))"
    by (simp_all add: trimmed_def hd_rev del: rev.simps last.simps)
  from 2 have "dropWhile is_space (rev s) = rev s"
    by (cases "rev s") auto
  with 1 show ?thesis by (simp add: trim_space_def)
qed simp

lemma trimmed_trim [simp]: "trimmed (trim_space s)"
proof -
  define a where "a = dropWhile is_space s"
  define b where "b = dropWhile is_space (rev a)"
  have "b = [] \<or> \<not> is_space (hd b)" unfolding b_def by (rule dropWhile_hd)
  moreover have "b \<noteq> [] \<Longrightarrow> last b = hd a \<and> a \<noteq> []"
    unfolding b_def by (metis dropWhile.simps(1) dropWhile_last last_rev rev_is_Nil_conv)
  moreover have "a = [] \<or> \<not> is_space (hd a)" unfolding a_def by (rule dropWhile_hd)
  moreover have "trim_space s = rev b" by (simp add: trim_space_def a_def b_def)
  ultimately show ?thesis
    by (auto simp: trimmed_def hd_rev last_rev)
qed

lemma trim_space_idem [simp, go_str]: "trim_space (trim_space s) = trim_space s"
  by (simp add: trimmed_fix)

lemma replace_all_Nil [simp]: "replace_all [] c n = []"
  by (simp add: replace_all_def)

lemma replace_all_append [go_str]: "replace_all (a @ b) c n = replace_all a c n @ replace_all b c n"
  by (simp add: replace_all_def)

lemma replace_all_filter [go_str]: "replace_all s c [] = filter (\<lambda>x. x \<noteq> c) s"
  by (induction s) (auto simp: replace_all_def)

lemma join_split [go_str]: "join_with [c] (split_on c s) = s"
proof (induction s)
  case (Cons x xs)
  then show ?case
    by (cases "split_on c xs" rule: list.exhaust; cases "tl (split_on c xs)") auto
qed simp

lemma split_on_ne [simp]: "split_on c s \<noteq> []"
  by (cases s) (auto split: list.splits)

lemma has_prefix_append [simp]: "has_prefix (p @ s) p"
  by (simp add: has_prefix_def)

lemma trim_prefix_append [simp]: "trim_prefix (p @ s) p = s"
  by (simp add: trim_prefix_def)

lemma has_prefix_single: "has_prefix (d # s) [c] \<longleftrightarrow> d = c"
  by (simp add: has_prefix_def)

lemma contains_char: "contains s [c] \<longleftrightarrow> c \<in> set s"
proof (induction s)
  case (Cons d s)
  then show ?case by (auto simp: has_prefix_single)
qed simp

subsection \<open>Decimal integers: \<open>strconv.ParseInt(s, 10, 64)\<close> and \<open>strconv.Atoi\<close>\<close>

definition digit_val :: "char \<Rightarrow> nat option" where
  "digit_val c = (let n = (of_char c :: nat) in if 48 \<le> n \<and> n \<le> 57 then Some (n - 48) else None)"

fun digits_val :: "nat \<Rightarrow> string \<Rightarrow> nat option" where
  "digits_val acc [] = Some acc"
| "digits_val acc (c # cs) = (case digit_val c of None \<Rightarrow> None | Some d \<Rightarrow> digits_val (10 * acc + d) cs)"

definition in_int64 :: "int \<Rightarrow> bool" where
  "in_int64 n \<longleftrightarrow> - (2 ^ 63) \<le> n \<and> n < 2 ^ 63"

definition parse_int64 :: "string \<Rightarrow> int option" where
  "parse_int64 s =
     (let (neg, body) = (case s of [] \<Rightarrow> (False, [])
          | c # cs \<Rightarrow> if c = CHR ''-'' then (True, cs) else if c = CHR ''+'' then (False, cs) else (False, s))
      in if body = [] then None
         else (case digits_val 0 body of None \<Rightarrow> None
           | Some n \<Rightarrow> (let v = (if neg then - int n else int n) in if in_int64 v then Some v else None)))"

lemma parse_int64_range: "parse_int64 s = Some n \<Longrightarrow> in_int64 n"
  by (auto simp: parse_int64_def Let_def split: if_splits option.splits prod.splits list.splits)

text \<open>The verb \<open>%d\<close>.\<close>

fun show_nat :: "nat \<Rightarrow> string" where
  "show_nat n = (if n < 10 then [char_of (48 + n)] else show_nat (n div 10) @ [char_of (48 + n mod 10)])"

declare show_nat.simps [simp del]

definition show_int :: "int \<Rightarrow> string" where
  "show_int n = (if n < 0 then CHR ''-'' # show_nat (nat (- n)) else show_nat (nat n))"

lemma digits_val_append: "digits_val a (xs @ ys) = (case digits_val a xs of None \<Rightarrow> None | Some b \<Rightarrow> digits_val b ys)"
  by (induction a xs rule: digits_val.induct) (simp_all split: option.splits)

lemma digit_val_digit: "d < 10 \<Longrightarrow> digit_val (char_of (48 + d)) = Some d"
  by (simp add: digit_val_def Let_def)

lemma digits_show_nat: "digits_val 0 (show_nat n) = Some n"
proof (induction n rule: show_nat.induct)
  case (1 n)
  show ?case
    by (cases "n < 10")
      (simp_all add: show_nat.simps [of n] digits_val_append digit_val_digit 1)
qed

lemma show_nat_ne [simp]: "show_nat n \<noteq> []"
  by (subst show_nat.simps) simp

lemma show_nat_digit: "c \<in> set (show_nat n) \<Longrightarrow> digit_val c \<noteq> None"
proof (induction n rule: show_nat.induct)
  case (1 n)
  then show ?case
    by (subst (asm) show_nat.simps) (auto simp: digit_val_digit split: if_splits)
qed

lemma parse_show_int: "in_int64 n \<Longrightarrow> parse_int64 (show_int n) = Some n"
proof -
  assume n: "in_int64 n"
  obtain c cs where c: "show_nat (nat n) = c # cs" by (cases "show_nat (nat n)") auto
  then have "digit_val c \<noteq> None" using show_nat_digit [of c "nat n"] by simp
  then have "c \<noteq> CHR ''-''" "c \<noteq> CHR ''+''" by (auto simp: digit_val_def)
  with c n digits_show_nat [of "nat n"] digits_show_nat [of "nat (- n)"] show ?thesis
    by (simp add: parse_int64_def show_int_def Let_def)
qed

subsection \<open>Hexadecimal bytes: \<open>encoding/hex\<close>\<close>

definition hex_val :: "char \<Rightarrow> nat option" where
  "hex_val c = (let n = (of_char c :: nat) in
     if 48 \<le> n \<and> n \<le> 57 then Some (n - 48)
     else if 97 \<le> n \<and> n \<le> 102 then Some (n - 87)
     else if 65 \<le> n \<and> n \<le> 70 then Some (n - 55) else None)"

text \<open>\<open>hex.DecodeString\<close>: an odd number of digits or a byte that is no digit is an error.\<close>

fun hex_decode :: "string \<Rightarrow> nat list option" where
  "hex_decode [] = Some []"
| "hex_decode [c] = None"
| "hex_decode (c # d # cs) =
     (case (hex_val c, hex_val d) of
        (Some x, Some y) \<Rightarrow> (case hex_decode cs of None \<Rightarrow> None | Some bs \<Rightarrow> Some ((16 * x + y) # bs))
      | _ \<Rightarrow> None)"

text \<open>\<open>big.Int.SetBytes\<close>: big-endian, unsigned.\<close>

definition set_bytes :: "nat list \<Rightarrow> int" where
  "set_bytes bs = foldl (\<lambda>acc b. 256 * acc + int b) 0 bs"

lemma hex_val_lt: "hex_val c = Some x \<Longrightarrow> x < 16"
  by (auto simp: hex_val_def Let_def split: if_splits)

lemma hex_decode_bytes: "hex_decode s = Some bs \<Longrightarrow> \<forall>b \<in> set bs. b < 256"
proof (induction s arbitrary: bs rule: hex_decode.induct)
  case (3 c d cs)
  then show ?case
    by (fastforce split: option.splits prod.splits dest: hex_val_lt)
qed auto

lemma hex_decode_length: "hex_decode s = Some bs \<Longrightarrow> length s = 2 * length bs"
  by (induction s arbitrary: bs rule: hex_decode.induct) (auto split: option.splits prod.splits)

lemma foldl_bytes_shift:
  "foldl (\<lambda>acc b. 256 * acc + int b) a bs = a * 256 ^ length bs + foldl (\<lambda>acc b. 256 * acc + int b) 0 bs"
proof (induction bs arbitrary: a)
  case (Cons b bs)
  show ?case
    using Cons [of "256 * a + int b"] Cons [of "int b"] by (simp add: algebra_simps)
qed simp

lemma set_bytes_nonneg [simp]: "0 \<le> set_bytes bs"
proof -
  have "0 \<le> a \<Longrightarrow> 0 \<le> foldl (\<lambda>acc b. 256 * acc + int b) a bs" for a
    by (induction bs arbitrary: a) auto
  then show ?thesis by (simp add: set_bytes_def)
qed

lemma set_bytes_Cons: "set_bytes (b # bs) = int b * 256 ^ length bs + set_bytes bs"
  unfolding set_bytes_def by (subst foldl_Cons, subst foldl_bytes_shift) simp

lemma set_bytes_less: "\<forall>b \<in> set bs. b < 256 \<Longrightarrow> set_bytes bs < 256 ^ length bs"
proof (induction bs)
  case Nil
  then show ?case by (simp add: set_bytes_def)
next
  case (Cons b bs)
  then have b: "int b \<le> 255" and IH: "set_bytes bs < 256 ^ length bs" by auto
  from b have "int b * 256 ^ length bs \<le> 255 * 256 ^ length bs"
    by (rule mult_right_mono) simp
  with IH show ?case unfolding set_bytes_Cons length_Cons power_Suc by linarith
qed

subsection \<open>Go maps that are iterated\<close>

text \<open>
  A map the code only reads and writes by key is a HOL map. A map that the code ranges over
  is an association list with distinct keys; where the order of the range matters, the
  operation takes the order as a parameter.
\<close>

type_synonym ('k, 'v) gomap = "('k \<times> 'v) list"

definition mput :: "'k \<Rightarrow> 'v \<Rightarrow> ('k, 'v) gomap \<Rightarrow> ('k, 'v) gomap" where
  "mput k v m = AList.update k v m"

lemma map_of_mput [simp, go_map]: "map_of (mput k v m) = (map_of m)(k \<mapsto> v)"
  by (simp add: mput_def update_conv')

lemma distinct_mput [simp, go_map]: "distinct (map fst m) \<Longrightarrow> distinct (map fst (mput k v m))"
  by (simp add: mput_def distinct_update)

lemma keys_mput [simp, go_map]: "fst ` set (mput k v m) = insert k (fst ` set m)"
  using map_of_mput [of k v m] dom_map_of_conv_image_fst [of "mput k v m"]
    dom_map_of_conv_image_fst [of m] by auto

lemma map_of_set: "distinct (map fst m) \<Longrightarrow> map_of m k = Some v \<longleftrightarrow> (k, v) \<in> set m"
  by (metis map_of_SomeD map_of_is_SomeI)

subsection \<open>Loops that keep the first element per key\<close>

fun first_by :: "('a \<Rightarrow> 'k) \<Rightarrow> 'k list \<Rightarrow> 'a list \<Rightarrow> 'a list" where
  "first_by key seen [] = []"
| "first_by key seen (x # xs) =
     (if key x \<in> set seen then first_by key seen xs
      else x # first_by key (key x # seen) xs)"

lemma first_by_set: "set (first_by key seen xs) \<subseteq> set xs"
  by (induction key seen xs rule: first_by.induct) auto

lemma first_by_keys: "key ` set (first_by key seen xs) = key ` set xs - set seen"
  by (induction key seen xs rule: first_by.induct) auto

lemma first_by_distinct: "distinct (map key (first_by key seen xs))"
proof (induction key seen xs rule: first_by.induct)
  case (2 key seen x xs)
  then show ?case
    using first_by_keys [of key "key x # seen" xs] by fastforce
qed simp

lemma first_by_id: "distinct (map key xs) \<Longrightarrow> key ` set xs \<inter> set seen = {} \<Longrightarrow> first_by key seen xs = xs"
  by (induction key seen xs rule: first_by.induct) auto

subsection \<open>Market data on the shared channel (\<open>pkg/protobuf\<close>)\<close>

text \<open>
  Instants are nanoseconds since January 1, year 1, UTC, the zero value of \<open>time.Time\<close>:
  \<open>IsZero\<close> is equality with 0, \<open>After\<close> is the order of the integers.
\<close>

type_synonym time = int

definition unix_epoch :: time where
  "unix_epoch = 62135596800 * 10 ^ 9"

definition unix_milli :: "time \<Rightarrow> int" where
  "unix_milli t = (t - unix_epoch) div 10 ^ 6"

definition unix_sec :: "time \<Rightarrow> int" where
  "unix_sec t = (t - unix_epoch) div 10 ^ 9"

end
