(* ===== verification/Util.thy ===== *)
theory Util
  imports Prelude
begin

text \<open>
  \<open>internal/util\<close>: exchange names and aliases, spot symbols, the symbol lists of the two JSON
  formats, and the log file that keeps its last lines (\<open>helpers.go\<close>, \<open>symbols.go\<close>,
  \<open>symbol_loader.go\<close>, \<open>logger.go\<close>). Reading a file and decoding JSON are parameters; the
  decoded value is what the code sees after \<open>json.Unmarshal\<close>.
\<close>

subsection \<open>helpers.go\<close>

definition exchangeAliases :: "string \<rightharpoonup> string" where
  "exchangeAliases = map_of
     [(''gate'', ''gate''), (''gateio'', ''gate''), (''gate-io'', ''gate''),
      (''gate_io'', ''gate''), (''gate-spot'', ''gate''), (''gate.io'', ''gate'')]"

definition NormalizeExchangeName :: "string \<Rightarrow> string" where
  "NormalizeExchangeName name =
     (let trimmed = to_lower (trim_space name) in
      if trimmed = [] then []
      else (case exchangeAliases trimmed of Some canon \<Rightarrow> canon | None \<Rightarrow> trimmed))"

text \<open>The loop over the known quote suffixes: the first that fits splits the symbol.\<close>

fun split_suffix :: "string \<Rightarrow> string list \<Rightarrow> string option" where
  "split_suffix pair [] = None"
| "split_suffix pair (s # ss) =
     (if length s < length pair \<and> drop (length pair - length s) pair = s
      then Some (take (length pair - length s) pair @ ''_'' @ s)
      else split_suffix pair ss)"

definition BybitToGateSymbol :: "string \<Rightarrow> string" where
  "BybitToGateSymbol bybit =
     (if length bybit < 5 then bybit
      else (case split_suffix bybit [''USDT'', ''USDC'', ''DAI'', ''BUSD''] of
          Some r \<Rightarrow> r
        | None \<Rightarrow> (if length bybit > 4
             then take (length bybit - 4) bybit @ ''_'' @ drop (length bybit - 4) bybit
             else bybit)))"

definition NormalizeSpotSymbol :: "string \<Rightarrow> string \<Rightarrow> string" where
  "NormalizeSpotSymbol exchange raw =
     (let s = to_upper raw;
          s = replace_all s CHR ''-'' [];
          s = replace_all s CHR ''_'' [];
          s = replace_all s CHR ''/'' [];
          s = replace_all s CHR ''.'' []
      in trim_space s)"

fun attach_bases :: "string list \<Rightarrow> string \<Rightarrow> string list" where
  "attach_bases [] q = []"
| "attach_bases (base # bases) q =
     (let trimmed = to_upper (trim_space base) in
      if trimmed = [] then attach_bases bases q else (trimmed @ q) # attach_bases bases q)"

definition AttachQuote :: "string list \<Rightarrow> string \<Rightarrow> string list" where
  "AttachQuote bases quote =
     (let normalizedQuote = to_upper (trim_space quote) in
      if normalizedQuote = [] then attach_bases bases [] else attach_bases bases normalizedQuote)"

subsection \<open>symbols.go\<close>

record CoinSymbol =
  cs_Symbol :: string
  cs_BybitSymbol :: string
  cs_IsValid :: bool

definition isStablecoinOrFiat :: "string \<Rightarrow> bool" where
  "isStablecoinOrFiat symbol = list_ex (equal_fold symbol)
     [''BUSD'', ''DAI'', ''EUR'', ''GBP'', ''JPY'', ''TUSD'', ''USD'', ''USD1'', ''USDC'',
      ''USDE'', ''USDT'', ''USTC'']"

text \<open>
  \<open>LoadSymbolsFromJSON\<close> ranges over the top-level keys of the file in no fixed order: \<open>keys\<close> is
  that order, or the error of reading or decoding. \<open>sort.Slice\<close> then orders by symbol.
\<close>

definition LoadSymbolsFromJSON :: "('e, string list) result \<Rightarrow> ('e, CoinSymbol list) result" where
  "LoadSymbolsFromJSON keys =
     (case keys of Inl e \<Rightarrow> Inl e
      | Inr tickers \<Rightarrow> Inr (sort_key cs_Symbol
          (map (\<lambda>t. \<lparr>cs_Symbol = t, cs_BybitSymbol = t @ ''USDT'', cs_IsValid = False\<rparr>)
            (filter (\<lambda>t. \<not> isStablecoinOrFiat t) tickers))))"

definition GetValidBybitSymbols :: "CoinSymbol list \<Rightarrow> string list" where
  "GetValidBybitSymbols symbols = map cs_BybitSymbol (filter cs_IsValid symbols)"

definition FilterBybitSymbols :: "CoinSymbol list \<Rightarrow> string list \<Rightarrow> CoinSymbol list" where
  "FilterBybitSymbols symbols availableSymbols =
     map (\<lambda>s. s\<lparr>cs_IsValid := (to_upper (cs_BybitSymbol s) \<in> to_upper ` set availableSymbols)\<rparr>) symbols"

subsection \<open>symbol\_loader.go\<close>

definition stableSkipSet :: "string list" where
  "stableSkipSet = [''BUSD'', ''DAI'', ''EUR'', ''TUSD'', ''USD'', ''USD1'', ''USDC'', ''USDT'']"

definition normalizeBaseSymbol :: "string \<Rightarrow> string" where
  "normalizeBaseSymbol raw =
     (let trimmed = trim_space raw in
      if trimmed = [] then []
      else replace_all (replace_all (replace_all (to_upper trimmed) CHR ''-'' []) CHR ''_'' []) CHR ''/'' [])"

text \<open>The body both loaders share: normalise, skip empty and stable symbols, skip the seen ones.\<close>

fun collect_symbols :: "string list \<Rightarrow> string list \<Rightarrow> string list" where
  "collect_symbols seen [] = []"
| "collect_symbols seen (raw # rest) =
     (let symbol = normalizeBaseSymbol raw in
      if symbol = [] then collect_symbols seen rest
      else if symbol \<in> set stableSkipSet then collect_symbols seen rest
      else if symbol \<in> set seen then collect_symbols seen rest
      else symbol # collect_symbols (symbol # seen) rest)"

datatype loader_error = ReadError | DecodeError | EntriesEmpty | NoValidEntries | LegacyEmpty | NoValidLegacy

text \<open>The argument is the decoded file: its entries' symbols, or \<open>None\<close> when decoding fails.\<close>

definition parseGeckoEntries :: "string list option \<Rightarrow> (loader_error, string list) result" where
  "parseGeckoEntries payload =
     (case payload of None \<Rightarrow> Inl DecodeError
      | Some entries \<Rightarrow>
          if entries = [] then Inl EntriesEmpty
          else (let result = collect_symbols [] entries in
                if result = [] then Inl NoValidEntries else Inr result))"

text \<open>The argument is the list of top-level keys in the order the range visits them.\<close>

definition parseLegacySymbolMap :: "string list option \<Rightarrow> (loader_error, string list) result" where
  "parseLegacySymbolMap payload =
     (case payload of None \<Rightarrow> Inl DecodeError
      | Some keys \<Rightarrow>
          if keys = [] then Inl LegacyEmpty
          else (let symbols = collect_symbols [] keys in
                if symbols = [] then Inl NoValidLegacy else Inr symbols))"

definition LoadSymbolsFromFile ::
    "(string \<Rightarrow> 'b option) \<Rightarrow> ('b \<Rightarrow> string list option) \<Rightarrow> ('b \<Rightarrow> string list option) \<Rightarrow> string
     \<Rightarrow> (loader_error, string list) result" where
  "LoadSymbolsFromFile read_file decode_gecko decode_legacy filePath =
     (case read_file filePath of None \<Rightarrow> Inl ReadError
      | Some data \<Rightarrow>
          (case parseGeckoEntries (decode_gecko data) of
             Inr (s # ss) \<Rightarrow> Inr (sort (s # ss))
           | _ \<Rightarrow> (case parseLegacySymbolMap (decode_legacy data) of
                 Inl e \<Rightarrow> Inl e
               | Inr legacySymbols \<Rightarrow> Inr (sort legacySymbols))))"

subsection \<open>logger.go: the log file that keeps its last lines\<close>

text \<open>
  \<open>trimUnlocked\<close> reads the file backwards in buffers and stops at the newline before the last
  \<open>maxLines\<close> lines. \<open>scan_buf\<close> is the inner loop over one buffer, from its position \<open>i - 1\<close>
  down: the newline count and, when the loop breaks, the position of the newline. \<open>scan_chunks\<close>
  is the outer loop: \<open>offset\<close> bytes are still unread; it returns the count and the cutoff,
  0 when there is none.
\<close>

definition bufSize :: nat where "bufSize = 8192"

fun scan_buf :: "char list \<Rightarrow> nat \<Rightarrow> nat \<Rightarrow> nat \<Rightarrow> nat \<times> nat option" where
  "scan_buf buf maxLines cnt 0 = (cnt, None)"
| "scan_buf buf maxLines cnt (Suc i) =
     (if buf ! i = CHR 0x0A
      then (if Suc cnt > maxLines then (Suc cnt, Some i) else scan_buf buf maxLines (Suc cnt) i)
      else scan_buf buf maxLines cnt i)"

function scan_chunks :: "char list \<Rightarrow> nat \<Rightarrow> nat \<Rightarrow> nat \<Rightarrow> nat \<times> nat" where
  "scan_chunks file maxLines cnt offset =
     (if 0 < offset \<and> cnt \<le> maxLines
      then (let readSize = (if offset < bufSize then offset else bufSize);
                offset' = offset - readSize;
                buf = take readSize (drop offset' file)
            in case scan_buf buf maxLines cnt readSize of
                 (cnt', Some i) \<Rightarrow> (cnt', offset' + i + 1)
               | (cnt', None) \<Rightarrow> scan_chunks file maxLines cnt' offset')
      else (cnt, 0))"
  by pat_completeness auto
termination by (relation "measure (\<lambda>(file, maxLines, cnt, offset). offset)") (auto simp: bufSize_def)

declare scan_chunks.simps [simp del]

definition trimUnlocked :: "nat \<Rightarrow> char list \<Rightarrow> char list" where
  "trimUnlocked maxLines file =
     (let size = length file in
      if size = 0 then file
      else (let (newlineCount, cutoff) = scan_chunks file maxLines 0 size in
            if newlineCount \<le> maxLines \<or> cutoff = 0 then file else drop cutoff file))"

definition log_Write :: "nat \<Rightarrow> char list \<Rightarrow> char list \<Rightarrow> char list" where
  "log_Write maxLines file p = trimUnlocked maxLines (file @ p)"

definition maxLogLines :: nat where "maxLogLines = 1000"

text \<open>The level of the logger decides which messages are written.\<close>

datatype log_kind = LDebug | LInfo | LError | LFatal

definition log_written :: "string \<Rightarrow> log_kind \<Rightarrow> bool" where
  "log_written level k = (case k of LDebug \<Rightarrow> level = ''debug'' | _ \<Rightarrow> True)"

definition SetLevel :: "string \<Rightarrow> string" where
  "SetLevel l = to_lower l"

subsection \<open>Lemmas: exchange names\<close>

lemma exchangeAliases_range: "exchangeAliases k = Some v \<Longrightarrow> v = ''gate''"
  by (auto simp: exchangeAliases_def split: if_splits)

lemma exchangeAliases_gate: "exchangeAliases ''gate'' = Some ''gate''"
  by (simp add: exchangeAliases_def)

lemma NormalizeExchangeName_lower: "to_lower (NormalizeExchangeName n) = NormalizeExchangeName n"
  by (auto simp: NormalizeExchangeName_def Let_def split: option.splits
      dest!: exchangeAliases_range) (simp add: to_lower_def lower_char_def)

lemma to_lower_gate: "to_lower ''gate'' = ''gate''"
  by (simp add: to_lower_def lower_char_def)

lemma trim_gate: "trim_space ''gate'' = ''gate''"
  by (simp add: trim_space_def is_space_def)

lemma NormalizeExchangeName_gate: "NormalizeExchangeName ''gate'' = ''gate''"
  by (simp add: NormalizeExchangeName_def to_lower_gate trim_gate exchangeAliases_gate)

lemma NormalizeExchangeName_cases:
  obtains "NormalizeExchangeName n = ''gate''"
  | "NormalizeExchangeName n = to_lower (trim_space n)" and "exchangeAliases (to_lower (trim_space n)) = None"
  | "NormalizeExchangeName n = []" and "trim_space n = []"
  using exchangeAliases_range [of "to_lower (trim_space n)"]
  by (cases "exchangeAliases (to_lower (trim_space n))"; cases "trim_space n = []")
    (auto simp: NormalizeExchangeName_def Let_def)

lemma NormalizeExchangeName_idem [simp]:
  "NormalizeExchangeName (NormalizeExchangeName n) = NormalizeExchangeName n"
proof (cases rule: NormalizeExchangeName_cases [of n])
  case 1
  then show ?thesis by (simp add: NormalizeExchangeName_gate)
next
  case 2
  then have "NormalizeExchangeName (to_lower (trim_space n)) = to_lower (trim_space n)"
    by (simp add: NormalizeExchangeName_def trim_to_lower Let_def)
  with 2 show ?thesis by simp
next
  case 3
  then show ?thesis by (simp add: NormalizeExchangeName_def)
qed

lemma NormalizeExchangeName_trimmed: "trimmed (NormalizeExchangeName n)"
proof (cases rule: NormalizeExchangeName_cases [of n])
  case 1
  then show ?thesis by (simp add: trimmed_def is_space_def)
next
  case 2
  then show ?thesis by (metis trim_to_lower trimmed_trim)
qed (simp add: trimmed_def)

subsection \<open>Lemmas: symbols\<close>

definition is_separator :: "char \<Rightarrow> bool" where
  "is_separator c \<longleftrightarrow> c \<in> {CHR ''-'', CHR ''_'', CHR ''/'', CHR ''.''}"

lemma NormalizeSpotSymbol_filter:
  "NormalizeSpotSymbol e raw = trim_space (filter (\<lambda>c. \<not> is_separator c) (to_upper raw))"
  by (simp add: NormalizeSpotSymbol_def replace_all_filter Let_def is_separator_def conj_comms)

lemma set_trim_space: "set (trim_space s) \<subseteq> set s"
  by (auto simp: trim_space_def dest!: set_dropWhileD)

lemma NormalizeSpotSymbol_clean:
  "c \<in> set (NormalizeSpotSymbol e raw) \<Longrightarrow> \<not> is_separator c \<and> upper_char c = c"
  using set_trim_space [of "filter (\<lambda>c. \<not> is_separator c) (to_upper raw)"]
  by (auto simp: NormalizeSpotSymbol_filter to_upper_def)

lemma NormalizeSpotSymbol_fixpoint:
  assumes "\<And>c. c \<in> set s \<Longrightarrow> \<not> is_separator c \<and> upper_char c = c" and "trimmed s"
  shows "NormalizeSpotSymbol e s = s"
proof -
  have "to_upper s = s" using assms(1) by (simp add: to_upper_def map_idI)
  moreover have "filter (\<lambda>c. \<not> is_separator c) s = s" using assms(1) by (simp add: filter_id_conv)
  ultimately show ?thesis using assms(2) by (simp add: NormalizeSpotSymbol_filter trimmed_fix)
qed

lemma NormalizeSpotSymbol_idem:
  "NormalizeSpotSymbol e (NormalizeSpotSymbol e' raw) = NormalizeSpotSymbol e' raw"
  by (rule NormalizeSpotSymbol_fixpoint)
    (use NormalizeSpotSymbol_clean in blast, simp add: NormalizeSpotSymbol_filter)

lemma collect_symbols_first_by:
  "collect_symbols seen raws = first_by id seen
     (filter (\<lambda>s. s \<noteq> [] \<and> s \<notin> set stableSkipSet) (map normalizeBaseSymbol raws))"
  by (induction seen raws rule: collect_symbols.induct) (simp_all add: Let_def)

lemma collect_symbols_set:
  "set (collect_symbols [] raws) = {s \<in> normalizeBaseSymbol ` set raws. s \<noteq> [] \<and> s \<notin> set stableSkipSet}"
  using first_by_keys [of id "[]" "filter (\<lambda>s. s \<noteq> [] \<and> s \<notin> set stableSkipSet) (map normalizeBaseSymbol raws)"]
  by (auto simp: collect_symbols_first_by)

lemma collect_symbols_distinct: "distinct (collect_symbols [] raws)"
  using first_by_distinct [of id "[]" "filter (\<lambda>s. s \<noteq> [] \<and> s \<notin> set stableSkipSet) (map normalizeBaseSymbol raws)"]
  by (simp add: collect_symbols_first_by)

lemma split_suffix_removes:
  "split_suffix pair ss = Some r \<Longrightarrow> \<exists>s \<in> set ss. \<exists>b. b \<noteq> [] \<and> pair = b @ s \<and> r = b @ ''_'' @ s"
proof (induction pair ss rule: split_suffix.induct)
  case (2 pair s ss)
  show ?case
  proof (cases "length s < length pair \<and> drop (length pair - length s) pair = s")
    case True
    then have "pair = take (length pair - length s) pair @ s"
      by (metis append_take_drop_id)
    moreover have "take (length pair - length s) pair \<noteq> []" using True by auto
    moreover have "r = take (length pair - length s) pair @ ''_'' @ s" using 2 True by simp
    ultimately show ?thesis by auto
  next
    case False
    with 2 show ?thesis by auto
  qed
qed simp

lemma BybitToGateSymbol_long:
  "5 \<le> length s \<Longrightarrow> \<exists>b q. b \<noteq> [] \<and> q \<noteq> [] \<and> s = b @ q \<and> BybitToGateSymbol s = b @ ''_'' @ q"
proof -
  assume len: "5 \<le> length s"
  show ?thesis
  proof (cases "split_suffix s [''USDT'', ''USDC'', ''DAI'', ''BUSD'']")
    case None
    with len have "BybitToGateSymbol s = take (length s - 4) s @ ''_'' @ drop (length s - 4) s"
      by (simp add: BybitToGateSymbol_def)
    with len show ?thesis
      by (intro exI [of _ "take (length s - 4) s"] exI [of _ "drop (length s - 4) s"]) auto
  next
    case (Some r)
    with len have "BybitToGateSymbol s = r" by (simp add: BybitToGateSymbol_def)
    with split_suffix_removes [OF Some] show ?thesis by fastforce
  qed
qed

subsection \<open>Lemmas: the log file\<close>

text \<open>The reference: cut the file into lines, keep the last ones.\<close>

definition newlines :: "char list \<Rightarrow> nat" where
  "newlines s = count_list s CHR 0x0A"

lemma newlines_append: "newlines (a @ b) = newlines a + newlines b"
  by (simp add: newlines_def)

text \<open>What the loops keep: the count is that of the bytes already read.\<close>

lemma scan_buf_spec:
  assumes "n \<le> length buf" and "cnt = newlines (drop n buf) + k" and "cnt \<le> maxLines"
  shows "case scan_buf buf maxLines cnt n of
      (c, None) \<Rightarrow> c = newlines buf + k \<and> c \<le> maxLines
    | (c, Some i) \<Rightarrow> i < n \<and> buf ! i = CHR 0x0A \<and> c = Suc maxLines \<and> newlines (drop (Suc i) buf) + k = maxLines"
  using assms
proof (induction buf maxLines cnt n rule: scan_buf.induct)
  case (2 buf maxLines cnt i)
  have "drop i buf = buf ! i # drop (Suc i) buf"
    using "2.prems"(1) by (simp add: Cons_nth_drop_Suc)
  then have n: "newlines (drop i buf) + k = (if buf ! i = CHR 0x0A then Suc cnt else cnt)"
    using "2.prems"(2) by (simp add: newlines_def)
  consider "buf ! i = CHR 0x0A" "Suc cnt > maxLines" | "buf ! i = CHR 0x0A" "Suc cnt \<le> maxLines"
    | "buf ! i \<noteq> CHR 0x0A" by linarith
  then show ?case
  proof cases
    case 1
    with "2.prems" show ?thesis by simp
  next
    case 2
    with "2.prems" n "2.IH"(1) show ?thesis by (auto split: prod.splits option.splits)
  next
    case 3
    with "2.prems" n "2.IH"(2) show ?thesis by (auto split: prod.splits option.splits)
  qed
qed simp

lemma newlines_chunk:
  "newlines (take r (drop o1 file)) + newlines (drop (o1 + r) file) = newlines (drop o1 file)"
  by (metis append_take_drop_id drop_drop add.commute newlines_append)

lemma scan_chunks_spec:
  assumes "offset \<le> length file" and "cnt = newlines (drop offset file)" and "cnt \<le> maxLines"
  shows "case scan_chunks file maxLines cnt offset of (c, ct) \<Rightarrow>
      (ct = 0 \<longrightarrow> c = newlines file \<and> c \<le> maxLines) \<and>
      (ct \<noteq> 0 \<longrightarrow> c = Suc maxLines \<and> ct \<le> length file \<and> file ! (ct - 1) = CHR 0x0A \<and>
         newlines (drop ct file) = maxLines)"
  using assms
proof (induction "file" maxLines cnt offset rule: scan_chunks.induct)
  case (1 "file" maxLines cnt offset)
  show ?case
  proof (cases "offset = 0")
    case True
    then have "scan_chunks file maxLines cnt offset = (cnt, 0)" by (subst scan_chunks.simps) simp
    then show ?thesis using 1 True by simp
  next
    case False
    define r where "r = (if offset < bufSize then offset else bufSize)"
    define o1 where "o1 = offset - r"
    define buf where "buf = take r (drop o1 file)"
    have r: "r \<le> offset" "0 < r" using False by (auto simp: r_def bufSize_def)
    then have len: "length buf = r" "o1 + r = offset" using "1.prems" by (auto simp: buf_def o1_def)
    have k: "newlines buf + newlines (drop offset file) = newlines (drop o1 file)"
      using newlines_chunk [of r o1 "file"] len by (simp add: buf_def)
    have eq: "scan_chunks file maxLines cnt offset =
      (case scan_buf buf maxLines cnt r of (cnt', Some i) \<Rightarrow> (cnt', o1 + i + 1)
        | (cnt', None) \<Rightarrow> scan_chunks file maxLines cnt' o1)"
      using False "1.prems" by (subst scan_chunks.simps) (simp add: r_def o1_def buf_def Let_def)
    have "newlines (drop r buf) = 0" using len by (simp add: newlines_def)
    then have sb: "case scan_buf buf maxLines cnt r of
        (c, None) \<Rightarrow> c = newlines buf + newlines (drop offset file) \<and> c \<le> maxLines
      | (c, Some i) \<Rightarrow> i < r \<and> buf ! i = CHR 0x0A \<and> c = Suc maxLines \<and>
          newlines (drop (Suc i) buf) + newlines (drop offset file) = maxLines"
      using scan_buf_spec [of r buf cnt "newlines (drop offset file)" maxLines] "1.prems" len by simp
    obtain c res where cr: "scan_buf buf maxLines cnt r = (c, res)" by fastforce
    show ?thesis
    proof (cases res)
      case None
      with sb cr k have c: "c = newlines (drop o1 file)" "c \<le> maxLines" by auto
      have o1: "o1 \<le> length file" using "1.prems"(1) by (simp add: o1_def)
      have step: "scan_chunks file maxLines cnt offset = scan_chunks file maxLines c o1"
        using eq cr None by simp
      show ?thesis
        unfolding step using False "1.prems"
        by (intro "1.IH" [OF _ r_def o1_def buf_def cr [unfolded None, symmetric] refl o1 c]) simp
    next
      case (Some i)
      with sb cr have i: "i < r" "buf ! i = CHR 0x0A" "c = Suc maxLines"
        "newlines (drop (Suc i) buf) + newlines (drop offset file) = maxLines" by auto
      have "drop (Suc i) buf = take (r - Suc i) (drop (o1 + Suc i) file)"
        by (simp add: buf_def drop_take add.commute)
      with newlines_chunk [of "r - Suc i" "o1 + Suc i" "file"] i len
      have "newlines (drop (o1 + Suc i) file) = maxLines" by simp
      moreover have "file ! (o1 + i) = CHR 0x0A"
        using i len "1.prems"(1) by (simp add: buf_def)
      ultimately show ?thesis using Some cr i len "1.prems"(1) by (simp add: eq)
    qed
  qed
qed

lemma trimUnlocked_cases:
  obtains (keep) "trimUnlocked m file = file" "newlines file \<le> m"
  | (cut) pre where "file = pre @ trimUnlocked m file" "pre \<noteq> []" "last pre = CHR 0x0A"
      "newlines (trimUnlocked m file) = m"
proof (cases "file = []")
  case True
  with keep show thesis by (simp add: trimUnlocked_def newlines_def)
next
  case False
  obtain c k where ck: "scan_chunks file m 0 (length file) = (c, k)" by fastforce
  with scan_chunks_spec [of "length file" "file" 0 m]
  have spec: "(k = 0 \<longrightarrow> c = newlines file \<and> c \<le> m) \<and> (k \<noteq> 0 \<longrightarrow> c = Suc m \<and> k \<le> length file \<and>
      file ! (k - 1) = CHR 0x0A \<and> newlines (drop k file) = m)"
    unfolding newlines_def by auto
  have t: "trimUnlocked m file = (if c \<le> m \<or> k = 0 then file else drop k file)"
    using False by (simp add: trimUnlocked_def ck)
  show thesis
  proof (cases "k = 0")
    case True
    with spec t keep show thesis by simp
  next
    case nz: False
    with spec t have "file = take k file @ trimUnlocked m file" "take k file \<noteq> []"
      "newlines (trimUnlocked m file) = m" using False by auto
    moreover have "last (take k file) = CHR 0x0A"
      using nz spec False by (simp add: last_conv_nth)
    ultimately show thesis using cut by blast
  qed
qed

end
