(* ===== verification/Float64.thy ===== *)
theory Float64
  imports Complex_Main Prelude
begin

text \<open>
  Go's \<open>float64\<close> and the part of \<open>math/big\<close> the program uses.

  A float64 is NaN, an infinity, or a finite number that holds its exact rational value; every
  operation computes the exact rational result and rounds it to the nearest double, ties to even,
  with gradual underflow and overflow to the infinities (IEEE 754 binary64). The sign of a zero
  is not kept: the program never divides by a float that may be a zero and no comparison it makes
  tells the two zeros apart. A \<open>big.Rat\<close> is a \<open>rat\<close>, a nil pointer to one is \<open>None\<close>; a
  \<open>big.Float\<close> of precision \<open>p\<close> is a rational rounded to \<open>p\<close> bits.
\<close>

named_theorems f64_simps "evaluation of float comparisons and tests on constructors"

subsection \<open>Rounding\<close>

definition round_half_even :: "rat \<Rightarrow> int" where
  "round_half_even x =
     (let f = \<lfloor>x\<rfloor>; r = x - of_int f in
      if r < 1 / 2 then f else if r > 1 / 2 then f + 1 else if even f then f else f + 1)"

lemma round_half_even_error: "\<bar>of_int (round_half_even x) - x\<bar> \<le> 1 / 2"
proof -
  have a: "of_int \<lfloor>x\<rfloor> \<le> x" and b: "x < of_int \<lfloor>x\<rfloor> + 1" by linarith+
  show ?thesis
    unfolding round_half_even_def Let_def using a b by (auto simp: abs_le_iff)
qed

lemma round_half_even_of_int [simp]: "round_half_even (of_int n) = n"
  by (simp add: round_half_even_def)

lemma round_half_even_mono: "x \<le> y \<Longrightarrow> round_half_even x \<le> round_half_even y"
proof -
  assume xy: "x \<le> y"
  have fl: "\<lfloor>x\<rfloor> \<le> \<lfloor>y\<rfloor>" using xy by (rule floor_mono)
  show ?thesis
  proof (cases "\<lfloor>x\<rfloor> = \<lfloor>y\<rfloor>")
    case True
    with xy show ?thesis by (auto simp: round_half_even_def Let_def)
  next
    case False
    with fl have "\<lfloor>x\<rfloor> + 1 \<le> \<lfloor>y\<rfloor>" by linarith
    moreover have "round_half_even x \<le> \<lfloor>x\<rfloor> + 1" by (simp add: round_half_even_def Let_def)
    moreover have "\<lfloor>y\<rfloor> \<le> round_half_even y" by (simp add: round_half_even_def Let_def)
    ultimately show ?thesis by linarith
  qed
qed

definition pow2 :: "int \<Rightarrow> rat" where
  "pow2 k = (if 0 \<le> k then 2 ^ nat k else 1 / 2 ^ nat (- k))"

lemma pow2_powi: "pow2 k = 2 powi k"
  by (simp add: pow2_def power_int_def inverse_eq_divide power_one_over)

lemma pow2_pos [simp]: "0 < pow2 k"
  by (simp add: pow2_def)

lemma pow2_nonzero [simp]: "pow2 k \<noteq> 0"
  using pow2_pos [of k] by linarith

lemma abs_pow2 [simp]: "\<bar>pow2 k\<bar> = pow2 k"
  by (simp add: less_imp_le)

lemma pow2_add: "pow2 (j + k) = pow2 j * pow2 k"
  by (simp add: pow2_powi power_int_add)

lemma pow2_diff: "pow2 (j - k) = pow2 j / pow2 k"
  by (simp add: pow2_powi power_int_diff)

lemma pow2_mono: "j \<le> k \<Longrightarrow> pow2 j \<le> pow2 k"
  by (simp add: pow2_powi power_int_increasing)

function int_bits :: "int \<Rightarrow> int" where
  "int_bits n = (if n \<le> 0 then 0 else 1 + int_bits (n div 2))"
  by pat_completeness auto
termination by (relation "measure nat") auto

declare int_bits.simps [simp del]

lemma int_bits_nonneg: "0 \<le> int_bits n"
  by (induction n rule: int_bits.induct) (subst int_bits.simps, simp)

lemma int_bits_bounds: "0 < n \<Longrightarrow> 2 ^ nat (int_bits n - 1) \<le> n \<and> n < 2 ^ nat (int_bits n) \<and> 1 \<le> int_bits n"
proof (induction n rule: int_bits.induct)
  case (1 n)
  have eq: "int_bits n = 1 + int_bits (n div 2)" using 1 by (subst int_bits.simps) simp
  show ?case
  proof (cases "n = 1")
    case True
    then show ?thesis by (simp add: int_bits.simps [of 1] int_bits.simps [of 0])
  next
    case False
    with 1 have pos: "0 < n div 2" by auto
    with 1 have IH: "2 ^ nat (int_bits (n div 2) - 1) \<le> n div 2" "n div 2 < 2 ^ nat (int_bits (n div 2))"
      "1 \<le> int_bits (n div 2)" by auto
    have e: "nat (int_bits n - 1) = Suc (nat (int_bits (n div 2) - 1))"
      "nat (int_bits n) = Suc (nat (int_bits (n div 2)))" using IH(3) eq by linarith+
    have "2 * (n div 2) \<le> n" "n < 2 * (n div 2) + 2" by linarith+
    with IH show ?thesis unfolding e power_Suc using eq by linarith
  qed
qed

lemma int_bits_rat:
  assumes "0 < n"
  shows "pow2 (int_bits n - 1) \<le> (of_int n :: rat)" and "(of_int n :: rat) < pow2 (int_bits n)"
proof -
  note b = int_bits_bounds [OF assms]
  have "(of_int (2 ^ nat (int_bits n - 1)) :: rat) \<le> of_int n" using b by (simp only: of_int_le_iff)
  then show "pow2 (int_bits n - 1) \<le> (of_int n :: rat)" using b by (simp add: pow2_def)
  have "(of_int n :: rat) < of_int (2 ^ nat (int_bits n))" using b by (simp only: of_int_less_iff)
  then show "(of_int n :: rat) < pow2 (int_bits n)" using b by (simp add: pow2_def)
qed

definition ilog2 :: "rat \<Rightarrow> int" where
  "ilog2 x = (let (n, d) = quotient_of x; k = int_bits n - int_bits d in if x < pow2 k then k - 1 else k)"

lemma ilog2_bounds:
  assumes "0 < x"
  shows "pow2 (ilog2 x) \<le> x" and "x < pow2 (ilog2 x + 1)"
proof -
  obtain n d where nd: "quotient_of x = (n, d)" by (cases "quotient_of x")
  have d: "0 < d" using nd by (rule quotient_of_denom_pos)
  have x: "x = of_int n / of_int d" using nd by (rule quotient_of_div)
  have n: "0 < n" using assms d unfolding x by (simp add: zero_less_divide_iff)
  define bn where "bn = int_bits n"
  define bd where "bd = int_bits d"
  have bn: "pow2 (bn - 1) \<le> of_int n" "of_int n < pow2 bn"
    unfolding bn_def by (rule int_bits_rat [OF n])+
  have bd: "pow2 (bd - 1) \<le> of_int d" "of_int d < pow2 bd"
    unfolding bd_def by (rule int_bits_rat [OF d])+
  have dp: "(0::rat) < of_int d" using d by simp
  have lo: "pow2 (bn - bd - 1) \<le> x"
  proof -
    have "pow2 (bn - bd - 1) * of_int d \<le> pow2 (bn - bd - 1) * pow2 bd"
      using bd(2) by (intro mult_left_mono) (auto simp: less_imp_le)
    also have "\<dots> = pow2 (bn - 1)" by (simp flip: pow2_add)
    also have "\<dots> \<le> of_int n" by (rule bn(1))
    finally show ?thesis using dp unfolding x by (simp add: pos_le_divide_eq)
  qed
  have hi: "x < pow2 (bn - bd + 1)"
  proof -
    have "of_int n < pow2 bn" by (rule bn(2))
    also have "\<dots> = pow2 (bn - bd + 1) * pow2 (bd - 1)" by (simp flip: pow2_add)
    also have "\<dots> \<le> pow2 (bn - bd + 1) * of_int d"
      using bd(1) by (intro mult_left_mono) (auto simp: less_imp_le)
    finally show ?thesis using dp unfolding x by (simp add: pos_divide_less_eq)
  qed
  have il: "ilog2 x = (if x < pow2 (bn - bd) then bn - bd - 1 else bn - bd)"
    by (simp add: ilog2_def nd bn_def bd_def Let_def)
  show "pow2 (ilog2 x) \<le> x" using lo by (simp add: il)
  show "x < pow2 (ilog2 x + 1)" using hi by (simp add: il)
qed

definition round_at :: "rat \<Rightarrow> rat \<Rightarrow> rat" where
  "round_at q x = q * of_int (round_half_even (x / q))"

lemma round_at_error: "0 < q \<Longrightarrow> \<bar>round_at q x - x\<bar> \<le> q / 2"
proof -
  assume q: "0 < q"
  have "round_at q x - x = q * (of_int (round_half_even (x / q)) - x / q)"
    using q by (simp add: round_at_def right_diff_distrib)
  then have "\<bar>round_at q x - x\<bar> = q * \<bar>of_int (round_half_even (x / q)) - x / q\<bar>"
    using q by (simp add: abs_mult)
  also have "\<dots> \<le> q * (1 / 2)" using q round_half_even_error by (intro mult_left_mono) auto
  finally show ?thesis by simp
qed

lemma round_at_nonneg: "0 < q \<Longrightarrow> 0 \<le> x \<Longrightarrow> 0 \<le> round_at q x"
  using round_half_even_mono [of 0 "x / q"] round_half_even_of_int [of 0]
  by (simp add: round_at_def)

text \<open>\<open>big.Float\<close> of precision \<open>p\<close>: \<open>p\<close> significant bits, exponent unbounded.\<close>

definition round_prec :: "nat \<Rightarrow> rat \<Rightarrow> rat" where
  "round_prec p x = (if x = 0 then 0 else round_at (pow2 (ilog2 \<bar>x\<bar> - int p + 1)) x)"

lemma round_prec_0 [simp]: "round_prec p 0 = 0"
  by (simp add: round_prec_def)

lemma round_prec_error:
  assumes "0 < x" shows "\<bar>round_prec p x - x\<bar> \<le> pow2 (- int p) * x"
proof -
  have "\<bar>round_prec p x - x\<bar> \<le> pow2 (ilog2 x - int p + 1) / 2"
    using assms round_at_error by (simp add: round_prec_def)
  also have "\<dots> = pow2 (- int p) * pow2 (ilog2 x)"
    using pow2_add [of 1 "- int p + ilog2 x"] pow2_add [of "- int p" "ilog2 x"]
    by (simp add: pow2_def [of 1] algebra_simps)
  also have "\<dots> \<le> pow2 (- int p) * x"
    using ilog2_bounds(1) [OF assms] by (intro mult_left_mono) (auto simp: less_imp_le)
  finally show ?thesis .
qed

lemma round_prec_pos:
  assumes "0 < x" and "1 \<le> p" shows "0 < round_prec p x"
proof -
  have "pow2 (- int p) \<le> pow2 (- 1)" using assms(2) by (intro pow2_mono) simp
  then have "pow2 (- int p) * x \<le> 1 / 2 * x"
    using assms(1) by (intro mult_right_mono) (auto simp: pow2_def)
  moreover have "x - round_prec p x \<le> pow2 (- int p) * x"
    using round_prec_error [OF assms(1), of p] unfolding abs_le_iff by linarith
  ultimately show ?thesis using assms(1) by linarith
qed

subsection \<open>float64\<close>

datatype f64 = NaN | PInf | NInf | Fin rat

definition f64_of_rat :: "rat \<Rightarrow> f64" where
  "f64_of_rat x =
     (if x = 0 then Fin 0
      else let e = max (ilog2 \<bar>x\<bar>) (- 1022); y = round_at (pow2 (e - 52)) x
           in if 1024 \<le> ilog2 \<bar>y\<bar> then (if 0 < x then PInf else NInf) else Fin y)"

text \<open>
  The rounding overflows when the rounded value reaches \<open>2\<^sup>1\<^sup>0\<^sup>2\<^sup>4\<close>, that is, when its binary
  exponent is 1024 or more.
\<close>

text \<open>A value of the type: an infinity, NaN, or a number that rounding leaves alone.\<close>

definition f64_ok :: "f64 \<Rightarrow> bool" where
  "f64_ok f = (case f of Fin y \<Rightarrow> f64_of_rat y = Fin y | _ \<Rightarrow> True)"

lemma ilog2_eqI:
  assumes "pow2 k \<le> x" and "x < pow2 (k + 1)" shows "ilog2 x = k"
proof -
  have x: "0 < x" using assms(1) pow2_pos [of k] by linarith
  have mono: "pow2 a < pow2 b \<Longrightarrow> a < b" for a b
    using pow2_mono [of b a] by (metis leD linorder_not_le)
  from ilog2_bounds [OF x] assms have "pow2 (ilog2 x) < pow2 (k + 1)" "pow2 k < pow2 (ilog2 x + 1)"
    by linarith+
  then have "ilog2 x < k + 1" "k < ilog2 x + 1" by (auto dest: mono)
  then show ?thesis by linarith
qed

lemma ilog2_less: "0 < x \<Longrightarrow> x < pow2 k \<Longrightarrow> ilog2 x < k"
  using ilog2_bounds(1) [of x] pow2_mono [of k "ilog2 x"] by linarith

text \<open>Numbers of at most 53 bits in the normal or subnormal range are doubles.\<close>

lemma f64_of_rat_exact:
  assumes "\<bar>n\<bar> < 2 ^ 53" and "- 1074 \<le> k" and "k \<le> 971"
  shows "f64_of_rat (of_int n * pow2 k) = Fin (of_int n * pow2 k)"
proof (cases "n = 0")
  case False
  define x :: rat where "x = of_int n * pow2 k"
  have x0: "x \<noteq> 0" "0 < \<bar>x\<bar>" using False by (simp_all add: x_def abs_mult)
  have "(of_int \<bar>n\<bar> :: rat) < of_int (2 ^ 53)" using assms(1) by (simp only: of_int_less_iff)
  then have "\<bar>x\<bar> < pow2 53 * pow2 k" by (simp add: x_def abs_mult pow2_def [of 53])
  then have lt: "\<bar>x\<bar> < pow2 (53 + k)" by (simp add: pow2_add)
  from ilog2_less [OF x0(2) lt] have il: "ilog2 \<bar>x\<bar> < 53 + k" .
  define e where "e = max (ilog2 \<bar>x\<bar>) (- 1022) - 52"
  have ek: "e \<le> k" using il assms(2) by (simp add: e_def)
  have "x / pow2 e = of_int n * pow2 (k - e)" by (simp add: x_def pow2_diff)
  also have "\<dots> = of_int (n * 2 ^ nat (k - e))" using ek by (simp add: pow2_def [of "k - e"])
  finally have "round_at (pow2 e) x = x"
    unfolding round_at_def by (metis nonzero_mult_div_cancel_left pow2_nonzero round_half_even_of_int
        times_divide_eq_right)
  moreover have "\<not> 1024 \<le> ilog2 \<bar>x\<bar>" using il assms(3) by linarith
  ultimately have "f64_of_rat x = Fin x"
    using x0 by (simp add: f64_of_rat_def Let_def e_def)
  then show ?thesis by (simp add: x_def)
qed (simp add: f64_of_rat_def)

lemma f64_of_rat_int [f64_simps]: "\<bar>n\<bar> < 2 ^ 53 \<Longrightarrow> f64_of_rat (of_int n) = Fin (of_int n)"
  using f64_of_rat_exact [of n 0] by (simp add: pow2_def)

lemma f64_of_rat_numeral [f64_simps]:
  "(numeral w :: int) < 2 ^ 53 \<Longrightarrow> f64_of_rat (numeral w) = Fin (numeral w)"
  using f64_of_rat_int [of "numeral w"] by simp

lemma f64_of_rat_1 [simp]: "f64_of_rat 1 = Fin 1"
  using f64_of_rat_int [of 1] by simp

lemma f64_of_rat_0 [simp]: "f64_of_rat 0 = Fin 0"
  by (simp add: f64_of_rat_def)

lemma f64_of_rat_pos: "0 < x \<Longrightarrow> f64_of_rat x = PInf \<or> (\<exists>y \<ge> 0. f64_of_rat x = Fin y)"
  using round_at_nonneg [OF pow2_pos, of x] by (auto simp: f64_of_rat_def Let_def)

lemma f64_of_rat_error:
  assumes "pow2 (- 1022) \<le> x" and "f64_of_rat x = Fin y"
  shows "\<bar>y - x\<bar> \<le> pow2 (- 53) * x"
proof -
  have x: "0 < x" using assms(1) pow2_pos [of "- 1022"] by linarith
  have "- 1022 \<le> ilog2 x"
  proof (rule ccontr)
    assume "\<not> - 1022 \<le> ilog2 x"
    then have "pow2 (ilog2 x + 1) \<le> pow2 (- 1022)" by (intro pow2_mono) simp
    with ilog2_bounds(2) [OF x] assms(1) show False by linarith
  qed
  with assms(2) x have "y = round_at (pow2 (ilog2 x - 52)) x"
    by (simp add: f64_of_rat_def Let_def max_def split: if_splits)
  also have "\<dots> = round_prec 53 x" using x by (simp add: round_prec_def)
  finally show ?thesis using round_prec_error [OF x, of 53] by simp
qed

text \<open>Go's comparison operators on floats: false as soon as one side is NaN.\<close>

instantiation f64 :: ord
begin

fun less_f64 :: "f64 \<Rightarrow> f64 \<Rightarrow> bool" where
  "less_f64 (Fin a) (Fin b) = (a < b)"
| "less_f64 (Fin a) PInf = True"
| "less_f64 NInf (Fin b) = True"
| "less_f64 NInf PInf = True"
| "less_f64 _ _ = False"

fun less_eq_f64 :: "f64 \<Rightarrow> f64 \<Rightarrow> bool" where
  "less_eq_f64 (Fin a) (Fin b) = (a \<le> b)"
| "less_eq_f64 (Fin a) PInf = True"
| "less_eq_f64 NInf (Fin b) = True"
| "less_eq_f64 NInf PInf = True"
| "less_eq_f64 PInf PInf = True"
| "less_eq_f64 NInf NInf = True"
| "less_eq_f64 _ _ = False"

instance ..

end

text \<open>Arithmetic: exact, then rounded.\<close>

instantiation f64 :: "{zero, one, plus, minus, uminus, times, inverse, abs}"
begin

definition zero_f64 :: f64 where "zero_f64 = Fin 0"

definition one_f64 :: f64 where "one_f64 = Fin 1"

fun uminus_f64 :: "f64 \<Rightarrow> f64" where
  "uminus_f64 NaN = NaN"
| "uminus_f64 PInf = NInf"
| "uminus_f64 NInf = PInf"
| "uminus_f64 (Fin a) = Fin (- a)"

fun plus_f64 :: "f64 \<Rightarrow> f64 \<Rightarrow> f64" where
  "plus_f64 (Fin a) (Fin b) = f64_of_rat (a + b)"
| "plus_f64 PInf (Fin b) = PInf"
| "plus_f64 (Fin a) PInf = PInf"
| "plus_f64 PInf PInf = PInf"
| "plus_f64 NInf (Fin b) = NInf"
| "plus_f64 (Fin a) NInf = NInf"
| "plus_f64 NInf NInf = NInf"
| "plus_f64 _ _ = NaN"

definition minus_f64 :: "f64 \<Rightarrow> f64 \<Rightarrow> f64" where
  "minus_f64 a b = a + (- b)"

fun times_f64 :: "f64 \<Rightarrow> f64 \<Rightarrow> f64" where
  "times_f64 (Fin a) (Fin b) = f64_of_rat (a * b)"
| "times_f64 NaN b = NaN"
| "times_f64 a NaN = NaN"
| "times_f64 a b =
     (let pos = (\<lambda>x. case x of PInf \<Rightarrow> 1 | NInf \<Rightarrow> - 1 | Fin r \<Rightarrow> sgn r | NaN \<Rightarrow> 0) :: f64 \<Rightarrow> rat;
          s = pos a * pos b
      in if s = 0 then NaN else if 0 < s then PInf else NInf)"

fun divide_f64 :: "f64 \<Rightarrow> f64 \<Rightarrow> f64" where
  "divide_f64 (Fin a) (Fin b) =
     (if b = 0 then (if a = 0 then NaN else if 0 < a then PInf else NInf) else f64_of_rat (a / b))"
| "divide_f64 (Fin a) PInf = Fin 0"
| "divide_f64 (Fin a) NInf = Fin 0"
| "divide_f64 PInf (Fin b) = (if b < 0 then NInf else PInf)"
| "divide_f64 NInf (Fin b) = (if b < 0 then PInf else NInf)"
| "divide_f64 _ _ = NaN"

definition inverse_f64 :: "f64 \<Rightarrow> f64" where
  "inverse_f64 a = Fin 1 div a"

fun abs_f64 :: "f64 \<Rightarrow> f64" where
  "abs_f64 NaN = NaN"
| "abs_f64 PInf = PInf"
| "abs_f64 NInf = PInf"
| "abs_f64 (Fin a) = Fin \<bar>a\<bar>"

instance ..

end

definition is_nan :: "f64 \<Rightarrow> bool" where "is_nan f \<longleftrightarrow> f = NaN"

definition is_inf :: "f64 \<Rightarrow> bool" where "is_inf f \<longleftrightarrow> f = PInf \<or> f = NInf"

text \<open>The operator \<open>==\<close>: NaN equals nothing.\<close>

definition f64_eq :: "f64 \<Rightarrow> f64 \<Rightarrow> bool" where "f64_eq a b \<longleftrightarrow> a = b \<and> a \<noteq> NaN"

text \<open>\<open>math.Max\<close>\<close>

definition f64_max :: "f64 \<Rightarrow> f64 \<Rightarrow> f64" where
  "f64_max a b = (if a = PInf \<or> b = PInf then PInf else if a = NaN \<or> b = NaN then NaN
     else if b < a then a else b)"

text \<open>\<open>math.MaxFloat64\<close>\<close>

definition max_float64 :: f64 where "max_float64 = Fin ((2 ^ 53 - 1) * 2 ^ 971)"

text \<open>
  A price that the code lets through: \<open>v <= 0 || IsNaN(v) || IsInf(v, 0)\<close> is false exactly
  on the positive finite numbers.
\<close>

definition pos_fin :: "f64 \<Rightarrow> bool" where
  "pos_fin f \<longleftrightarrow> (case f of Fin y \<Rightarrow> 0 < y | _ \<Rightarrow> False)"

lemma pos_fin_iff: "pos_fin f \<longleftrightarrow> (\<exists>y > 0. f = Fin y)"
  by (auto simp: pos_fin_def split: f64.splits)

lemma pos_fin_guard [f64_simps]: "\<not> (f \<le> 0 \<or> is_nan f \<or> is_inf f) \<longleftrightarrow> pos_fin f"
  by (cases f) (auto simp: pos_fin_def zero_f64_def is_nan_def is_inf_def)

lemma pos_fin_guardI: "\<not> f \<le> 0 \<Longrightarrow> \<not> is_nan f \<Longrightarrow> \<not> is_inf f \<Longrightarrow> pos_fin f"
  using pos_fin_guard by blast

lemma pos_finD: "pos_fin f \<Longrightarrow> \<not> f \<le> 0 \<and> \<not> is_nan f \<and> \<not> is_inf f \<and> 0 < f"
  by (auto simp: pos_fin_iff zero_f64_def is_nan_def is_inf_def)

lemma f64_ok_of_rat_le:
  assumes "f64_ok (Fin y)" shows "1 * Fin y = (Fin y :: f64)"
  using assms by (simp add: one_f64_def f64_ok_def)

subsection \<open>\<open>big.Rat\<close> to float64\<close>

text \<open>
  \<open>new(big.Float).SetPrec(256).SetRat(r).Float64()\<close>: the quotient rounded to 256 bits,
  then to a double.
\<close>

definition rat_float64 :: "rat \<Rightarrow> f64" where
  "rat_float64 r = f64_of_rat (round_prec 256 r)"

definition ten_pow :: "nat \<Rightarrow> rat" where
  "ten_pow d = 10 ^ d"

lemma ten_pow_pos [simp]: "0 < ten_pow d"
  by (simp add: ten_pow_def)

lemma ten_pow_nonzero [simp]: "ten_pow d \<noteq> 0"
  using ten_pow_pos [of d] by linarith

lemma rat_float64_pos: "0 < r \<Longrightarrow> rat_float64 r = PInf \<or> (\<exists>y \<ge> 0. rat_float64 r = Fin y)"
  unfolding rat_float64_def by (intro f64_of_rat_pos round_prec_pos) auto

text \<open>The two roundings together stay within \<open>2\<^sup>-\<^sup>5\<^sup>2\<close> of the exact value.\<close>

lemma rat_float64_error:
  assumes "pow2 (- 1021) \<le> r" and "rat_float64 r = Fin y"
  shows "\<bar>y - r\<bar> \<le> pow2 (- 52) * r"
proof -
  have r: "0 < r" using assms(1) pow2_pos [of "- 1021"] by linarith
  define z where "z = round_prec 256 r"
  have zr: "\<bar>z - r\<bar> \<le> pow2 (- 256) * r"
    using round_prec_error [OF r, of 256] by (simp add: z_def)
  have half: "pow2 (- 256) * r \<le> 1 / 2 * r"
    using r by (intro mult_right_mono) (auto simp: pow2_def)
  from zr half have z2: "1 / 2 * r \<le> z" by (simp add: abs_le_iff)
  have "pow2 (- 1022) = 1 / 2 * pow2 (- 1021)" by (simp add: pow2_def)
  with z2 assms(1) have "pow2 (- 1022) \<le> z" by linarith
  with assms(2) have yz: "\<bar>y - z\<bar> \<le> pow2 (- 53) * z"
    by (intro f64_of_rat_error) (simp_all add: rat_float64_def z_def)
  have "z \<le> r + pow2 (- 256) * r" using zr by (simp add: abs_le_iff)
  then have "pow2 (- 53) * z \<le> pow2 (- 53) * (r + pow2 (- 256) * r)"
    by (intro mult_left_mono) (auto simp: less_imp_le)
  with yz zr have "\<bar>y - r\<bar> \<le> pow2 (- 53) * (r + pow2 (- 256) * r) + pow2 (- 256) * r"
    by linarith
  also have "\<dots> = (pow2 (- 53) * (1 + pow2 (- 256)) + pow2 (- 256)) * r" by (simp add: algebra_simps)
  also have "\<dots> \<le> pow2 (- 52) * r"
    using r by (intro mult_right_mono) (auto simp: pow2_def)
  finally show ?thesis .
qed

lemma f64_of_rat_normal:
  assumes "pow2 (- 1022) \<le> x" and "x < pow2 1023"
  shows "\<exists>y. f64_of_rat x = Fin y \<and> x / 2 \<le> y \<and> y \<le> 2 * x"
proof -
  have x: "0 < x" using assms(1) pow2_pos [of "- 1022"] by linarith
  have il: "- 1022 \<le> ilog2 x"
  proof (rule ccontr)
    assume "\<not> - 1022 \<le> ilog2 x"
    then have "pow2 (ilog2 x + 1) \<le> pow2 (- 1022)" by (intro pow2_mono) simp
    with ilog2_bounds(2) [OF x] assms(1) show False by linarith
  qed
  define y where "y = round_prec 53 x"
  have "pow2 (- 53) * x \<le> 1 / 2 * x" using x by (intro mult_right_mono) (auto simp: pow2_def)
  moreover have "y - x \<le> pow2 (- 53) * x" "x - y \<le> pow2 (- 53) * x"
    using round_prec_error [OF x, of 53] by (simp_all add: y_def abs_le_iff)
  ultimately have y: "x / 2 \<le> y" "y \<le> 2 * x"
    using x by linarith+
  have "y < pow2 1024" using y(2) assms(2) pow2_add [of 1 1023] by (simp add: pow2_def [of 1])
  moreover have "0 < y" using x y(1) by linarith
  ultimately have "ilog2 y < 1024" by (intro ilog2_less)
  moreover have "round_at (pow2 (max (ilog2 x) (- 1022) - 52)) x = y"
    using il x by (simp add: y_def round_prec_def max_def)
  ultimately have "f64_of_rat x = Fin y"
    using x \<open>0 < y\<close> by (simp add: f64_of_rat_def Let_def)
  with y show ?thesis by blast
qed

text \<open>In the range of the normal numbers the conversion succeeds and stays positive.\<close>

lemma rat_float64_finite:
  assumes "pow2 (- 1021) \<le> r" and "r < pow2 1022"
  shows "\<exists>y > 0. rat_float64 r = Fin y \<and> \<bar>y - r\<bar> \<le> pow2 (- 52) * r"
proof -
  have r: "0 < r" using assms(1) pow2_pos [of "- 1021"] by linarith
  define z where "z = round_prec 256 r"
  have "pow2 (- 256) * r \<le> 1 / 2 * r" using r by (intro mult_right_mono) (auto simp: pow2_def)
  moreover have "\<bar>z - r\<bar> \<le> pow2 (- 256) * r" using round_prec_error [OF r, of 256] by (simp add: z_def)
  ultimately have z: "r / 2 \<le> z" "z \<le> 2 * r" using r unfolding abs_le_iff by linarith+
  have "pow2 (- 1021) = 2 * pow2 (- 1022)" "pow2 1023 = 2 * pow2 1022" by (simp_all add: pow2_def)
  with z assms have "pow2 (- 1022) \<le> z" "z < pow2 1023" by linarith+
  then obtain y where y: "f64_of_rat z = Fin y" "z / 2 \<le> y" using f64_of_rat_normal by blast
  then have "0 < y" using z(1) r by linarith
  moreover have "rat_float64 r = Fin y" using y(1) by (simp add: rat_float64_def z_def)
  ultimately show ?thesis using rat_float64_error [OF assms(1)] by blast
qed

end
