(* ===== verification/Eth.thy ===== *)
theory Eth
  imports Prelude
begin

text \<open>
  The go-ethereum \<open>common\<close> package, which is not part of the repository: an address is 20 bytes, a
  hash 32, and its conversions are parameters, bundled in a record that every operation using them
  takes. \<open>eth_ok\<close> is the documented behaviour the code relies on; \<open>plain_eth\<close>, which writes
  addresses as lower-case hexadecimal, shows that it can hold.
\<close>

type_synonym address = "160 word"
type_synonym hash = "256 word"

record eth_lib =
  eth_Hex :: "address \<Rightarrow> string"
  eth_IsHexAddress :: "string \<Rightarrow> bool"
  eth_HexToAddress :: "string \<Rightarrow> address"
  eth_HashHex :: "hash \<Rightarrow> string"
  eth_HexToHash :: "string \<Rightarrow> hash"

text \<open>
  \<open>Hex\<close> writes different addresses as texts that differ in more than letter case (EIP-55 puts a
  checksum into the case of the digits), with the prefix \<open>0x\<close>.
\<close>

definition eth_ok :: "eth_lib \<Rightarrow> bool" where
  "eth_ok E \<longleftrightarrow> inj (\<lambda>a. to_lower (eth_Hex E a)) \<and> inj (\<lambda>h. to_lower (eth_HashHex E h)) \<and>
     (\<forall>a. has_prefix (eth_Hex E a) ''0x'')"

definition lower_hex :: "eth_lib \<Rightarrow> address \<Rightarrow> string" where
  "lower_hex E a = to_lower (eth_Hex E a)"

lemma lower_hex_inj: "eth_ok E \<Longrightarrow> lower_hex E a = lower_hex E b \<longleftrightarrow> a = b"
  by (auto simp: eth_ok_def lower_hex_def dest: injD)

lemma lower_hex_nonempty: "eth_ok E \<Longrightarrow> lower_hex E a \<noteq> []"
  by (auto simp: eth_ok_def lower_hex_def has_prefix_def) (metis list.distinct(1) take_Nil)

subsection \<open>A concrete instance\<close>

definition hex_digit :: "int \<Rightarrow> char" where
  "hex_digit n = char_of (if n < 10 then 48 + n else 87 + n)"

fun hex_digits :: "nat \<Rightarrow> int \<Rightarrow> string" where
  "hex_digits 0 n = []"
| "hex_digits (Suc k) n = hex_digits k (n div 16) @ [hex_digit (n mod 16)]"

fun hex_read :: "int \<Rightarrow> string \<Rightarrow> int" where
  "hex_read acc [] = acc"
| "hex_read acc (c # cs) = hex_read (16 * acc + (case hex_val c of Some d \<Rightarrow> int d | None \<Rightarrow> 0)) cs"

lemma hex_digit_code: "0 \<le> n \<Longrightarrow> n < 16 \<Longrightarrow>
    (of_char (hex_digit n) :: nat) = (if n < 10 then 48 + nat n else 87 + nat n)"
proof -
  assume n: "0 \<le> n" "n < 16"
  then obtain m where m: "n = int m" "m < 16" by (metis nonneg_int_cases of_nat_less_numeral_iff)
  have "char_of (48 + int m) = (char_of (48 + m) :: char)" "char_of (87 + int m) = (char_of (87 + m) :: char)"
    using char_of_nat [of "48 + m"] char_of_nat [of "87 + m"] by simp_all
  with m show ?thesis by (auto simp: hex_digit_def)
qed

lemma hex_val_digit: "0 \<le> n \<Longrightarrow> n < 16 \<Longrightarrow> hex_val (hex_digit n) = Some (nat n)"
  by (auto simp: hex_val_def hex_digit_code Let_def)

lemma lower_char_hex_digit: "0 \<le> n \<Longrightarrow> n < 16 \<Longrightarrow> lower_char (hex_digit n) = hex_digit n"
  by (auto simp: lower_char_def hex_digit_code Let_def)

lemma to_lower_hex_digits: "to_lower (hex_digits k n) = hex_digits k n"
  by (induction k n rule: hex_digits.induct)
    (simp_all add: to_lower_append, simp_all add: to_lower_def lower_char_hex_digit)

lemma hex_read_append: "hex_read a (xs @ ys) = hex_read (hex_read a xs) ys"
  by (induction a xs rule: hex_read.induct) simp_all

lemma hex_read_digits: "0 \<le> n \<Longrightarrow> n < 16 ^ k \<Longrightarrow> hex_read 0 (hex_digits k n) = n"
proof (induction k n rule: hex_digits.induct)
  case (2 k n)
  have "n div 16 < 16 ^ k" using 2 by (simp add: div_less_iff_less_mult mult.commute)
  with 2 show ?case by (simp add: hex_read_append hex_val_digit pos_imp_zdiv_nonneg_iff)
qed simp

lemma length_hex_digits [simp]: "length (hex_digits k n) = k"
  by (induction k n rule: hex_digits.induct) simp_all

lemma hex_decode_append:
  "even (length xs) \<Longrightarrow> hex_decode (xs @ ys) =
     (case hex_decode xs of None \<Rightarrow> None | Some a \<Rightarrow> (case hex_decode ys of None \<Rightarrow> None | Some b \<Rightarrow> Some (a @ b)))"
  by (induction xs rule: hex_decode.induct) (auto split: option.splits)

lemma set_bytes_snoc: "set_bytes (bs @ [b]) = 256 * set_bytes bs + int b"
  by (simp add: set_bytes_def)

text \<open>\<open>hex.DecodeString\<close> reads back what the digits of a number say.\<close>

lemma hex_decode_digits:
  "0 \<le> n \<Longrightarrow> n < 16 ^ (2 * k) \<Longrightarrow> \<exists>bs. hex_decode (hex_digits (2 * k) n) = Some bs \<and> length bs = k \<and> set_bytes bs = n"
proof (induction k arbitrary: n)
  case (Suc k)
  have "n div 256 < 16 ^ (2 * k)" using Suc.prems by (simp add: div_less_iff_less_mult mult.commute)
  with Suc.IH [of "n div 256"] Suc.prems(1) obtain bs where bs: "hex_decode (hex_digits (2 * k) (n div 256)) = Some bs"
    "length bs = k" "set_bytes bs = n div 256" by (auto simp: pos_imp_zdiv_nonneg_iff)
  have d: "hex_digits (2 * Suc k) n = hex_digits (2 * k) (n div 256) @ [hex_digit (n div 16 mod 16), hex_digit (n mod 16)]"
    by (simp add: zdiv_zmult2_eq [symmetric])
  have v: "hex_val (hex_digit (n div 16 mod 16)) = Some (nat (n div 16 mod 16))" "hex_val (hex_digit (n mod 16)) = Some (nat (n mod 16))"
    by (simp_all add: hex_val_digit)
  define b where "b = 16 * nat (n div 16 mod 16) + nat (n mod 16)"
  have "int b = n mod 256"
    using zmod_zmult2_eq [of 16 n 16] by (simp add: b_def)
  then have "set_bytes (bs @ [b]) = n" using bs(3) by (simp add: set_bytes_snoc)
  moreover have "hex_decode (hex_digits (2 * Suc k) n) = Some (bs @ [b])"
    unfolding d by (subst hex_decode_append) (simp_all add: bs v b_def)
  ultimately show ?case using bs(2) by auto
qed (simp add: set_bytes_def)

definition plain_eth :: eth_lib where
  "plain_eth = \<lparr>
     eth_Hex = (\<lambda>a. ''0x'' @ hex_digits 40 (uint a)),
     eth_IsHexAddress = (\<lambda>s. let b = trim_prefix s ''0x'' in length b = 40 \<and> list_all (\<lambda>c. hex_val c \<noteq> None) b),
     eth_HexToAddress = (\<lambda>s. of_int (hex_read 0 (trim_prefix s ''0x''))),
     eth_HashHex = (\<lambda>h. ''0x'' @ hex_digits 64 (uint h)),
     eth_HexToHash = (\<lambda>s. of_int (hex_read 0 (trim_prefix s ''0x'')))\<rparr>"

lemma to_lower_0x: "to_lower (''0x'' @ hex_digits k n) = ''0x'' @ hex_digits k n"
  using to_lower_hex_digits [of k n] by (simp add: to_lower_def lower_char_def)

lemma hex_digits_inj: "0 \<le> m \<Longrightarrow> m < 16 ^ k \<Longrightarrow> 0 \<le> n \<Longrightarrow> n < 16 ^ k \<Longrightarrow>
    hex_digits k m = hex_digits k n \<Longrightarrow> m = n"
  by (metis hex_read_digits)

lemma plain_eth_ok: "eth_ok plain_eth"
proof -
  have a: "uint (x :: address) < 16 ^ 40" for x
  proof -
    have "uint x < 2 ^ LENGTH(160)" by (rule unsigned_less)
    then show ?thesis by simp
  qed
  have h: "uint (x :: hash) < 16 ^ 64" for x
  proof -
    have "uint x < 2 ^ LENGTH(256)" by (rule unsigned_less)
    then show ?thesis by simp
  qed
  have "inj (\<lambda>a. to_lower (''0x'' @ hex_digits 40 (uint (a :: address))))"
    unfolding to_lower_0x by (rule injI)
      (use hex_digits_inj [OF unsigned_greater_eq a unsigned_greater_eq a] in \<open>auto simp: word_uint_eq_iff\<close>)
  moreover have "inj (\<lambda>h. to_lower (''0x'' @ hex_digits 64 (uint (h :: hash))))"
    unfolding to_lower_0x by (rule injI)
      (use hex_digits_inj [OF unsigned_greater_eq h unsigned_greater_eq h] in \<open>auto simp: word_uint_eq_iff\<close>)
  ultimately show ?thesis by (simp add: eth_ok_def plain_eth_def has_prefix_def)
qed

text \<open>\<open>strings.ToUpper(strings.TrimPrefix(addr.Hex(), "0x"))\<close>\<close>

definition upper_hex :: "eth_lib \<Rightarrow> address \<Rightarrow> string" where
  "upper_hex E a = to_upper (trim_prefix (eth_Hex E a) ''0x'')"

end
