(* ===== verification/Pricer.thy ===== *)
theory Pricer
  imports Float64 Eth
begin

text \<open>
  The interface \<open>pricing.Pricer\<close> of \<open>internal/dex/pricing/graph_pricer.go\<close>: the token and
  result records, the four operations as a record, and the contract the Uniswap connectors rely on
  as a locale. The graph implementation is in \<open>Graph_Pricer\<close>.
\<close>

record PToken =
  pt_Address :: address
  pt_Symbol :: string
  pt_Decimals :: int

record Result =
  r_Price :: f64
  r_Route :: "string list"
  r_Weight :: f64
  r_UpdatedAt :: time

record 'p Pricer =
  pr_RegisterToken :: "PToken \<Rightarrow> 'p \<Rightarrow> 'p"
  pr_RegisterStable :: "PToken \<Rightarrow> 'p \<Rightarrow> 'p"
  pr_UpdatePair :: "PToken \<Rightarrow> PToken \<Rightarrow> f64 \<Rightarrow> f64 \<Rightarrow> time \<Rightarrow> 'p \<Rightarrow> 'p"
  pr_ResolveUSD :: "PToken \<Rightarrow> 'p \<Rightarrow> Result \<times> bool"

text \<open>What goes on the shared channel (\<open>pkg/protobuf/arbitrage.pb.go\<close>).\<close>

record MarketData =
  md_Exchange :: string
  md_Symbol :: string
  md_Price :: f64
  md_Timestamp :: int

text \<open>The calls that change a pricer, as data, so that a history of calls is a list.\<close>

datatype pricer_op =
    OpToken PToken | OpStable PToken | OpPair PToken PToken f64 f64 time

primrec run_op :: "'p Pricer \<Rightarrow> pricer_op \<Rightarrow> 'p \<Rightarrow> 'p" where
  "run_op P (OpToken t) = pr_RegisterToken P t"
| "run_op P (OpStable t) = pr_RegisterStable P t"
| "run_op P (OpPair a b p w ts) = pr_UpdatePair P a b p w ts"

text \<open>
  The contract: every operation keeps the pricer's invariant; a route that is found has a positive
  finite price; a token registered as a stable anchor stays one and is worth exactly one dollar.
\<close>

locale usd_pricer =
  fixes P :: "'p Pricer" and inv :: "'p \<Rightarrow> bool" and anchor :: "'p \<Rightarrow> address \<Rightarrow> bool"
  assumes inv_RegisterToken: "inv p \<Longrightarrow> inv (pr_RegisterToken P t p)"
    and inv_RegisterStable: "inv p \<Longrightarrow> inv (pr_RegisterStable P t p)"
    and inv_UpdatePair: "inv p \<Longrightarrow> inv (pr_UpdatePair P a b pr w ts p)"
    and anchor_RegisterToken: "anchor p x \<Longrightarrow> anchor (pr_RegisterToken P t p) x"
    and anchor_RegisterStable: "anchor p x \<Longrightarrow> anchor (pr_RegisterStable P t p) x"
    and anchor_UpdatePair: "anchor p x \<Longrightarrow> anchor (pr_UpdatePair P a b pr w ts p) x"
    and anchor_new: "inv p \<Longrightarrow> pt_Address t \<noteq> 0 \<Longrightarrow> anchor (pr_RegisterStable P t p) (pt_Address t)"
    and resolve_pos: "inv p \<Longrightarrow> pr_ResolveUSD P t p = (r, True) \<Longrightarrow> pos_fin (r_Price r)"
    and resolve_anchor: "inv p \<Longrightarrow> anchor p (pt_Address t) \<Longrightarrow>
           \<exists>r. pr_ResolveUSD P t p = (r, True) \<and> r_Price r = 1"
begin

lemmas inv_ops = inv_RegisterToken inv_RegisterStable inv_UpdatePair
lemmas anchor_ops = anchor_RegisterToken anchor_RegisterStable anchor_UpdatePair

lemma inv_run: "inv p \<Longrightarrow> inv (fold (run_op P) ops p)"
proof (induction ops arbitrary: p)
  case (Cons x ops)
  then show ?case by (cases x) (simp_all add: inv_ops)
qed simp

lemma anchor_run: "anchor p x \<Longrightarrow> anchor (fold (run_op P) ops p) x"
proof (induction ops arbitrary: p)
  case (Cons y ops)
  then show ?case by (cases y) (simp_all add: anchor_ops)
qed simp

lemma anchor_run_price:
  assumes "inv p" and "anchor p (pt_Address t)"
  shows "\<exists>r. pr_ResolveUSD P t (fold (run_op P) ops p) = (r, True) \<and> r_Price r = 1"
  using assms by (intro resolve_anchor inv_run anchor_run)

end

text \<open>Messages that consumers may rely on: a named exchange and symbol, a usable price.\<close>

definition md_ok :: "MarketData \<Rightarrow> bool" where
  "md_ok m \<longleftrightarrow> md_Exchange m \<noteq> [] \<and> md_Symbol m \<noteq> [] \<and> pos_fin (md_Price m)"

end
