(* ===== verification/Exchange.thy ===== *)
theory Exchange
  imports Util Pricer
begin

text \<open>
  \<open>internal/exchange\<close>: the read loops of the four exchange clients (\<open>bybit.go\<close>, \<open>gateio.go\<close>,
  \<open>bitget.go\<close>, \<open>okx.go\<close>), their subscription messages, and the websocket hub (\<open>connector.go\<close>).
  A frame arrives with the result of its JSON decoding, the time at which it is handled and whether a
  consumer waits on the unbuffered output channel at that moment; \<open>parse_float\<close> is
  \<open>strconv.ParseFloat(s, 64)\<close>, \<open>None\<close> for its error.
\<close>

subsection \<open>Frames to market data\<close>

type_synonym parse_float = "string \<Rightarrow> f64 option"

definition cex_data :: "string \<Rightarrow> string \<Rightarrow> f64 \<Rightarrow> time \<Rightarrow> MarketData" where
  "cex_data exchangeName symbol price now =
     \<lparr>md_Exchange = to_lower exchangeName, md_Symbol = symbol, md_Price = price, md_Timestamp = unix_sec now\<rparr>"

record bybitData =
  bd_Symbol :: string
  bd_LastPrice :: string

record bybitMsg =
  bm_Topic :: string
  bm_Data :: "bybitData option"

definition bybit_frame :: "parse_float \<Rightarrow> string \<Rightarrow> time \<Rightarrow> bybitMsg \<Rightarrow> MarketData option" where
  "bybit_frame pf exchangeName now m =
     (let messageSymbol = (if length (bm_Topic m) > 8 \<and> take 8 (bm_Topic m) = ''tickers.'' then drop 8 (bm_Topic m) else []);
          parsed = (case bm_Data m of None \<Rightarrow> Some 0
            | Some d \<Rightarrow> if bd_LastPrice d \<noteq> [] then pf (bd_LastPrice d) else Some 0)
      in case parsed of None \<Rightarrow> None
         | Some price \<Rightarrow>
             if f64_eq price 0 \<or> messageSymbol = [] then None
             else Some (cex_data exchangeName messageSymbol price now))"

text \<open>The raw \<open>last\<close> of Gate: its length, and what decoding it as a string and as a number gives.\<close>

record gateLast =
  gl_len :: nat
  gl_string :: "string option"
  gl_number :: "f64 option"

record gateResult =
  gr_CurrencyPair :: string
  gr_Last :: gateLast

record gateMsg =
  gm_Channel :: string
  gm_Event :: string
  gm_Result :: "gateResult option"

definition gate_last :: "(f64 \<Rightarrow> string) \<Rightarrow> gateLast \<Rightarrow> string" where
  "gate_last format l =
     (if gl_len l = 0 then []
      else (case gl_string l of Some s \<Rightarrow> s
        | None \<Rightarrow> (case gl_number l of Some f \<Rightarrow> format f | None \<Rightarrow> [])))"

definition gate_frame :: "parse_float \<Rightarrow> (f64 \<Rightarrow> string) \<Rightarrow> string \<Rightarrow> time \<Rightarrow> gateMsg \<Rightarrow> MarketData option" where
  "gate_frame pf format exchangeName now m =
     (if gm_Channel m \<noteq> ''spot.tickers'' then None
      else (case gm_Result m of None \<Rightarrow> None
        | Some r \<Rightarrow>
            if gr_CurrencyPair r = [] then None
            else (let lastStr = gate_last format (gr_Last r) in
              if lastStr = [] then None
              else (case pf lastStr of None \<Rightarrow> None
                | Some price \<Rightarrow> Some (cex_data exchangeName (gr_CurrencyPair r) price now)))))"

record bitgetArg =
  ba_Channel :: string
  ba_InstType :: string
  ba_InstId :: string

record bitgetData =
  bg_InstId :: string
  bg_LastPr :: string

record bitgetMsg =
  bt_Arg :: "bitgetArg option"
  bt_Data :: "bitgetData list"
  bt_Code :: int
  bt_Event :: string

text \<open>The two counters of error codes that a side routine logs and resets.\<close>

record bitgetErrors =
  agg30006 :: int
  agg30001 :: int

definition bitget_frame ::
    "parse_float \<Rightarrow> string \<Rightarrow> time \<Rightarrow> bitgetMsg \<Rightarrow> bitgetErrors \<Rightarrow> MarketData option \<times> bitgetErrors" where
  "bitget_frame pf exchangeName now m agg =
     (if bt_Code m \<noteq> 0 \<or> bt_Event m = ''error'' then
        (None, if bt_Code m = 30006 then agg\<lparr>agg30006 := agg30006 agg + 1\<rparr>
               else if bt_Code m = 30001 then agg\<lparr>agg30001 := agg30001 agg + 1\<rparr> else agg)
      else (case bt_Arg m of None \<Rightarrow> (None, agg)
        | Some a \<Rightarrow>
            if ba_Channel a \<noteq> ''ticker'' \<or> to_upper (ba_InstType a) \<noteq> ''SPOT'' then (None, agg)
            else (case bt_Data m of [] \<Rightarrow> (None, agg)
              | d # _ \<Rightarrow>
                  if bg_LastPr d = [] \<or> bg_InstId d = [] then (None, agg)
                  else (case pf (bg_LastPr d) of None \<Rightarrow> (None, agg)
                    | Some price \<Rightarrow> (Some (cex_data exchangeName (bg_InstId d) price now), agg)))))"

record okxArg =
  oa_Channel :: string
  oa_InstId :: string

record okxData =
  od_InstId :: string
  od_Last :: string
  od_Ts :: string

record okxMsg =
  om_Arg :: "okxArg option"
  om_Data :: "okxData list"
  om_Event :: string
  om_Code :: string

definition okx_frame :: "parse_float \<Rightarrow> string \<Rightarrow> time \<Rightarrow> okxMsg \<Rightarrow> MarketData option" where
  "okx_frame pf exchangeName now m =
     (if om_Event m = ''error'' \<or> (om_Code m \<noteq> [] \<and> om_Code m \<noteq> ''0'') then None
      else (case om_Arg m of None \<Rightarrow> None
        | Some a \<Rightarrow>
            if oa_Channel a \<noteq> ''tickers'' \<or> om_Data m = [] then None
            else (let d = hd (om_Data m) in
              if od_InstId d = [] \<or> od_Last d = [] then None
              else (case pf (od_Last d) of None \<Rightarrow> None
                | Some price \<Rightarrow> Some (cex_data exchangeName (od_InstId d) price now)))))"

subsection \<open>The read loop\<close>

text \<open>
  A read gives a frame, or \<open>None\<close> when the socket fails: then the loop closes the output channel and
  ends. A message for which no consumer waits is dropped by the \<open>default\<close> branch of the select.
\<close>

record 'm ws_frame =
  wf_msg :: "'m option"
  wf_now :: time
  wf_ready :: bool

record 'a read_state =
  rs_out :: "MarketData list"
  rs_closed :: bool
  rs_aux :: 'a

definition read_step ::
    "(time \<Rightarrow> 'm \<Rightarrow> 'a \<Rightarrow> MarketData option \<times> 'a) \<Rightarrow> 'm ws_frame \<Rightarrow> 'a read_state \<Rightarrow> 'a read_state" where
  "read_step handle f st =
     (case wf_msg f of None \<Rightarrow> st
      | Some m \<Rightarrow> (case handle (wf_now f) m (rs_aux st) of
            (None, aux) \<Rightarrow> st\<lparr>rs_aux := aux\<rparr>
          | (Some md, aux) \<Rightarrow>
              st\<lparr>rs_aux := aux, rs_out := (if wf_ready f then rs_out st @ [md] else rs_out st)\<rparr>))"

fun read_loop ::
    "(time \<Rightarrow> 'm \<Rightarrow> 'a \<Rightarrow> MarketData option \<times> 'a) \<Rightarrow> 'm ws_frame option list \<Rightarrow> 'a read_state \<Rightarrow> 'a read_state" where
  "read_loop handle [] st = st"
| "read_loop handle (None # rest) st = st\<lparr>rs_closed := True\<rparr>"
| "read_loop handle (Some f # rest) st = read_loop handle rest (read_step handle f st)"

definition client_start :: "'a \<Rightarrow> 'a read_state" where
  "client_start aux = \<lparr>rs_out = [], rs_closed = False, rs_aux = aux\<rparr>"

definition plain_handler :: "(time \<Rightarrow> 'm \<Rightarrow> MarketData option) \<Rightarrow> time \<Rightarrow> 'm \<Rightarrow> unit \<Rightarrow> MarketData option \<times> unit" where
  "plain_handler h now m u = (h now m, u)"

definition Bybit_ReadLoop :: "parse_float \<Rightarrow> string \<Rightarrow> bybitMsg ws_frame option list \<Rightarrow> unit read_state" where
  "Bybit_ReadLoop pf name reads = read_loop (plain_handler (bybit_frame pf name)) reads (client_start ())"

definition Gate_ReadLoop ::
    "parse_float \<Rightarrow> (f64 \<Rightarrow> string) \<Rightarrow> string \<Rightarrow> gateMsg ws_frame option list \<Rightarrow> unit read_state" where
  "Gate_ReadLoop pf format name reads = read_loop (plain_handler (gate_frame pf format name)) reads (client_start ())"

definition Bitget_ReadLoop :: "parse_float \<Rightarrow> string \<Rightarrow> bitgetMsg ws_frame option list \<Rightarrow> bitgetErrors read_state" where
  "Bitget_ReadLoop pf name reads =
     read_loop (bitget_frame pf name) reads (client_start \<lparr>agg30006 = 0, agg30001 = 0\<rparr>)"

definition Okx_ReadLoop :: "parse_float \<Rightarrow> string \<Rightarrow> okxMsg ws_frame option list \<Rightarrow> unit read_state" where
  "Okx_ReadLoop pf name reads = read_loop (plain_handler (okx_frame pf name)) reads (client_start ())"

subsection \<open>Subscriptions and pings\<close>

datatype subscription =
    BybitTickers string | GateTickers time string
  | BitgetTickers "(string \<times> string \<times> string) list" | OkxTickers "(string \<times> string) list"

definition Bybit_Subscribe :: "string \<Rightarrow> subscription" where
  "Bybit_Subscribe symbol = BybitTickers (''tickers.'' @ symbol)"

definition Gate_Subscribe :: "time \<Rightarrow> string \<Rightarrow> subscription" where
  "Gate_Subscribe now gateSymbol = GateTickers (unix_sec now) gateSymbol"

definition Bitget_SubscribeBatch :: "string list \<Rightarrow> subscription option" where
  "Bitget_SubscribeBatch instIds =
     (if instIds = [] then None else Some (BitgetTickers (map (\<lambda>i. (''ticker'', ''SPOT'', i)) instIds)))"

definition Okx_SubscribeBatch :: "string list \<Rightarrow> subscription option" where
  "Okx_SubscribeBatch instIds =
     (if instIds = [] then None else Some (OkxTickers (map (\<lambda>i. (''tickers'', i)) instIds)))"

definition keepalive_interval :: "int \<Rightarrow> int" where
  "keepalive_interval interval = (if interval \<le> 0 then 30 * 10 ^ 9 else interval)"

subsection \<open>The hub (\<open>connector.go\<close>)\<close>

text \<open>The clients are a set; \<open>write c\<close> says whether the write to client \<open>c\<close> succeeds. The order of the
  range over the map is the list given.\<close>

record 'c hub =
  hub_clients :: "'c set"
  hub_delivered :: "('c \<times> string) list"

definition Hub_Subscribe :: "'c \<Rightarrow> 'c hub \<Rightarrow> 'c hub" where
  "Hub_Subscribe conn h = h\<lparr>hub_clients := insert conn (hub_clients h)\<rparr>"

definition Hub_Unsubscribe :: "'c \<Rightarrow> 'c hub \<Rightarrow> 'c hub" where
  "Hub_Unsubscribe conn h = h\<lparr>hub_clients := hub_clients h - {conn}\<rparr>"

fun hub_range :: "('c \<Rightarrow> bool) \<Rightarrow> string \<Rightarrow> 'c list \<Rightarrow> 'c hub \<Rightarrow> 'c hub" where
  "hub_range write msg [] h = h"
| "hub_range write msg (c # cs) h =
     (if write c then hub_range write msg cs (h\<lparr>hub_delivered := hub_delivered h @ [(c, msg)]\<rparr>)
      else hub_range write msg cs (h\<lparr>hub_clients := hub_clients h - {c}\<rparr>))"

definition Hub_Broadcast :: "('c \<Rightarrow> bool) \<Rightarrow> 'c list \<Rightarrow> string \<Rightarrow> 'c hub \<Rightarrow> 'c hub" where
  "Hub_Broadcast write range_order msg h = hub_range write msg range_order h"

subsection \<open>Lemmas\<close>

lemma read_loop_closed:
  "rs_closed (read_loop handle reads st) \<longleftrightarrow> rs_closed st \<or> None \<in> set reads"
proof (induction handle reads st rule: read_loop.induct)
  case (3 handle f rest st)
  have "rs_closed (read_step handle f st) = rs_closed st"
    by (simp add: read_step_def split: option.splits prod.splits)
  with 3 show ?case by simp
qed auto

lemma read_step_out:
  "rs_out (read_step handle f st) = rs_out st @
     (case wf_msg f of None \<Rightarrow> [] | Some m \<Rightarrow> (case fst (handle (wf_now f) m (rs_aux st)) of
        Some md \<Rightarrow> if wf_ready f then [md] else [] | None \<Rightarrow> []))"
  by (auto simp: read_step_def split: option.splits prod.splits)

lemma read_loop_out_sound:
  assumes "\<And>now m aux md. fst (handle now m aux) = Some md \<Longrightarrow> P md" and "\<forall>md \<in> set (rs_out st). P md"
  shows "\<forall>md \<in> set (rs_out (read_loop handle reads st)). P md"
  using assms(2)
proof (induction reads arbitrary: st)
  case (Cons r reads)
  show ?case
  proof (cases r)
    case (Some f)
    have "\<forall>md \<in> set (rs_out (read_step handle f st)). P md"
      using Cons.prems by (auto simp: read_step_out dest!: assms(1) [OF sym] split: option.splits)
    with Cons.IH Some show ?thesis by simp
  qed (use Cons.prems in simp)
qed simp

lemma fst_plain_handler [simp]: "fst (plain_handler h now m aux) = h now m"
  by (simp add: plain_handler_def)

text \<open>What one frame contributes to the output, for a handler that keeps no counters.\<close>

definition accepted :: "(time \<Rightarrow> 'm \<Rightarrow> MarketData option) \<Rightarrow> 'm ws_frame \<Rightarrow> MarketData list" where
  "accepted h f = (case wf_msg f of None \<Rightarrow> []
     | Some m \<Rightarrow> (case h (wf_now f) m of Some md \<Rightarrow> if wf_ready f then [md] else [] | None \<Rightarrow> []))"

fun before_error :: "'f option list \<Rightarrow> 'f list" where
  "before_error [] = []"
| "before_error (None # rest) = []"
| "before_error (Some f # rest) = f # before_error rest"

lemma read_loop_plain:
  "rs_out (read_loop (plain_handler h) reads st) = rs_out st @ concat (map (accepted h) (before_error reads))"
  by (induction reads arbitrary: st rule: before_error.induct)
    (simp_all add: read_step_out accepted_def split: option.split)


lemma bybit_frame_nonzero:
  "bybit_frame pf name now m = Some md \<Longrightarrow>
     md_Exchange md = to_lower name \<and> md_Symbol md \<noteq> [] \<and> \<not> f64_eq (md_Price md) 0"
  by (auto simp: bybit_frame_def Let_def cex_data_def split: option.splits if_splits)

text \<open>Every message of the Bybit loop has the lower-case exchange name, a symbol and a price that is not
  zero.\<close>

theorem Bybit_ReadLoop_nonzero:
  "\<forall>md \<in> set (rs_out (Bybit_ReadLoop pf name reads)).
     md_Exchange md = to_lower name \<and> md_Symbol md \<noteq> [] \<and> \<not> f64_eq (md_Price md) 0"
  unfolding Bybit_ReadLoop_def
  by (rule read_loop_out_sound)
    (auto simp: client_start_def dest!: bybit_frame_nonzero)

theorem Bybit_ReadLoop_nonzero_witness:
  "\<not> f64_eq (md_Price (hd (rs_out (Bybit_ReadLoop (\<lambda>s. if s = ''1'' then Some 1 else Some 0) ''Bybit''
     [Some \<lparr>wf_msg = Some \<lparr>bm_Topic = ''tickers.BTCUSDT'', bm_Data = Some \<lparr>bd_Symbol = ''BTCUSDT'', bd_LastPrice = ''1''\<rparr>\<rparr>,
        wf_now = 5, wf_ready = True\<rparr>])))) 0"
proof -
  let ?out = "rs_out (Bybit_ReadLoop (\<lambda>s. if s = ''1'' then Some 1 else Some 0) ''Bybit''
     [Some \<lparr>wf_msg = Some \<lparr>bm_Topic = ''tickers.BTCUSDT'', bm_Data = Some \<lparr>bd_Symbol = ''BTCUSDT'', bd_LastPrice = ''1''\<rparr>\<rparr>,
        wf_now = 5, wf_ready = True\<rparr>])"
  have "?out \<noteq> []" by code_simp
  then have "hd ?out \<in> set ?out" by (rule hd_in_set)
  with Bybit_ReadLoop_nonzero show ?thesis by blast
qed

text \<open>Nothing of the kind holds for the other three clients: a price of zero, or NaN when the text of the
  price is that of a NaN, is published as it comes.\<close>

theorem ReadLoop_unchecked_prices:
  assumes "pf ''0'' = Some 0" and "pf ''NaN'' = Some NaN"
  shows "rs_out (Okx_ReadLoop pf ''OKX'' [Some \<lparr>wf_msg = Some \<lparr>om_Arg = Some \<lparr>oa_Channel = ''tickers'', oa_InstId = []\<rparr>,
        om_Data = [\<lparr>od_InstId = ''BTC-USDT'', od_Last = ''0'', od_Ts = []\<rparr>], om_Event = [], om_Code = []\<rparr>, wf_now = unix_epoch, wf_ready = True\<rparr>])
      = [\<lparr>md_Exchange = ''okx'', md_Symbol = ''BTC-USDT'', md_Price = 0, md_Timestamp = 0\<rparr>]
    \<and> rs_out (Bitget_ReadLoop pf ''Bitget'' [Some \<lparr>wf_msg = Some \<lparr>bt_Arg = Some \<lparr>ba_Channel = ''ticker'', ba_InstType = ''SPOT'', ba_InstId = []\<rparr>,
        bt_Data = [\<lparr>bg_InstId = ''BTCUSDT'', bg_LastPr = ''NaN''\<rparr>], bt_Code = 0, bt_Event = []\<rparr>, wf_now = unix_epoch, wf_ready = True\<rparr>])
      = [\<lparr>md_Exchange = ''bitget'', md_Symbol = ''BTCUSDT'', md_Price = NaN, md_Timestamp = 0\<rparr>]"
proof -
  have "to_lower ''OKX'' = ''okx''" "to_lower ''Bitget'' = ''bitget''" "to_upper ''SPOT'' = ''SPOT''" by code_simp+
  with assms show ?thesis
    by (simp add: Okx_ReadLoop_def Bitget_ReadLoop_def read_step_def plain_handler_def client_start_def okx_frame_def
        bitget_frame_def cex_data_def unix_sec_def)
qed

theorem ReadLoop_unchecked_prices_witness:
  "rs_out (Okx_ReadLoop (\<lambda>s. if s = ''0'' then Some 0 else if s = ''NaN'' then Some NaN else None) ''OKX''
     [Some \<lparr>wf_msg = Some \<lparr>om_Arg = Some \<lparr>oa_Channel = ''tickers'', oa_InstId = []\<rparr>,
        om_Data = [\<lparr>od_InstId = ''BTC-USDT'', od_Last = ''0'', od_Ts = []\<rparr>], om_Event = [], om_Code = []\<rparr>, wf_now = unix_epoch, wf_ready = True\<rparr>]) \<noteq> []"
  using ReadLoop_unchecked_prices [of "\<lambda>s. if s = ''0'' then Some 0 else if s = ''NaN'' then Some NaN else None"] by simp

lemma hub_range_result:
  "distinct cs \<Longrightarrow> hub_clients (hub_range write msg cs h) = hub_clients h - {c \<in> set cs. \<not> write c} \<and>
     hub_delivered (hub_range write msg cs h) = hub_delivered h @ map (\<lambda>c. (c, msg)) (filter write cs)"
  by (induction "write" msg cs h rule: hub_range.induct) auto

text \<open>A broadcast delivers the message once to every client whose write succeeds, whatever the order of
  the range, and drops exactly the clients whose write fails.\<close>

theorem Hub_Broadcast_delivers:
  assumes "distinct order" and "set order = hub_clients h"
  shows "hub_clients (Hub_Broadcast write order msg h) = {c \<in> hub_clients h. write c} \<and>
    hub_delivered (Hub_Broadcast write order msg h) = hub_delivered h @ map (\<lambda>c. (c, msg)) (filter write order)"
  using hub_range_result [OF assms(1), of "write" msg h] assms(2) by (auto simp: Hub_Broadcast_def)

theorem Hub_Broadcast_delivers_witness:
  "hub_clients (Hub_Broadcast (\<lambda>c. c \<noteq> (2 :: nat)) [1, 2, 3] ''m'' \<lparr>hub_clients = {1, 2, 3}, hub_delivered = []\<rparr>) = {1, 3}"
proof -
  have "{c \<in> {1, 2, 3}. c \<noteq> (2 :: nat)} = {1, 3}" by auto
  then show ?thesis
    using Hub_Broadcast_delivers [of "[1, 2, 3 :: nat]" "\<lparr>hub_clients = {1, 2, 3}, hub_delivered = []\<rparr>" "\<lambda>c. c \<noteq> 2" "''m''"]
    by simp
qed

end
