(* ===== verification/Config.thy ===== *)
theory Config
  imports Prelude
begin

text \<open>
  \<open>internal/config/config.go\<close>: the configuration records, the resolution of paths through the
  environment, the defaults and the validation. The environment is the function
  \<open>os.Getenv\<close>; reading the file and decoding its YAML are parameters of \<open>LoadConfig\<close>. Where the
  code ends the process with \<open>log.Fatalf\<close>, the model returns the error.
\<close>

subsection \<open>\<open>os.ExpandEnv\<close>\<close>

definition shell_special :: "char \<Rightarrow> bool" where
  "shell_special c \<longleftrightarrow> c \<in> set ''*#$@!?-0123456789''"

definition shell_alnum :: "char \<Rightarrow> bool" where
  "shell_alnum c \<longleftrightarrow> (let n = (of_char c :: nat) in
     c = CHR ''_'' \<or> 48 \<le> n \<and> n \<le> 57 \<or> 97 \<le> n \<and> n \<le> 122 \<or> 65 \<le> n \<and> n \<le> 90)"

text \<open>The variable name at the head of the text behind a dollar sign, and how much of it to skip.\<close>

definition shell_name :: "string \<Rightarrow> string \<times> nat" where
  "shell_name s = (case s of [] \<Rightarrow> ([], 0)
     | c # t \<Rightarrow>
         if c = CHR ''{'' then
           (if 2 \<le> length t \<and> shell_special (t ! 0) \<and> t ! 1 = CHR ''}'' then ([t ! 0], 3)
            else (let name = takeWhile (\<lambda>x. x \<noteq> CHR ''}'') t in
                  if length name = length t then ([], 1)
                  else if name = [] then ([], 2) else (name, length name + 2)))
         else if shell_special c then ([c], 1)
         else (let name = takeWhile shell_alnum s in (name, length name)))"

fun expand_env :: "(string \<Rightarrow> string) \<Rightarrow> string \<Rightarrow> string" where
  "expand_env getenv [] = []"
| "expand_env getenv [c] = [c]"
| "expand_env getenv (c # d # s) =
     (if c \<noteq> CHR ''$'' then c # expand_env getenv (d # s)
      else (let (name, w) = shell_name (d # s) in
            (if name = [] then (if w > 0 then [] else [c]) else getenv name)
            @ expand_env getenv (drop w (d # s))))"

subsection \<open>Records\<close>

record FileSource =
  fs_File :: string
  fs_Env :: string

record PoolsSource =
  ps_File :: string
  ps_Env :: string
  ps_GeckoDex :: string
  ps_GeckoNetwork :: string
  ps_IncludeStable :: bool
  ps_WantedPairs :: "string list"

record RedisConfig =
  rc_Address :: string
  rc_Host :: string
  rc_Port :: int
  rc_Password :: string

record ExchangeConfig =
  xc_Name :: string
  xc_Symbols :: "string list"
  xc_SymbolsFile :: string

record DexPoolConfig =
  dp_Address :: string
  dp_PairName :: string
  dp_Token0Symbol :: string
  dp_Token1Symbol :: string
  dp_Token0Address :: string
  dp_Token1Address :: string
  dp_Token0Decimals :: "8 word"
  dp_Token1Decimals :: "8 word"
  dp_BaseIsToken0 :: bool
  dp_CanonicalPair :: string

record DexConfig =
  dc_Name :: string
  dc_Network :: string
  dc_WSURL :: string
  dc_HTTPURL :: string
  dc_SubscribeBatch :: int
  dc_PingInterval :: int
  dc_PoolManager :: string
  dc_Pools :: "DexPoolConfig list"
  dc_PoolsFile :: string
  dc_PoolsSource :: PoolsSource
  dc_AssetsSource :: FileSource
  dc_AssetsPath :: string
  dc_MaxMetaWorkers :: int
  dc_SwapOnly :: bool
  dc_LogAllEvents :: bool
  dc_StopOnAckError :: bool
  dc_WantedPairs :: "string list"
  dc_WantedPairsOnly :: bool
  dc_Once :: bool

record Config =
  cf_Exchange :: string
  cf_Exchanges :: "string list"
  cf_Symbol :: string
  cf_DefaultSymbolsFile :: string
  cf_SharedPools :: PoolsSource
  cf_AssetsRegistry :: FileSource
  cf_ExchangeConfigs :: "ExchangeConfig list"
  cf_Redis :: RedisConfig
  cf_DataChannelBuffer :: int
  cf_RedisWorkers :: int
  cf_RedisPipelineSize :: int
  cf_SubscribeBatchSize :: int
  cf_SubscribeBatchPauseMs :: int
  cf_MetricsPeriodSec :: int
  cf_BitgetSubscribeBatchSize :: int
  cf_BitgetSubscribePauseMs :: int
  cf_BitgetPingIntervalSec :: int
  cf_DexConfigs :: "DexConfig list"

datatype config_error =
    NameRequired | NetworkRequired | WsUrlRequired | SubscribeBatchRange | PingIntervalRange
  | WantedPairsRequired | HttpUrlRequired | PoolManagerRequired | MetaWorkersRange | PoolsRequired
  | DexConfigError string config_error | AssetsPathRequired string | AssetsRegistryRequired
  | ReadConfigError | DecodeConfigError

definition minSubscribeBatch :: int where "minSubscribeBatch = 1"
definition maxSubscribeBatch :: int where "maxSubscribeBatch = 500"
definition minPingInterval :: int where "minPingInterval = 5"
definition maxPingInterval :: int where "maxPingInterval = 120"
definition minMetaWorkers :: int where "minMetaWorkers = 1"
definition maxMetaWorkers :: int where "maxMetaWorkers = 64"

lemmas config_bounds = minSubscribeBatch_def maxSubscribeBatch_def minPingInterval_def maxPingInterval_def
  minMetaWorkers_def maxMetaWorkers_def

subsection \<open>Paths\<close>

definition FileSource_Resolve :: "(string \<Rightarrow> string) \<Rightarrow> FileSource \<Rightarrow> string" where
  "FileSource_Resolve getenv fs =
     (let env = trim_space (fs_Env fs); val = (if env \<noteq> [] then trim_space (getenv env) else []) in
      if val \<noteq> [] then val
      else if fs_File fs = [] then []
      else trim_space (expand_env getenv (fs_File fs)))"

definition PoolsSource_Resolve :: "(string \<Rightarrow> string) \<Rightarrow> PoolsSource \<Rightarrow> string" where
  "PoolsSource_Resolve getenv ps = FileSource_Resolve getenv \<lparr>fs_File = ps_File ps, fs_Env = ps_Env ps\<rparr>"

definition ResolvePoolsPath :: "(string \<Rightarrow> string) \<Rightarrow> DexConfig \<Rightarrow> string \<Rightarrow> string" where
  "ResolvePoolsPath getenv d shared =
     (let path = trim_space (PoolsSource_Resolve getenv (dc_PoolsSource d)) in
      if path \<noteq> [] then path
      else (let path = trim_space (expand_env getenv (dc_PoolsFile d)) in
            if path \<noteq> [] then path else trim_space shared))"

definition ResolveAssetsPath :: "(string \<Rightarrow> string) \<Rightarrow> DexConfig \<Rightarrow> string \<Rightarrow> string" where
  "ResolveAssetsPath getenv d shared =
     (let path = trim_space (FileSource_Resolve getenv (dc_AssetsSource d)) in
      if path \<noteq> [] then path else trim_space shared)"

definition ResolveAssetsRegistryPath :: "(string \<Rightarrow> string) \<Rightarrow> Config \<Rightarrow> string" where
  "ResolveAssetsRegistryPath getenv c = trim_space (FileSource_Resolve getenv (cf_AssetsRegistry c))"

fun first_dex_path :: "(string \<Rightarrow> string) \<Rightarrow> DexConfig list \<Rightarrow> string" where
  "first_dex_path getenv [] = []"
| "first_dex_path getenv (dex # rest) =
     (let path = trim_space (PoolsSource_Resolve getenv (dc_PoolsSource dex)) in
      if path \<noteq> [] then path
      else (let path = trim_space (expand_env getenv (dc_PoolsFile dex)) in
            if path \<noteq> [] then path else first_dex_path getenv rest))"

definition ResolveSharedPoolsPath :: "(string \<Rightarrow> string) \<Rightarrow> Config \<Rightarrow> string" where
  "ResolveSharedPoolsPath getenv c =
     (let path = trim_space (PoolsSource_Resolve getenv (cf_SharedPools c)) in
      if path \<noteq> [] then path
      else (let path = trim_space (expand_env getenv (cf_DefaultSymbolsFile c)) in
            if path \<noteq> [] then path else first_dex_path getenv (cf_DexConfigs c)))"

definition RedisAddress :: "RedisConfig \<Rightarrow> string" where
  "RedisAddress r =
     (if rc_Address r \<noteq> [] then rc_Address r
      else if rc_Host r \<noteq> [] \<and> rc_Port r \<noteq> 0 then rc_Host r @ '':'' @ show_int (rc_Port r)
      else ''localhost:6379'')"

subsection \<open>Defaults and validation\<close>

definition applyDefaults :: "DexConfig \<Rightarrow> DexConfig" where
  "applyDefaults d =
     (let d = (if dc_SubscribeBatch d \<le> 0 then d\<lparr>dc_SubscribeBatch := 150\<rparr> else d);
          d = (if dc_PingInterval d \<le> 0 then d\<lparr>dc_PingInterval := 25\<rparr> else d)
      in if equal_fold (dc_Name d) ''uniswap_v4'' \<and> dc_MaxMetaWorkers d \<le> 0
         then d\<lparr>dc_MaxMetaWorkers := 4\<rparr> else d)"

definition DexConfig_Validate :: "(string \<Rightarrow> string) \<Rightarrow> DexConfig \<Rightarrow> (config_error, unit) result" where
  "DexConfig_Validate getenv d =
     (let name = trim_space (dc_Name d) in
      if name = [] then Inl NameRequired
      else if trim_space (dc_Network d) = [] then Inl NetworkRequired
      else if trim_space (dc_WSURL d) = [] then Inl WsUrlRequired
      else if dc_SubscribeBatch d < minSubscribeBatch \<or> dc_SubscribeBatch d > maxSubscribeBatch
        then Inl SubscribeBatchRange
      else if dc_PingInterval d < minPingInterval \<or> dc_PingInterval d > maxPingInterval
        then Inl PingIntervalRange
      else if dc_WantedPairsOnly d \<and> dc_WantedPairs d = [] then Inl WantedPairsRequired
      else if equal_fold name ''uniswap_v4'' then
        (if trim_space (dc_HTTPURL d) = [] then Inl HttpUrlRequired
         else if trim_space (dc_PoolManager d) = [] then Inl PoolManagerRequired
         else if dc_MaxMetaWorkers d < minMetaWorkers \<or> dc_MaxMetaWorkers d > maxMetaWorkers
           then Inl MetaWorkersRange
         else (let poolsPath = trim_space (PoolsSource_Resolve getenv (dc_PoolsSource d));
                   poolsPath = (if poolsPath = [] then trim_space (expand_env getenv (dc_PoolsFile d)) else poolsPath)
               in if dc_Pools d = [] \<and> poolsPath = [] then Inl PoolsRequired else Inr ()))
      else Inr ())"

text \<open>The loop of \<open>Config.Validate\<close> over the DEX sections; it returns whether one of them is Uniswap V4.\<close>

fun validate_dexes :: "(string \<Rightarrow> string) \<Rightarrow> string \<Rightarrow> nat \<Rightarrow> bool \<Rightarrow> DexConfig list \<Rightarrow> (config_error, bool) result" where
  "validate_dexes getenv globalAssetsPath i requiresV4 [] = Inr requiresV4"
| "validate_dexes getenv globalAssetsPath i requiresV4 (d # ds) =
     (case DexConfig_Validate getenv d of
        Inl e \<Rightarrow> (let name = trim_space (dc_Name d) in
                 Inl (DexConfigError (if name = [] then ''index '' @ show_nat i else name) e))
      | Inr _ \<Rightarrow>
          if to_lower (trim_space (dc_Name d)) = ''uniswap_v4'' then
            (if trim_space (dc_AssetsPath d) = [] \<and> globalAssetsPath = []
             then Inl (AssetsPathRequired (dc_Name d))
             else validate_dexes getenv globalAssetsPath (Suc i) True ds)
          else validate_dexes getenv globalAssetsPath (Suc i) requiresV4 ds)"

definition Config_Validate :: "(string \<Rightarrow> string) \<Rightarrow> Config \<Rightarrow> (config_error, unit) result" where
  "Config_Validate getenv c =
     (let globalAssetsPath = trim_space (ResolveAssetsRegistryPath getenv c) in
      bind_res (validate_dexes getenv globalAssetsPath 0 False (cf_DexConfigs c)) (\<lambda>requiresV4.
        if requiresV4 \<and> globalAssetsPath = [] then Inl AssetsRegistryRequired else Inr ()))"

definition prepare_dex :: "(string \<Rightarrow> string) \<Rightarrow> string \<Rightarrow> DexConfig \<Rightarrow> DexConfig" where
  "prepare_dex getenv sharedAssets d =
     (let d = applyDefaults (d\<lparr>dc_WSURL := trim_space (expand_env getenv (dc_WSURL d)),
            dc_HTTPURL := trim_space (expand_env getenv (dc_HTTPURL d)),
            dc_PoolManager := trim_space (expand_env getenv (dc_PoolManager d))\<rparr>)
      in d\<lparr>dc_AssetsPath := ResolveAssetsPath getenv d sharedAssets\<rparr>)"

definition default_to :: "int \<Rightarrow> int \<Rightarrow> int" where
  "default_to d v = (if v \<le> 0 then d else v)"

definition config_defaults :: "(string \<Rightarrow> string) \<Rightarrow> Config \<Rightarrow> Config" where
  "config_defaults getenv c = c\<lparr>
     cf_DataChannelBuffer := default_to 8192 (cf_DataChannelBuffer c),
     cf_RedisWorkers := default_to 8 (cf_RedisWorkers c),
     cf_RedisPipelineSize := default_to 300 (cf_RedisPipelineSize c),
     cf_SubscribeBatchSize := default_to 100 (cf_SubscribeBatchSize c),
     cf_SubscribeBatchPauseMs := default_to 150 (cf_SubscribeBatchPauseMs c),
     cf_MetricsPeriodSec := default_to 5 (cf_MetricsPeriodSec c),
     cf_BitgetSubscribeBatchSize := default_to 30 (cf_BitgetSubscribeBatchSize c),
     cf_BitgetSubscribePauseMs := default_to 700 (cf_BitgetSubscribePauseMs c),
     cf_BitgetPingIntervalSec := default_to 25 (cf_BitgetPingIntervalSec c),
     cf_DexConfigs := map (prepare_dex getenv (trim_space (FileSource_Resolve getenv (cf_AssetsRegistry c))))
       (cf_DexConfigs c)\<rparr>"

definition LoadConfig ::
    "(string \<Rightarrow> string) \<Rightarrow> (string \<Rightarrow> string option) \<Rightarrow> (string \<Rightarrow> Config option) \<Rightarrow> string \<Rightarrow> (config_error, Config) result" where
  "LoadConfig getenv read_file decode path =
     (case read_file path of None \<Rightarrow> Inl ReadConfigError
      | Some data \<Rightarrow> (case decode data of None \<Rightarrow> Inl DecodeConfigError
          | Some c \<Rightarrow> (let config = config_defaults getenv c in
              bind_res (Config_Validate getenv config) (\<lambda>_. Inr config))))"

subsection \<open>Lemmas\<close>

lemma Resolve_trimmed [simp]: "trimmed (FileSource_Resolve getenv fs)" "trimmed (PoolsSource_Resolve getenv ps)"
  by (simp_all add: FileSource_Resolve_def PoolsSource_Resolve_def Let_def) (simp_all add: trimmed_def)

lemma ResolveAssetsPath_empty_iff:
  "ResolveAssetsPath getenv d shared = [] \<longleftrightarrow> FileSource_Resolve getenv (dc_AssetsSource d) = [] \<and> trim_space shared = []"
  by (simp add: ResolveAssetsPath_def Let_def trimmed_fix)

definition is_v4 :: "DexConfig \<Rightarrow> bool" where
  "is_v4 d \<longleftrightarrow> equal_fold (trim_space (dc_Name d)) ''uniswap_v4''"

lemma lower_v4: "to_lower ''uniswap_v4'' = ''uniswap_v4''"
  by code_simp

text \<open>What a section that passes validation satisfies.\<close>

definition dex_valid :: "(string \<Rightarrow> string) \<Rightarrow> DexConfig \<Rightarrow> bool" where
  "dex_valid getenv d \<longleftrightarrow> trim_space (dc_Name d) \<noteq> [] \<and> trim_space (dc_Network d) \<noteq> [] \<and> trim_space (dc_WSURL d) \<noteq> [] \<and>
     1 \<le> dc_SubscribeBatch d \<and> dc_SubscribeBatch d \<le> 500 \<and> 5 \<le> dc_PingInterval d \<and> dc_PingInterval d \<le> 120 \<and>
     (dc_WantedPairsOnly d \<longrightarrow> dc_WantedPairs d \<noteq> []) \<and>
     (is_v4 d \<longrightarrow> trim_space (dc_HTTPURL d) \<noteq> [] \<and> trim_space (dc_PoolManager d) \<noteq> [] \<and>
        1 \<le> dc_MaxMetaWorkers d \<and> dc_MaxMetaWorkers d \<le> 64 \<and>
        (dc_Pools d \<noteq> [] \<or> ResolvePoolsPath getenv d [] \<noteq> []))"

lemma DexConfig_Validate_iff: "DexConfig_Validate getenv d = Inr () \<longleftrightarrow> dex_valid getenv d"
  by (auto simp: DexConfig_Validate_def dex_valid_def is_v4_def config_bounds Let_def ResolvePoolsPath_def)

lemma validate_dexes_iff:
  "validate_dexes getenv global i v ds = Inr w \<longleftrightarrow>
     (\<forall>d \<in> set ds. dex_valid getenv d \<and> (is_v4 d \<longrightarrow> trim_space (dc_AssetsPath d) \<noteq> [] \<or> global \<noteq> [])) \<and>
     w = (v \<or> (\<exists>d \<in> set ds. is_v4 d))"
proof (induction getenv global i v ds rule: validate_dexes.induct)
  case (2 getenv global i v d ds)
  have "DexConfig_Validate getenv d = Inr u \<longleftrightarrow> dex_valid getenv d" for u
    using DexConfig_Validate_iff [of getenv d] by simp
  moreover have "is_v4 d \<longleftrightarrow> to_lower (trim_space (dc_Name d)) = ''uniswap_v4''"
    by (simp add: is_v4_def equal_fold_def lower_v4)
  ultimately show ?case
    using 2 by (cases "DexConfig_Validate getenv d") (auto simp: Let_def)
qed auto

lemma Config_Validate_iff':
  "Config_Validate getenv c = Inr () \<longleftrightarrow>
     (\<forall>d \<in> set (cf_DexConfigs c). dex_valid getenv d) \<and>
     ((\<exists>d \<in> set (cf_DexConfigs c). is_v4 d) \<longrightarrow> ResolveAssetsRegistryPath getenv c \<noteq> [])"
proof -
  define global where "global = ResolveAssetsRegistryPath getenv c"
  have g: "trim_space global = global" by (simp add: global_def ResolveAssetsRegistryPath_def)
  show ?thesis
    unfolding Config_Validate_def Let_def global_def [symmetric] g bind_res_Inr_iff validate_dexes_iff
    by auto
qed

text \<open>\<open>Config.Validate\<close> accepts a configuration exactly when every DEX section is within its bounds
  and, once a section is Uniswap V4, the global token registry has a path. The registry path of the
  section itself never makes a difference.\<close>

theorem Config_Validate_iff:
  "Config_Validate getenv c = Inr () \<longleftrightarrow>
     (\<forall>d \<in> set (cf_DexConfigs c). dex_valid getenv d) \<and>
     ((\<exists>d \<in> set (cf_DexConfigs c). is_v4 d) \<longrightarrow> ResolveAssetsRegistryPath getenv c \<noteq> [])"
  by (rule Config_Validate_iff')

lemma dex_valid_fields:
  "dex_valid getenv (d\<lparr>dc_AssetsPath := p\<rparr>) = dex_valid getenv d"
  by (simp add: dex_valid_def is_v4_def ResolvePoolsPath_def Let_def)

lemma prepare_dex_path: "trim_space shared \<noteq> [] \<Longrightarrow> dc_AssetsPath (prepare_dex getenv shared d) \<noteq> []"
  by (simp add: prepare_dex_def Let_def ResolveAssetsPath_empty_iff)

lemma LoadConfig_facts:
  assumes "LoadConfig getenv read_file decode path = Inr c"
  shows "list_all (\<lambda>n. 0 < n) [cf_DataChannelBuffer c, cf_RedisWorkers c, cf_RedisPipelineSize c,
      cf_SubscribeBatchSize c, cf_SubscribeBatchPauseMs c, cf_MetricsPeriodSec c, cf_BitgetSubscribeBatchSize c,
      cf_BitgetSubscribePauseMs c, cf_BitgetPingIntervalSec c] \<and>
    (\<exists>data raw. read_file path = Some data \<and> decode data = Some raw \<and>
       length (cf_DexConfigs c) = length (cf_DexConfigs raw)) \<and>
    (\<forall>d \<in> set (cf_DexConfigs c). dex_valid getenv d \<and> (is_v4 d \<longrightarrow> dc_AssetsPath d \<noteq> []))"
proof -
  from assms obtain data raw where f: "read_file path = Some data" "decode data = Some raw"
    and c: "c = config_defaults getenv raw" and v: "Config_Validate getenv c = Inr ()"
    by (auto simp: LoadConfig_def Let_def bind_res_Inr_iff split: option.splits)
  have valid: "\<forall>d \<in> set (cf_DexConfigs c). dex_valid getenv d"
    and global: "(\<exists>d \<in> set (cf_DexConfigs c). is_v4 d) \<Longrightarrow> FileSource_Resolve getenv (cf_AssetsRegistry c) \<noteq> []"
    using v unfolding Config_Validate_iff' by (auto simp: ResolveAssetsRegistryPath_def)
  have reg: "cf_AssetsRegistry c = cf_AssetsRegistry raw" by (simp add: c config_defaults_def)
  have "dc_AssetsPath d \<noteq> []" if d: "d \<in> set (cf_DexConfigs c)" "is_v4 d" for d
  proof -
    obtain e where "d = prepare_dex getenv (trim_space (FileSource_Resolve getenv (cf_AssetsRegistry raw))) e"
      using d(1) by (auto simp: c config_defaults_def)
    moreover have "FileSource_Resolve getenv (cf_AssetsRegistry raw) \<noteq> []" using global d reg by auto
    ultimately show ?thesis by (simp add: prepare_dex_path trimmed_fix)
  qed
  with f valid show ?thesis
    by (auto simp: c config_defaults_def default_to_def)
qed

text \<open>C34. A configuration that \<open>LoadConfig\<close> returns can be used as it is: every tuning value is positive,
  there are as many DEX sections as in the file, each of them is valid, and each Uniswap V4 section has a
  registry path, its own or the shared one.\<close>

theorem LoadConfig_ok:
  assumes "LoadConfig getenv read_file decode path = Inr c"
  shows "list_all (\<lambda>n. 0 < n) [cf_DataChannelBuffer c, cf_RedisWorkers c, cf_RedisPipelineSize c,
      cf_SubscribeBatchSize c, cf_SubscribeBatchPauseMs c, cf_MetricsPeriodSec c, cf_BitgetSubscribeBatchSize c,
      cf_BitgetSubscribePauseMs c, cf_BitgetPingIntervalSec c] \<and>
    (\<exists>data raw. read_file path = Some data \<and> decode data = Some raw \<and>
       length (cf_DexConfigs c) = length (cf_DexConfigs raw)) \<and>
    (\<forall>d \<in> set (cf_DexConfigs c). dex_valid getenv d \<and> (is_v4 d \<longrightarrow> dc_AssetsPath d \<noteq> []))"
  using assms by (rule LoadConfig_facts)

definition demo_dex :: "string \<Rightarrow> int \<Rightarrow> DexConfig" where
  "demo_dex name workers = \<lparr>dc_Name = name, dc_Network = ''ethereum'', dc_WSURL = ''$WS'', dc_HTTPURL = ''https://node'',
     dc_SubscribeBatch = 0, dc_PingInterval = 0, dc_PoolManager = ''0x0a'', dc_Pools = [],
     dc_PoolsFile = ''pools.json'', dc_PoolsSource = \<lparr>ps_File = [], ps_Env = [], ps_GeckoDex = [],
       ps_GeckoNetwork = [], ps_IncludeStable = False, ps_WantedPairs = []\<rparr>,
     dc_AssetsSource = \<lparr>fs_File = [], fs_Env = []\<rparr>, dc_AssetsPath = [], dc_MaxMetaWorkers = workers,
     dc_SwapOnly = False, dc_LogAllEvents = False, dc_StopOnAckError = False, dc_WantedPairs = [],
     dc_WantedPairsOnly = False, dc_Once = False\<rparr>"

definition demo_config :: "DexConfig list \<Rightarrow> Config" where
  "demo_config ds = \<lparr>cf_Exchange = [], cf_Exchanges = [], cf_Symbol = [], cf_DefaultSymbolsFile = ''tickers.json'',
     cf_SharedPools = dc_PoolsSource (demo_dex [] 0), cf_AssetsRegistry = \<lparr>fs_File = ''assets.yaml'', fs_Env = []\<rparr>,
     cf_ExchangeConfigs = [], cf_Redis = \<lparr>rc_Address = [], rc_Host = [], rc_Port = 0, rc_Password = []\<rparr>,
     cf_DataChannelBuffer = 0, cf_RedisWorkers = 0, cf_RedisPipelineSize = 0, cf_SubscribeBatchSize = 0,
     cf_SubscribeBatchPauseMs = 0, cf_MetricsPeriodSec = 0, cf_BitgetSubscribeBatchSize = 0,
     cf_BitgetSubscribePauseMs = 0, cf_BitgetPingIntervalSec = 0, cf_DexConfigs = ds\<rparr>"

definition demo_env :: "string \<Rightarrow> string" where
  "demo_env v = (if v = ''WS'' then ''wss://node'' else [])"

lemma demo_load: "LoadConfig demo_env (\<lambda>_. Some []) (\<lambda>_. Some (demo_config [demo_dex ''uniswap_v4'' 0])) ''config.yaml''
    = Inr (config_defaults demo_env (demo_config [demo_dex ''uniswap_v4'' 0]))"
  by code_simp

theorem Config_Validate_iff_witness:
  "Config_Validate demo_env (demo_config [demo_dex ''uniswap_v4'' 0]) \<noteq> Inr () \<and>
   Config_Validate demo_env (demo_config []) = Inr ()"
  unfolding Config_Validate_iff by code_simp

theorem LoadConfig_ok_witness:
  "dc_AssetsPath (hd (cf_DexConfigs (config_defaults demo_env (demo_config [demo_dex ''uniswap_v4'' 0])))) \<noteq> []"
proof -
  let ?d = "hd (cf_DexConfigs (config_defaults demo_env (demo_config [demo_dex ''uniswap_v4'' 0])))"
  have "?d \<in> set (cf_DexConfigs (config_defaults demo_env (demo_config [demo_dex ''uniswap_v4'' 0])))"
    by (simp add: config_defaults_def demo_config_def)
  moreover have "is_v4 ?d" by code_simp
  ultimately show ?thesis using LoadConfig_ok [OF demo_load] by blast
qed

text \<open>The shared pools path is the first path that is not empty, in the order that the comment on
  \<open>ResolveSharedPoolsPath\<close> gives: the shared source, the default symbols file, then for each DEX section
  its pools source and its pools file.\<close>

theorem ResolveSharedPoolsPath_first:
  "ResolveSharedPoolsPath getenv c =
     (case find (\<lambda>p. p \<noteq> []) (PoolsSource_Resolve getenv (cf_SharedPools c)
          # trim_space (expand_env getenv (cf_DefaultSymbolsFile c))
          # concat (map (\<lambda>d. [PoolsSource_Resolve getenv (dc_PoolsSource d), trim_space (expand_env getenv (dc_PoolsFile d))])
              (cf_DexConfigs c))) of
        Some p \<Rightarrow> p | None \<Rightarrow> [])"
proof -
  have "first_dex_path getenv ds = (case find (\<lambda>p. p \<noteq> []) (concat (map (\<lambda>d. [PoolsSource_Resolve getenv (dc_PoolsSource d),
        trim_space (expand_env getenv (dc_PoolsFile d))]) ds)) of Some p \<Rightarrow> p | None \<Rightarrow> [])" for ds
    by (induction ds) (simp_all add: Let_def trimmed_fix)
  then show ?thesis by (simp add: ResolveSharedPoolsPath_def Let_def trimmed_fix)
qed

text \<open>The defaults compare the name of a DEX section as written, the validation compares it trimmed:
  a V4 section whose name has a blank in front and no \<open>max_meta_workers\<close> does not get the default and is rejected.\<close>

theorem padded_v4_name_rejected:
  "DexConfig_Validate demo_env (prepare_dex demo_env ''assets.yaml'' (demo_dex ''uniswap_v4'' 0)) = Inr () \<and>
   DexConfig_Validate demo_env (prepare_dex demo_env ''assets.yaml'' (demo_dex '' uniswap_v4'' 0)) = Inl MetaWorkersRange"
  by code_simp

end
