(* ===== verification/Backoff.thy ===== *)
theory Backoff
  imports Prelude
begin

text \<open>
  The contract of the reconnect delays, which every connector and the supervisor implement in their own
  way: from the first delay on, each failure gives a longer one up to a cap. Delays are in nanoseconds.
\<close>

definition second :: int where "second = 10 ^ 9"
definition millisecond :: int where "millisecond = 10 ^ 6"

text \<open>\<open>time.Duration(n) * unit\<close>, in the 64 bits of a \<open>Duration\<close>.\<close>

definition duration :: "int \<Rightarrow> int \<Rightarrow> int" where
  "duration n unit = sint (word_of_int (n * unit) :: 64 word)"

lemma duration_exact: "- (2 ^ 63) \<le> n * unit \<Longrightarrow> n * unit < 2 ^ 63 \<Longrightarrow> duration n unit = n * unit"
  by (simp add: duration_def signed_of_int signed_take_bit_int_eq_self del: of_int_mult)

lemma duration_seconds: "0 \<le> n \<Longrightarrow> n \<le> 10 ^ 9 \<Longrightarrow> duration n second = n * second"
  by (rule duration_exact) (simp_all add: second_def)

locale backoff_policy =
  fixes next_delay :: "int \<Rightarrow> int" and valid :: "int \<Rightarrow> bool" and first :: int and cap :: int
  assumes first_pos: "0 < first" and first_valid: "valid first" and in_range: "valid d \<Longrightarrow> first \<le> d \<and> d \<le> cap"
    and closed: "valid d \<Longrightarrow> valid (next_delay d)"
    and grows: "valid d \<Longrightarrow> d < cap \<Longrightarrow> d < next_delay d"
    and stays: "next_delay cap = cap"
begin

lemma delays_valid: "valid ((next_delay ^^ n) first)"
  by (induction n) (simp_all add: first_valid closed)

lemma delays_in_range: "first \<le> (next_delay ^^ n) first \<and> (next_delay ^^ n) first \<le> cap"
  using in_range [OF delays_valid] .

lemma delays_mono: "(next_delay ^^ n) first \<le> (next_delay ^^ Suc n) first"
  using delays_in_range [of n] grows [OF delays_valid [of n]] stays
  by (cases "(next_delay ^^ n) first = cap") auto

lemma delays_reach_cap: "\<exists>n. \<forall>m \<ge> n. (next_delay ^^ m) first = cap"
proof -
  have "(next_delay ^^ n) first = cap \<or> first + int n \<le> (next_delay ^^ n) first" for n
  proof (induction n)
    case (Suc n)
    then show ?case
      using delays_in_range [of n] grows [OF delays_valid [of n]] stays
      by (cases "(next_delay ^^ n) first = cap") auto
  qed simp
  from this [of "nat (cap - first + 1)"] delays_in_range [of "nat (cap - first + 1)"] in_range [OF first_valid]
  have n: "(next_delay ^^ nat (cap - first + 1)) first = cap" by simp
  have "(next_delay ^^ (nat (cap - first + 1) + k)) first = cap" for k
    using n stays by (induction k) auto
  then show ?thesis by (metis le_add_diff_inverse)
qed

end

end
