(* ===== verification/Launcher.thy ===== *)
theory Launcher
  imports Exchange Config Backoff
begin

text \<open>
  \<open>internal/launcher\<close>: the registry of builders (\<open>registry.go\<close>), the builders of the exchange clients and
  the forwarding loop (\<open>register_cex.go\<close>). A builder's connector function is the list of its actions up to
  the point where it starts to read: subscriptions and pauses. Panics are errors.
\<close>

subsection \<open>registry.go\<close>

datatype register_error = EmptyName | NilBuilder string | DuplicateName string

definition registry_key :: "string \<Rightarrow> string" where
  "registry_key name = to_lower (trim_space name)"

definition Register :: "string \<Rightarrow> 'b option \<Rightarrow> (string, 'b) gomap \<Rightarrow> (register_error, (string, 'b) gomap) result" where
  "Register name builder registry =
     (let key = registry_key name in
      if key = [] then Inl EmptyName
      else (case builder of None \<Rightarrow> Inl (NilBuilder name)
        | Some b \<Rightarrow> if map_of registry key \<noteq> None then Inl (DuplicateName key) else Inr (mput key b registry)))"

definition Get :: "(string, 'b) gomap \<Rightarrow> string \<Rightarrow> 'b option" where
  "Get registry name = map_of registry (registry_key name)"

definition Keys :: "(string, 'b) gomap \<Rightarrow> string list" where
  "Keys registry = map fst registry"

fun register_all :: "(string \<times> 'b option) list \<Rightarrow> (string, 'b) gomap \<Rightarrow> (register_error, (string, 'b) gomap) result" where
  "register_all [] registry = Inr registry"
| "register_all ((name, b) # rest) registry =
     (case Register name b registry of Inl e \<Rightarrow> Inl e | Inr r \<Rightarrow> register_all rest r)"

text \<open>The builders, by name, as the two \<open>init\<close> functions register them.\<close>

datatype builder = BuildBybit | BuildGate | BuildBitget | BuildOkx | BuildUniswapV2 | BuildUniswapV3 | BuildUniswapV4

definition init_cex :: "(string \<times> builder option) list" where
  "init_cex = [(''bybit'', Some BuildBybit), (''gate'', Some BuildGate), (''gateio'', Some BuildGate),
     (''bitget'', Some BuildBitget), (''okx'', Some BuildOkx)]"

definition init_dex :: "(string \<times> builder option) list" where
  "init_dex = [(''uniswap_v2'', Some BuildUniswapV2), (''uniswap_v3'', Some BuildUniswapV3), (''uniswap_v4'', Some BuildUniswapV4)]"

subsection \<open>Batches of subscriptions\<close>

text \<open>The loop that collects identifiers and pushes a batch when it is full, and the last push.\<close>

fun batch_loop :: "int \<Rightarrow> string list \<Rightarrow> string list \<Rightarrow> string list list" where
  "batch_loop bsz batch [] = (if batch = [] then [] else [batch])"
| "batch_loop bsz batch (s # rest) =
     (let batch = batch @ [s] in
      if int (length batch) \<ge> bsz then batch # batch_loop bsz [] rest else batch_loop bsz batch rest)"

subsection \<open>register\_cex.go\<close>

datatype cex_action = ASubscribe subscription | ASleep int

datatype launch_error = EmptySymbols string

record cex_plan =
  pl_name :: string
  pl_url :: string
  pl_actions :: "cex_action list"
  pl_reader :: string
  pl_ping :: int

definition ms :: "int \<Rightarrow> int" where "ms n = duration n millisecond"

text \<open>The loop with one subscription per symbol, a small delay after each and a pause after each batch.\<close>

fun subscribe_each :: "(string \<Rightarrow> subscription) \<Rightarrow> int \<Rightarrow> int \<Rightarrow> int \<Rightarrow> nat \<Rightarrow> string list \<Rightarrow> cex_action list" where
  "subscribe_each sub smallDelay batchSize batchPause i [] = []"
| "subscribe_each sub smallDelay batchSize batchPause i (s # rest) =
     [ASubscribe (sub s), ASleep smallDelay]
     @ (if (int i + 1) mod batchSize = 0 then [ASleep batchPause] else [])
     @ subscribe_each sub smallDelay batchSize batchPause (Suc i) rest"

definition buildBybit :: "Config \<Rightarrow> string list \<Rightarrow> (launch_error, cex_plan) result" where
  "buildBybit cfg symbols =
     (if symbols = [] then Inl (EmptySymbols ''bybit'')
      else (let batchSize = (if cf_SubscribeBatchSize cfg \<le> 0 then 100 else cf_SubscribeBatchSize cfg) in
        Inr \<lparr>pl_name = ''Bybit'', pl_url = ''wss://stream.bybit.com/v5/public/spot'',
          pl_actions = subscribe_each Bybit_Subscribe (ms 5) batchSize (ms (cf_SubscribeBatchPauseMs cfg)) 0 symbols,
          pl_reader = ''Bybit'', pl_ping = 30 * second\<rparr>))"

definition buildGate :: "time \<Rightarrow> Config \<Rightarrow> string list \<Rightarrow> (launch_error, cex_plan) result" where
  "buildGate now cfg symbols =
     (if symbols = [] then Inl (EmptySymbols ''gate'')
      else (let batchSize = (if cf_SubscribeBatchSize cfg \<le> 0 then 100 else cf_SubscribeBatchSize cfg) in
        Inr \<lparr>pl_name = ''Gate'', pl_url = ''wss://api.gateio.ws/ws/v4/'',
          pl_actions = subscribe_each (\<lambda>s. Gate_Subscribe now (BybitToGateSymbol s)) (ms 10) batchSize
            (ms (cf_SubscribeBatchPauseMs cfg)) 0 symbols,
          pl_reader = ''Gate'', pl_ping = 30 * second\<rparr>))"

definition bitget_inst :: "string \<Rightarrow> string" where
  "bitget_inst s = to_upper (replace_all (replace_all s CHR ''-'' []) CHR ''_'' [])"

definition okx_inst :: "string \<Rightarrow> string" where
  "okx_inst s =
     (let instId = to_upper (replace_all (replace_all s CHR ''_'' ''-'') CHR ''/'' ''-'') in
      if \<not> contains instId ''-'' \<and> length instId > 4
      then take (length instId - 4) instId @ ''-'' @ drop (length instId - 4) instId else instId)"

definition push_actions :: "(string list \<Rightarrow> subscription option) \<Rightarrow> int \<Rightarrow> string list list \<Rightarrow> cex_action list" where
  "push_actions sub batchPause batches =
     concat (map (\<lambda>b. (case sub b of Some m \<Rightarrow> [ASubscribe m] | None \<Rightarrow> []) @ [ASleep batchPause]) batches)"

definition buildBitget :: "Config \<Rightarrow> string list \<Rightarrow> (launch_error, cex_plan) result" where
  "buildBitget cfg symbols =
     (if symbols = [] then Inl (EmptySymbols ''bitget'')
      else (let batchSize = (if cf_BitgetSubscribeBatchSize cfg \<le> 0 then 30 else cf_BitgetSubscribeBatchSize cfg);
                batchPause = ms (cf_BitgetSubscribePauseMs cfg);
                batchPause = (if batchPause \<le> 0 then ms 700 else batchPause);
                pingInterval = duration (cf_BitgetPingIntervalSec cfg) second;
                pingInterval = (if pingInterval \<le> 0 then 25 * second else pingInterval)
        in Inr \<lparr>pl_name = ''Bitget'', pl_url = ''wss://ws.bitget.com/v2/ws/public'',
          pl_actions = push_actions Bitget_SubscribeBatch batchPause (batch_loop batchSize [] (map bitget_inst symbols)),
          pl_reader = ''Bitget'', pl_ping = keepalive_interval pingInterval\<rparr>))"

definition buildOkx :: "Config \<Rightarrow> string list \<Rightarrow> (launch_error, cex_plan) result" where
  "buildOkx cfg symbols =
     (if symbols = [] then Inl (EmptySymbols ''okx'')
      else (let batchSize = (if cf_SubscribeBatchSize cfg \<le> 0 then 100 else cf_SubscribeBatchSize cfg);
                batchPause = ms (cf_SubscribeBatchPauseMs cfg);
                batchPause = (if batchPause \<le> 0 then ms 200 else batchPause);
                pingInterval = duration (cf_MetricsPeriodSec cfg) second;
                pingInterval = (if pingInterval \<le> 0 then 25 * second else pingInterval)
        in Inr \<lparr>pl_name = ''OKX'', pl_url = ''wss://ws.okx.com:8443/ws/v5/public'',
          pl_actions = push_actions Okx_SubscribeBatch batchPause (batch_loop batchSize [] (map okx_inst symbols)),
          pl_reader = ''OKX'', pl_ping = keepalive_interval pingInterval\<rparr>))"

text \<open>
  \<open>forward\<close>: the events of its select in the order in which they are taken; the result is what it puts on
  the shared channel and whether it has returned.
\<close>

datatype forward_event = FwdStop | FwdClosed | FwdMsg MarketData

fun forward :: "forward_event list \<Rightarrow> MarketData list \<times> bool" where
  "forward [] = ([], False)"
| "forward (FwdStop # rest) = ([], True)"
| "forward (FwdClosed # rest) = ([], True)"
| "forward (FwdMsg md # rest) = (case forward rest of (out, returned) \<Rightarrow> (md # out, returned))"

subsection \<open>Lemmas: the registry\<close>

lemma registry_key_idem [simp]: "registry_key (registry_key name) = registry_key name"
  by (simp add: registry_key_def trim_to_lower)

lemma Register_Get:
  "Register name b r = Inr r' \<Longrightarrow> Get r' other = (if registry_key other = registry_key name then b else Get r other)"
  by (auto simp: Register_def Get_def Let_def split: if_splits option.splits)

text \<open>Both \<open>init\<close> functions run without a panic and leave exactly the eight names of the README
  registered; \<open>Get\<close> finds a builder under its name in any letter case and with blanks around it.\<close>

theorem registered_builders:
  "\<exists>r. register_all (init_cex @ init_dex) [] = Inr r \<and>
     Keys r = [''bybit'', ''gate'', ''gateio'', ''bitget'', ''okx'', ''uniswap_v2'', ''uniswap_v3'', ''uniswap_v4''] \<and>
     Get r '' OKX '' = Some BuildOkx \<and> Get r ''GateIO'' = Get r ''gate'' \<and> Get r ''binance'' = None"
  by (rule exI [of _ "projr (register_all (init_cex @ init_dex) [])"]) code_simp

text \<open>Registering a builder succeeds exactly once per key: a success makes it the answer for every
  spelling of the name and leaves every other key alone, and the same key is refused afterwards.\<close>

theorem Register_once:
  assumes "Register name b r = Inr r'"
  shows "(\<forall>other. Get r' other = (if registry_key other = registry_key name then b else Get r other)) \<and>
    b \<noteq> None \<and> Get r name = None \<and>
    (\<forall>c. registry_key c = registry_key name \<longrightarrow> Register c (Some b') r' = Inl (DuplicateName (registry_key name)))"
  using assms Register_Get [OF assms]
  by (auto simp: Register_def Get_def Let_def split: if_splits option.splits)

theorem Register_once_witness:
  "Get [(''okx'', BuildOkx)] ''OKX'' = Some BuildOkx \<and> Get [] ''okx'' = (None :: builder option)"
proof -
  have r: "Register ''okx'' (Some BuildOkx) [] = Inr [(''okx'', BuildOkx)]" by code_simp
  have "registry_key ''OKX'' = registry_key ''okx''" by code_simp
  with Register_once [OF r] show ?thesis by auto
qed

subsection \<open>Lemmas: batches\<close>

lemma batch_loop_spec:
  assumes "0 < bsz" and "int (length batch) < bsz"
  shows "concat (batch_loop bsz batch ss) = batch @ ss \<and>
    (\<forall>b \<in> set (batch_loop bsz batch ss). b \<noteq> [] \<and> int (length b) \<le> bsz) \<and>
    (\<forall>b \<in> set (butlast (batch_loop bsz batch ss)). int (length b) = bsz)"
  using assms(2)
proof (induction bsz batch ss rule: batch_loop.induct)
  case (2 bsz batch s rest)
  show ?case
  proof (cases "int (length (batch @ [s])) \<ge> bsz")
    case True
    then have len: "int (length (batch @ [s])) = bsz" using 2(3) by simp
    from True 2(1) have IH: "concat (batch_loop bsz [] rest) = rest"
      "\<forall>b \<in> set (batch_loop bsz [] rest). b \<noteq> [] \<and> int (length b) \<le> bsz"
      "\<forall>b \<in> set (butlast (batch_loop bsz [] rest)). int (length b) = bsz" using assms(1) 2(3) by auto
    have step: "batch_loop bsz batch (s # rest) = (batch @ [s]) # batch_loop bsz [] rest" using True by simp
    show ?thesis unfolding step using IH len by auto
  next
    case False
    then have step: "batch_loop bsz batch (s # rest) = batch_loop bsz (batch @ [s]) rest" by simp
    show ?thesis unfolding step using 2(2) False by simp
  qed
qed auto

text \<open>The batches of the OKX and Bitget subscriptions: together they are the instrument identifiers of
  all symbols in order, none is empty or longer than the batch size, and all but the last are full.\<close>

theorem batches_partition:
  assumes "0 < bsz"
  shows "concat (batch_loop bsz [] (map okx_inst symbols)) = map okx_inst symbols \<and>
    concat (batch_loop bsz [] (map bitget_inst symbols)) = map bitget_inst symbols \<and>
    (\<forall>b \<in> set (batch_loop bsz [] ids). b \<noteq> [] \<and> int (length b) \<le> bsz) \<and>
    (\<forall>b \<in> set (butlast (batch_loop bsz [] ids)). int (length b) = bsz)"
  using batch_loop_spec [OF assms, of "[]"] assms by simp

theorem batches_partition_witness:
  "concat (batch_loop 2 [] (map okx_inst [''BTCUSDT'', ''ETH_USDC'', ''A/B''])) = [''BTC-USDT'', ''ETH-USDC'', ''A-B'']"
proof -
  have "map okx_inst [''BTCUSDT'', ''ETH_USDC'', ''A/B''] = [''BTC-USDT'', ''ETH-USDC'', ''A-B'']" by code_simp
  with batches_partition [of 2 "[''BTCUSDT'', ''ETH_USDC'', ''A/B'']" "[]"] show ?thesis by simp
qed

definition plan_subscriptions :: "cex_action list \<Rightarrow> subscription list" where
  "plan_subscriptions acts = List.map_filter (\<lambda>a. case a of ASubscribe s \<Rightarrow> Some s | ASleep _ \<Rightarrow> None) acts"

definition plan_time :: "cex_action list \<Rightarrow> int" where
  "plan_time acts = sum_list (map (\<lambda>a. case a of ASubscribe _ \<Rightarrow> 0 | ASleep d \<Rightarrow> d) acts)"

lemma div_Suc_step: "0 < b \<Longrightarrow> (k + 1) div b = k div b + (if (k + 1) mod b = 0 then 1 else 0)" for k b :: int
proof -
  assume b: "0 < b"
  have "(k + 1) div b * b + ((k + 1) mod b - 1) = k" using div_mult_mod_eq [of "k + 1" b] by linarith
  then have "k div b = ((k + 1) div b * b + ((k + 1) mod b - 1)) div b" by simp
  also have "\<dots> = (k + 1) div b + ((k + 1) mod b - 1) div b" using b by simp
  also have "((k + 1) mod b - 1) div b = (if (k + 1) mod b = 0 then - 1 else 0)"
  proof (cases "(k + 1) mod b = 0")
    case False
    with b have "0 \<le> (k + 1) mod b - 1" "(k + 1) mod b - 1 < b"
      using pos_mod_bound [OF b, of "k + 1"] pos_mod_sign [OF b, of "k + 1"] by linarith+
    then have "((k + 1) mod b - 1) div b = 0" by (rule div_pos_pos_trivial)
    with False show ?thesis by simp
  qed (use b in \<open>simp add: div_eq_minus1\<close>)
  finally show ?thesis by (simp split: if_splits)
qed

lemma subscribe_each_spec:
  "0 < bsz \<Longrightarrow> plan_subscriptions (subscribe_each sub d bsz pause i ss) = map sub ss \<and>
     plan_time (subscribe_each sub d bsz pause i ss) =
       int (length ss) * d + ((int i + int (length ss)) div bsz - int i div bsz) * pause"
proof (induction sub d bsz pause i ss rule: subscribe_each.induct)
  case (2 sub d bsz pause i s rest)
  from div_Suc_step [OF 2(2), of "int i"] 2 show ?case
    by (cases "(int i + 1) mod bsz = 0") (simp_all add: plan_subscriptions_def plan_time_def map_filter_simps algebra_simps)
qed (simp add: plan_subscriptions_def plan_time_def)

text \<open>The loops of Bybit and Gate subscribe every symbol once and in order, Gate under its own spelling
  of it, and the time they take is the small delay for each symbol and the pause for each full batch.\<close>

theorem subscription_plans:
  assumes "buildBybit cfg symbols = Inr bybit" and "buildGate now cfg symbols = Inr gate"
    and "0 < cf_SubscribeBatchSize cfg"
  shows "plan_subscriptions (pl_actions bybit) = map Bybit_Subscribe symbols \<and>
    plan_subscriptions (pl_actions gate) = map (\<lambda>s. Gate_Subscribe now (BybitToGateSymbol s)) symbols \<and>
    plan_time (pl_actions bybit) = int (length symbols) * ms 5 +
      int (length symbols) div cf_SubscribeBatchSize cfg * ms (cf_SubscribeBatchPauseMs cfg) \<and>
    plan_time (pl_actions gate) = int (length symbols) * ms 10 +
      int (length symbols) div cf_SubscribeBatchSize cfg * ms (cf_SubscribeBatchPauseMs cfg)"
  using assms by (auto simp: buildBybit_def buildGate_def Let_def subscribe_each_spec split: if_splits)

theorem subscription_plans_witness:
  "plan_time (pl_actions (projr (buildBybit (config_defaults demo_env (demo_config [])) [''BTCUSDT'', ''ETHUSDT'']))) = 2 * ms 5"
proof -
  define cfg where "cfg = config_defaults demo_env (demo_config [])"
  have c: "cf_SubscribeBatchSize cfg = 100" "cf_SubscribeBatchPauseMs cfg = 150"
    by (simp_all add: cfg_def config_defaults_def demo_config_def default_to_def)
  have "buildBybit cfg [''BTCUSDT'', ''ETHUSDT''] = Inr (projr (buildBybit cfg [''BTCUSDT'', ''ETHUSDT'']))"
    "buildGate 0 cfg [''BTCUSDT'', ''ETHUSDT''] = Inr (projr (buildGate 0 cfg [''BTCUSDT'', ''ETHUSDT'']))"
    by (simp_all add: buildBybit_def buildGate_def Let_def)
  from subscription_plans [OF this] c show ?thesis by (simp add: cfg_def)
qed

subsection \<open>Lemmas: one canonical symbol for all exchanges\<close>

definition plain_symbol :: "string \<Rightarrow> bool" where
  "plain_symbol s \<longleftrightarrow> list_all (\<lambda>c. \<not> is_separator c \<and> \<not> is_space c \<and> upper_char c = c) s"

lemma plain_append [simp]: "plain_symbol (a @ b) \<longleftrightarrow> plain_symbol a \<and> plain_symbol b"
  by (simp add: plain_symbol_def)

lemma plain_replace: "plain_symbol s \<Longrightarrow> is_separator c \<Longrightarrow> replace_all s c n = s"
proof (induction s)
  case (Cons d s)
  then have "d \<noteq> c" by (auto simp: plain_symbol_def)
  with Cons show ?case by (simp add: replace_all_def plain_symbol_def)
qed simp

lemma plain_upper: "plain_symbol s \<Longrightarrow> to_upper s = s"
  by (induction s) (simp_all add: plain_symbol_def to_upper_def)

lemma plain_trimmed: "plain_symbol s \<Longrightarrow> trimmed s"
  by (cases s) (auto simp: trimmed_def plain_symbol_def list_all_iff)

lemma separators: "is_separator CHR ''-''" "is_separator CHR ''_''" "is_separator CHR ''/''" "is_separator CHR ''.''"
  by (simp_all add: is_separator_def)

lemma plain_filter: "plain_symbol s \<Longrightarrow> filter (\<lambda>c. \<not> is_separator c) s = s"
  by (simp add: plain_symbol_def list_all_iff filter_id_conv)

lemma NormalizeSpotSymbol_sep:
  assumes "plain_symbol (a @ b)" and "is_separator c" and "upper_char c = c"
  shows "NormalizeSpotSymbol e (a @ [c] @ b) = a @ b"
proof -
  have "to_upper (a @ [c] @ b) = a @ [c] @ b"
  proof -
    have "to_upper [c] = [c]" using assms(3) by (simp add: to_upper_def)
    with assms(1) show ?thesis by (simp only: to_upper_append plain_append plain_upper)
  qed
  moreover have "trim_space (a @ b) = a @ b" using assms(1) plain_trimmed trimmed_fix by blast
  ultimately show ?thesis using assms by (simp add: NormalizeSpotSymbol_filter plain_filter)
qed

lemma NormalizeSpotSymbol_plain: "plain_symbol s \<Longrightarrow> NormalizeSpotSymbol e s = s"
  by (simp add: NormalizeSpotSymbol_filter plain_upper plain_filter plain_trimmed trimmed_fix)



text \<open>OKX splits before the last four characters whatever the quote: a pair against DAI is subscribed under a name
  that no market has, where Gate is asked for the right one.\<close>

theorem okx_splits_DAI:
  "okx_inst ''ETHDAI'' = ''ET-HDAI'' \<and> BybitToGateSymbol ''ETHDAI'' = ''ETH_DAI''"
  by code_simp

end
