(* ===== verification/Redis.thy ===== *)
theory Redis
  imports Util
begin

text \<open>
  \<open>internal/redisclient\<close>: the pipeline of \<open>HSET\<close> commands (\<open>client.go\<close>) and the clean-up of legacy keys
  (\<open>normalize.go\<close>). The Redis client library is a record of operations on a store of any type; each
  returns its result, \<open>None\<close> or \<open>False\<close> for an error, and the store after it. \<open>redis_ok\<close> states what
  the documentation of the commands says of them.
\<close>

record 's redis_api =
  rd_Scan :: "nat \<Rightarrow> string \<Rightarrow> 's \<Rightarrow> (string list \<times> nat) option \<times> 's"
  rd_HGetAll :: "string \<Rightarrow> 's \<Rightarrow> (string, string) gomap option \<times> 's"
  rd_HSet :: "string \<Rightarrow> (string \<times> string) list \<Rightarrow> 's \<Rightarrow> bool \<times> 's"
  rd_Del :: "string \<Rightarrow> 's \<Rightarrow> bool \<times> 's"
  rd_Exec :: "(string \<times> (string \<times> string) list) list \<Rightarrow> 's \<Rightarrow> bool \<times> 's"

subsection \<open>client.go\<close>

text \<open>A value of type \<open>interface{}\<close>: a string, or something else with the text \<open>fmt.Sprint\<close> gives it.\<close>

datatype iface = IStr string | IVal string

primrec sprint :: "iface \<Rightarrow> string" where
  "sprint (IStr s) = s"
| "sprint (IVal s) = s"

text \<open>The loop over the fields of one entry; \<open>None\<close> where the code drops the entry as invalid.\<close>

fun entry_fields :: "iface list \<Rightarrow> (string \<times> string) list option" where
  "entry_fields [] = Some []"
| "entry_fields [x] = None"
| "entry_fields (IVal n # v # rest) = None"
| "entry_fields (IStr n # v # rest) =
     (case entry_fields rest of None \<Rightarrow> None | Some fs \<Rightarrow> Some ((n, sprint v) # fs))"

definition entry_command :: "iface list \<Rightarrow> (string \<times> (string \<times> string) list) option" where
  "entry_command e =
     (if length e < 3 then None
      else (case hd e of IVal _ \<Rightarrow> None
        | IStr key \<Rightarrow> (case entry_fields (tl e) of None \<Rightarrow> None
            | Some fs \<Rightarrow> if fs = [] then None else Some (key, fs))))"

definition HSetBatch :: "'s redis_api \<Rightarrow> iface list list \<Rightarrow> 's \<Rightarrow> bool \<times> 's" where
  "HSetBatch R entries s =
     (if entries = [] then (True, s) else rd_Exec R (List.map_filter entry_command entries) s)"

subsection \<open>normalize.go\<close>

definition parseTimestamp :: "(string, string) gomap \<Rightarrow> int" where
  "parseTimestamp m =
     (case map_of m ''timestamp'' of None \<Rightarrow> 0
      | Some v \<Rightarrow> (case parse_int64 v of Some ts \<Rightarrow> ts | None \<Rightarrow> 0))"

definition flattenFields :: "(string, string) gomap \<Rightarrow> (string \<times> string) list" where
  "flattenFields m =
     (let order = [''price'', ''timestamp'', ''exchange'', ''symbol''] in
      List.map_filter (\<lambda>k. case map_of m k of Some v \<Rightarrow> Some (k, v) | None \<Rightarrow> None) order
      @ filter (\<lambda>(k, v). k \<notin> set order) m)"

definition go_get :: "(string, string) gomap \<Rightarrow> string \<Rightarrow> string" where
  "go_get m k = (case map_of m k of None \<Rightarrow> [] | Some v \<Rightarrow> v)"

definition mergeAndDelete ::
    "'s redis_api \<Rightarrow> string \<Rightarrow> string \<Rightarrow> string \<Rightarrow> string \<Rightarrow> 's \<Rightarrow> int option \<times> 's" where
  "mergeAndDelete R srcKey destKey exchangeLower newSymbol s =
     (if srcKey = destKey then (Some 0, s)
      else case rd_HGetAll R srcKey s of (None, s) \<Rightarrow> (None, s)
      | (Some srcFields, s) \<Rightarrow>
          if srcFields = [] then (Some 1, snd (rd_Del R srcKey s))
          else let srcFields = mput ''exchange'' exchangeLower srcFields;
                   srcFields = (if newSymbol \<noteq> [] then mput ''symbol'' newSymbol srcFields else srcFields)
          in case rd_HGetAll R destKey s of (None, s) \<Rightarrow> (None, s)
          | (Some destFields, s) \<Rightarrow>
              (let srcTs = parseTimestamp srcFields; destTs = parseTimestamp destFields;
                   (ok, s) =
                     (if destFields = [] \<or> srcTs \<ge> destTs then rd_HSet R destKey (flattenFields srcFields) s
                      else if go_get destFields ''exchange'' \<noteq> exchangeLower then
                        (let s = snd (rd_HSet R destKey [(''exchange'', exchangeLower)] s) in
                         (True, if newSymbol \<noteq> [] then snd (rd_HSet R destKey [(''symbol'', newSymbol)] s) else s))
                      else (True, s))
               in if \<not> ok then (None, s)
                  else (case rd_Del R srcKey s of (del_ok, s) \<Rightarrow> (if del_ok then Some 1 else None, s))))"

definition normalizeKey :: "'s redis_api \<Rightarrow> string \<Rightarrow> string \<Rightarrow> 's \<Rightarrow> int option \<times> 's" where
  "normalizeKey R prefix key s =
     (let parts = split_on CHR '':'' key in
      if length parts < 3 then (Some 0, s)
      else if prefix = ''price'' then
        (let exchange = join_with '':'' (butlast (tl parts)) in
         if exchange = [] then (Some 0, s)
         else let lower = NormalizeExchangeName exchange; symbol = trim_space (last parts) in
         if lower = to_lower (trim_space exchange) \<and> (lower \<noteq> ''gate'' \<or> contains symbol ''_'') then (Some 0, s)
         else let destSymbol = (if lower = ''gate'' \<and> \<not> contains symbol ''_''
                  then BybitToGateSymbol (to_upper symbol) else symbol)
         in mergeAndDelete R key (prefix @ '':'' @ lower @ '':'' @ destSymbol) lower destSymbol s)
      else if prefix = ''price_canon'' then
        (let exchange = join_with '':'' (drop 2 parts) in
         if exchange = [] then (Some 0, s)
         else let lower = NormalizeExchangeName exchange in
         if lower = to_lower (trim_space exchange) then (Some 0, s)
         else let canon = parts ! 1
         in mergeAndDelete R key (prefix @ '':'' @ canon @ '':'' @ lower) lower [] s)
      else (Some 0, s))"

text \<open>The keys of one page; a key with an error is skipped.\<close>

fun normalize_keys :: "'s redis_api \<Rightarrow> string \<Rightarrow> string list \<Rightarrow> int \<Rightarrow> 's \<Rightarrow> int \<times> 's" where
  "normalize_keys R prefix [] normalized s = (normalized, s)"
| "normalize_keys R prefix (key # keys) normalized s =
     (case normalizeKey R prefix key s of
        (None, s) \<Rightarrow> normalize_keys R prefix keys normalized s
      | (Some n, s) \<Rightarrow> normalize_keys R prefix keys (normalized + n) s)"

text \<open>The scan goes on until the server returns cursor 0, so the loop need not end. The result is the
  count, whether the scan failed, and the store.\<close>

partial_function (option) scan_loop ::
    "'s redis_api \<Rightarrow> string \<Rightarrow> nat \<Rightarrow> int \<Rightarrow> 's \<Rightarrow> (int \<times> bool \<times> 's) option" where
  "scan_loop R prefix cursor normalized s =
     (case rd_Scan R cursor (prefix @ '':*'') s of
        (None, s) \<Rightarrow> Some (normalized, True, s)
      | (Some (keys, next_cursor), s) \<Rightarrow>
          (case normalize_keys R prefix keys normalized s of (n, s) \<Rightarrow>
             if next_cursor = 0 then Some (n, False, s) else scan_loop R prefix next_cursor n s))"

definition normalizeKeyGroup :: "'s redis_api \<Rightarrow> string \<Rightarrow> 's \<Rightarrow> (int \<times> bool \<times> 's) option" where
  "normalizeKeyGroup R prefix s = scan_loop R prefix 0 0 s"

definition NormalizeExchangeKeys :: "'s redis_api \<Rightarrow> 's \<Rightarrow> (int \<times> 's) option" where
  "NormalizeExchangeKeys R s =
     (case normalizeKeyGroup R ''price'' s of None \<Rightarrow> None
      | Some (priceCount, e1, s) \<Rightarrow> (case normalizeKeyGroup R ''price_canon'' s of None \<Rightarrow> None
          | Some (canonCount, e2, s) \<Rightarrow> Some (priceCount + canonCount, s)))"

subsection \<open>What the commands do\<close>

text \<open>
  \<open>view s k\<close> is the hash at key \<open>k\<close>, empty when there is none. Reads change nothing. A write that
  succeeds has its effect, one that fails had it or had not.
\<close>

type_synonym hashes = "string \<Rightarrow> string \<rightharpoonup> string"

definition put_fields :: "string \<Rightarrow> (string \<times> string) list \<Rightarrow> hashes \<Rightarrow> hashes" where
  "put_fields k fs h = h(k := h k ++ map_of (rev fs))"

definition redis_ok :: "'s redis_api \<Rightarrow> ('s \<Rightarrow> hashes) \<Rightarrow> bool" where
  "redis_ok R view \<longleftrightarrow>
     (\<forall>k s r s'. rd_HGetAll R k s = (r, s') \<longrightarrow> view s' = view s \<and>
        (case r of None \<Rightarrow> True | Some m \<Rightarrow> distinct (map fst m) \<and> map_of m = view s k)) \<and>
     (\<forall>k fs s ok s'. rd_HSet R k fs s = (ok, s') \<longrightarrow>
        view s' = put_fields k fs (view s) \<or> \<not> ok \<and> view s' = view s) \<and>
     (\<forall>k s ok s'. rd_Del R k s = (ok, s') \<longrightarrow>
        view s' = (view s)(k := Map.empty) \<or> \<not> ok \<and> view s' = view s) \<and>
     (\<forall>cmds s s'. rd_Exec R cmds s = (True, s') \<longrightarrow> view s' = fold (\<lambda>(k, fs). put_fields k fs) cmds (view s))"

lemma redis_okD:
  assumes "redis_ok R view"
  shows "rd_HGetAll R k s = (Some m, s') \<Longrightarrow> view s' = view s \<and> distinct (map fst m) \<and> map_of m = view s k"
    and "rd_HGetAll R k s = (r, s') \<Longrightarrow> view s' = view s"
    and "rd_HSet R k fs s = (True, s') \<Longrightarrow> view s' = put_fields k fs (view s)"
    and "view (snd (rd_HSet R k fs s)) = put_fields k fs (view s) \<or> view (snd (rd_HSet R k fs s)) = view s"
    and "rd_Del R k s = (True, s') \<Longrightarrow> view s' = (view s)(k := Map.empty)"
    and "rd_Exec R cmds s = (True, s') \<Longrightarrow> view s' = fold (\<lambda>(k, fs). put_fields k fs) cmds (view s)"
proof -
  note a = assms [unfolded redis_ok_def]
  show "rd_HGetAll R k s = (Some m, s') \<Longrightarrow> view s' = view s \<and> distinct (map fst m) \<and> map_of m = view s k"
    using a [THEN conjunct1, rule_format, of k s "Some m" s'] by simp
  show "rd_HGetAll R k s = (r, s') \<Longrightarrow> view s' = view s" using a by blast
  show "rd_HSet R k fs s = (True, s') \<Longrightarrow> view s' = put_fields k fs (view s)" using a by blast
  show "view (snd (rd_HSet R k fs s)) = put_fields k fs (view s) \<or> view (snd (rd_HSet R k fs s)) = view s"
    using a by (metis prod.collapse)
  show "rd_Del R k s = (True, s') \<Longrightarrow> view s' = (view s)(k := Map.empty)" using a by blast
  show "rd_Exec R cmds s = (True, s') \<Longrightarrow> view s' = fold (\<lambda>(k, fs). put_fields k fs) cmds (view s)" using a by blast
qed

lemma map_of_puts: "map_of (fold (\<lambda>(f, v). mput f v) fs m) = map_of m ++ map_of (rev fs)"
  by (induction fs arbitrary: m) (auto simp: map_add_def fun_eq_iff split: option.splits)

lemma distinct_puts: "distinct (map fst m) \<Longrightarrow> distinct (map fst (fold (\<lambda>(f, v). mput f v) fs m))"
  by (induction fs arbitrary: m) auto

lemma map_of_rev_distinct: "distinct (map fst m) \<Longrightarrow> map_of (rev m) = map_of m"
proof
  fix k assume "distinct (map fst m)"
  then show "map_of (rev m) k = map_of m k"
    using map_of_set [of m k] map_of_set [of "rev m" k] by (cases "map_of m k"; cases "map_of (rev m) k") (auto simp: rev_map [symmetric])
qed

text \<open>A store in memory that answers every scan in one page.\<close>

definition mem_hash :: "(string, (string, string) gomap) gomap \<Rightarrow> string \<Rightarrow> (string, string) gomap" where
  "mem_hash s k = (case map_of s k of None \<Rightarrow> [] | Some m \<Rightarrow> fold (\<lambda>(f, v). mput f v) m [])"

definition mem_put :: "string \<Rightarrow> (string \<times> string) list \<Rightarrow> (string, (string, string) gomap) gomap
    \<Rightarrow> (string, (string, string) gomap) gomap" where
  "mem_put k fs s = mput k (fold (\<lambda>(f, v). mput f v) fs (mem_hash s k)) s"

definition mem_redis :: "(string, (string, string) gomap) gomap redis_api" where
  "mem_redis = \<lparr>
     rd_Scan = (\<lambda>c p s. (Some (map fst (filter (\<lambda>(k, m). has_prefix k (butlast p) \<and> m \<noteq> []) s), 0), s)),
     rd_HGetAll = (\<lambda>k s. (Some (mem_hash s k), s)),
     rd_HSet = (\<lambda>k fs s. (True, mem_put k fs s)),
     rd_Del = (\<lambda>k s. (True, mput k [] s)),
     rd_Exec = (\<lambda>cmds s. (True, fold (\<lambda>(k, fs). mem_put k fs) cmds s))\<rparr>"

definition mem_view :: "(string, (string, string) gomap) gomap \<Rightarrow> hashes" where
  "mem_view s k = map_of (mem_hash s k)"

lemma distinct_mem_hash: "distinct (map fst (mem_hash s k))"
  by (simp add: mem_hash_def distinct_puts split: option.splits)

lemma mem_view_put: "mem_view (mem_put k fs s) = put_fields k fs (mem_view s)"
proof
  fix j
  have "distinct (map fst (fold (\<lambda>(f, v). mput f v) fs (mem_hash s k)))"
    by (rule distinct_puts [OF distinct_mem_hash])
  then show "mem_view (mem_put k fs s) j = put_fields k fs (mem_view s) j"
    by (simp add: mem_view_def put_fields_def mem_put_def mem_hash_def [of "mput k v s" for v] map_of_puts
        map_of_rev_distinct) (simp add: mem_hash_def)
qed

lemma mem_redis_ok: "redis_ok mem_redis mem_view"
proof -
  have del: "mem_view (mput k [] s) = (mem_view s)(k := Map.empty)" for k s
    by (auto simp: mem_view_def mem_hash_def fun_eq_iff)
  have exec: "mem_view (fold (\<lambda>(k, fs). mem_put k fs) cmds s) = fold (\<lambda>(k, fs). put_fields k fs) cmds (mem_view s)" for cmds s
    by (induction cmds arbitrary: s) (auto simp: mem_view_put)
  show ?thesis
    by (simp add: redis_ok_def mem_redis_def distinct_mem_hash mem_view_put del exec) (simp add: mem_view_def fun_eq_iff)
qed

subsection \<open>Lemmas: a merge\<close>

lemma map_filter_keys: "map_of (List.map_filter (\<lambda>k. case m k of Some v \<Rightarrow> Some (k, v) | None \<Rightarrow> None) ks) k
    = (if k \<in> set ks then m k else None)"
  by (induction ks) (auto simp: map_filter_simps split: option.splits)

lemma set_map_filter: "set (List.map_filter f xs) = {y. \<exists>x \<in> set xs. f x = Some y}"
  by (induction xs) (auto simp: map_filter_simps split: option.splits)

lemma flattenFields_map:
  assumes "distinct (map fst m)"
  shows "map_of (flattenFields m) = map_of m \<and> distinct (map fst (flattenFields m))"
proof -
  define order where "order = [''price'', ''timestamp'', ''exchange'', ''symbol'']"
  define a where "a = List.map_filter (\<lambda>k. case map_of m k of Some v \<Rightarrow> Some (k, v) | None \<Rightarrow> None) order"
  define b where "b = filter (\<lambda>(k, v). k \<notin> set order) m"
  have f: "flattenFields m = a @ b" by (simp add: flattenFields_def order_def a_def b_def Let_def)
  have "map_of b k = (if k \<in> set order then None else map_of m k)" for k
    unfolding b_def by (induction m) auto
  moreover have "map_of a k = (if k \<in> set order then map_of m k else None)" for k
    unfolding a_def by (rule map_filter_keys)
  ultimately have 1: "map_of (flattenFields m) = map_of m"
    by (auto simp: f map_add_def fun_eq_iff split: option.splits)
  have "distinct order" by (simp add: order_def)
  then have "distinct (map fst a)" unfolding a_def
    by (induction order) (auto simp: map_filter_simps set_map_filter split: option.splits)
  moreover have "distinct (map fst b)" using assms by (simp add: b_def distinct_map_filter)
  moreover have "set (map fst a) \<inter> set (map fst b) = {}"
    by (auto simp: a_def b_def set_map_filter split: option.splits)
  ultimately show ?thesis using 1 by (simp add: f)
qed

text \<open>The fields a legacy hash is rewritten to.\<close>

definition relabel :: "string \<Rightarrow> string \<Rightarrow> (string \<rightharpoonup> string) \<Rightarrow> (string \<rightharpoonup> string)" where
  "relabel ex newSymbol h =
     (let h = h(''exchange'' \<mapsto> ex) in if newSymbol \<noteq> [] then h(''symbol'' \<mapsto> newSymbol) else h)"

definition ts_of :: "(string \<rightharpoonup> string) \<Rightarrow> int" where
  "ts_of h = (case h ''timestamp'' of None \<Rightarrow> 0 | Some v \<Rightarrow> (case parse_int64 v of Some ts \<Rightarrow> ts | None \<Rightarrow> 0))"

lemma parseTimestamp_view: "parseTimestamp m = ts_of (map_of m)"
  by (simp add: parseTimestamp_def ts_of_def)

lemma ts_of_relabel: "ts_of (relabel ex ns h) = ts_of h"
  by (simp add: ts_of_def relabel_def Let_def)

text \<open>The steps of a merge after both hashes are read: the fields to write, the write, and what an older source leaves.\<close>

definition merge_fields :: "string \<Rightarrow> string \<Rightarrow> (string \<times> string) list \<Rightarrow> (string \<times> string) list" where
  "merge_fields ex ns sf = (if ns \<noteq> [] then mput ''symbol'' ns (mput ''exchange'' ex sf) else mput ''exchange'' ex sf)"

definition merge_write ::
    "'s redis_api \<Rightarrow> string \<Rightarrow> string \<Rightarrow> string \<Rightarrow> (string \<times> string) list \<Rightarrow> (string \<times> string) list \<Rightarrow> 's \<Rightarrow> bool \<times> 's" where
  "merge_write R dest ex ns sf df s =
     (if df = [] \<or> parseTimestamp sf \<ge> parseTimestamp df then rd_HSet R dest (flattenFields sf) s
      else if go_get df ''exchange'' \<noteq> ex then
        (let s = snd (rd_HSet R dest [(''exchange'', ex)] s) in
         (True, if ns \<noteq> [] then snd (rd_HSet R dest [(''symbol'', ns)] s) else s))
      else (True, s))"

definition relabelled :: "string \<Rightarrow> hashes \<Rightarrow> hashes \<Rightarrow> bool" where
  "relabelled dest h h' \<longleftrightarrow> (\<forall>k. k \<noteq> dest \<longrightarrow> h' k = h k) \<and>
     (\<forall>f. f \<noteq> ''exchange'' \<and> f \<noteq> ''symbol'' \<longrightarrow> h' dest f = h dest f)"

lemma mergeAndDelete_eq:
  "src \<noteq> dest \<Longrightarrow> rd_HGetAll R src s = (Some sf, s1) \<Longrightarrow> sf \<noteq> [] \<Longrightarrow>
   mergeAndDelete R src dest ex ns s =
     (case rd_HGetAll R dest s1 of (None, s) \<Rightarrow> (None, s)
      | (Some df, s2) \<Rightarrow> (case merge_write R dest ex ns (merge_fields ex ns sf) df s2 of (ok, s3) \<Rightarrow>
          if \<not> ok then (None, s3) else (case rd_Del R src s3 of (d, s) \<Rightarrow> (if d then Some 1 else None, s))))"
  by (cases "rd_HGetAll R dest s1"; cases "fst (rd_HGetAll R dest s1)"; cases "ns = []")
    (simp_all add: mergeAndDelete_def merge_fields_def merge_write_def Let_def)

lemma merge_success:
  assumes R: "redis_ok R view" and "mergeAndDelete R src dest ex ns s = (Some 1, s')" and "src \<noteq> dest"
    and "view s src \<noteq> Map.empty"
  obtains sf df s2 s3 where "merge_write R dest ex ns sf df s2 = (True, s3)" and "rd_Del R src s3 = (True, s')"
    and "view s2 = view s" and "distinct (map fst sf)" and "map_of sf = relabel ex ns (view s src)" and "map_of df = view s dest"
proof -
  obtain sf s1 where g1: "rd_HGetAll R src s = (Some sf, s1)"
    using assms(2,3) by (cases "rd_HGetAll R src s"; cases "fst (rd_HGetAll R src s)") (auto simp: mergeAndDelete_def)
  note v1 = redis_okD(1) [OF R g1]
  then have sf: "sf \<noteq> []" using assms(4) by auto
  note run = mergeAndDelete_eq [OF assms(3) g1 sf, of ex ns]
  obtain df s2 where g2: "rd_HGetAll R dest s1 = (Some df, s2)"
    using assms(2) run by (cases "rd_HGetAll R dest s1"; cases "fst (rd_HGetAll R dest s1)") auto
  obtain s3 where w: "merge_write R dest ex ns (merge_fields ex ns sf) df s2 = (True, s3)" and d: "rd_Del R src s3 = (True, s')"
    using assms(2) run g2 by (auto split: prod.splits if_splits)
  have "distinct (map fst (merge_fields ex ns sf))" "map_of (merge_fields ex ns sf) = relabel ex ns (view s src)"
    using v1 by (auto simp: merge_fields_def relabel_def Let_def)
  with that [OF w d] v1 redis_okD(1) [OF R g2] show ?thesis by auto
qed

lemma merge_write_newer:
  assumes R: "redis_ok R view" and w: "merge_write R dest ex ns sf df s = (True, s')" and "distinct (map fst sf)"
    and "df = [] \<or> parseTimestamp sf \<ge> parseTimestamp df"
  shows "view s' = (view s)(dest := view s dest ++ map_of sf)"
proof -
  have "rd_HSet R dest (flattenFields sf) s = (True, s')" using w assms(4) by (simp add: merge_write_def)
  moreover have "map_of (rev (flattenFields sf)) = map_of sf" using flattenFields_map [OF assms(3)] by (simp add: map_of_rev_distinct)
  ultimately show ?thesis using redis_okD(3) [OF R] by (simp add: put_fields_def)
qed

lemma relabelled_put:
  assumes "redis_ok R view" and "relabelled dest h (view t)" and "f = ''exchange'' \<or> f = ''symbol''"
  shows "relabelled dest h (view (snd (rd_HSet R dest [(f, x)] t)))"
  using redis_okD(4) [OF assms(1), of dest "[(f, x)]" t]
proof
  assume "view (snd (rd_HSet R dest [(f, x)] t)) = put_fields dest [(f, x)] (view t)"
  with assms(2,3) show ?thesis by (auto simp: relabelled_def put_fields_def)
next
  assume "view (snd (rd_HSet R dest [(f, x)] t)) = view t"
  with assms(2) show ?thesis by simp
qed

lemma merge_write_older:
  assumes R: "redis_ok R view" and w: "merge_write R dest ex ns sf df s = (ok, s')"
    and "\<not> (df = [] \<or> parseTimestamp sf \<ge> parseTimestamp df)"
  shows "relabelled dest (view s) (view s')"
proof -
  have 0: "relabelled dest (view s) (view s)" by (simp add: relabelled_def)
  have 1: "relabelled dest (view s) (view (snd (rd_HSet R dest [(''exchange'', ex)] s)))" by (rule relabelled_put [OF R, OF 0]) simp
  have 2: "relabelled dest (view s) (view (snd (rd_HSet R dest [(''symbol'', ns)] (snd (rd_HSet R dest [(''exchange'', ex)] s)))))"
    using relabelled_put [OF R, OF 1, of "''symbol''" ns] by simp
  have "relabelled dest (view s) (view (snd (merge_write R dest ex ns sf df s)))"
    using assms(3) by (simp add: merge_write_def Let_def 0 1 2)
  then show ?thesis by (simp only: w snd_conv)
qed

text \<open>C25. Merging a legacy hash into its canonical key: when the code reports success, the source is gone,
  every other key is as before, and the destination has the fields of the newer of the two, by timestamp;
  the older destination is overwritten, and a newer destination changes at most its labels.\<close>

theorem mergeAndDelete_newest:
  assumes "redis_ok R view" and "mergeAndDelete R src dest ex ns s = (Some 1, s')" and "src \<noteq> dest"
    and "view s src \<noteq> Map.empty"
  shows "view s' src = Map.empty \<and> (\<forall>k. k \<noteq> src \<and> k \<noteq> dest \<longrightarrow> view s' k = view s k) \<and>
    (if view s dest = Map.empty \<or> ts_of (view s src) \<ge> ts_of (view s dest)
     then view s' dest = view s dest ++ relabel ex ns (view s src)
     else \<forall>f. f \<noteq> ''exchange'' \<and> f \<noteq> ''symbol'' \<longrightarrow> view s' dest f = view s dest f)"
proof -
  obtain sf df s2 s3 where w: "merge_write R dest ex ns sf df s2 = (True, s3)" and d: "rd_Del R src s3 = (True, s')"
    and v: "view s2 = view s" "distinct (map fst sf)" "map_of sf = relabel ex ns (view s src)" "map_of df = view s dest"
    using merge_success [OF assms] by metis
  have out: "view s' = (view s3)(src := Map.empty)" using redis_okD(5) [OF assms(1) d] .
  have "df = [] \<longleftrightarrow> view s dest = Map.empty" using v(4) by (cases df) auto
  then have newer: "df = [] \<or> parseTimestamp sf \<ge> parseTimestamp df \<longleftrightarrow>
      view s dest = Map.empty \<or> ts_of (view s src) \<ge> ts_of (view s dest)"
    by (simp add: parseTimestamp_view v ts_of_relabel)
  show ?thesis
  proof (cases "df = [] \<or> parseTimestamp sf \<ge> parseTimestamp df")
    case True
    from merge_write_newer [OF assms(1) w v(2) True] True out newer assms(3) v(1,3) show ?thesis by simp
  next
    case False
    from merge_write_older [OF assms(1) w False] False out newer assms(3) v(1) show ?thesis by (simp add: relabelled_def)
  qed
qed

definition demo_hash :: "string \<Rightarrow> (string \<times> string) list" where
  "demo_hash ts = [(''price'', ''1.5''), (''timestamp'', ts), (''exchange'', ''Bybit'')]"

definition demo_store :: "(string, (string, string) gomap) gomap" where
  "demo_store = [(''price:Bybit:BTC'', demo_hash ''20''), (''price:bybit:BTC'', demo_hash ''10'')]"

lemma demo_merge: "fst (mergeAndDelete mem_redis ''price:Bybit:BTC'' ''price:bybit:BTC'' ''bybit'' ''BTC'' demo_store) = Some 1"
  by code_simp

theorem mergeAndDelete_newest_witness:
  "mem_view (snd (mergeAndDelete mem_redis ''price:Bybit:BTC'' ''price:bybit:BTC'' ''bybit'' ''BTC'' demo_store))
     ''price:Bybit:BTC'' = Map.empty"
proof -
  have "mergeAndDelete mem_redis ''price:Bybit:BTC'' ''price:bybit:BTC'' ''bybit'' ''BTC'' demo_store =
      (Some 1, snd (mergeAndDelete mem_redis ''price:Bybit:BTC'' ''price:bybit:BTC'' ''bybit'' ''BTC'' demo_store))"
    using demo_merge by (metis prod.collapse)
  moreover have "mem_view demo_store ''price:Bybit:BTC'' ''price'' \<noteq> None" by code_simp
  then have "mem_view demo_store ''price:Bybit:BTC'' \<noteq> Map.empty" by metis
  ultimately show ?thesis
    using mergeAndDelete_newest [OF mem_redis_ok] by fastforce
qed

subsection \<open>Canonical keys\<close>

lemma split_on_sep: "split_on c (a @ c # b) = split_on c a @ split_on c b"
proof (induction a)
  case (Cons x a)
  then show ?case by (cases "split_on c a") auto
qed simp

lemma split_on_none: "c \<notin> set s \<Longrightarrow> split_on c s = [s]"
  by (induction s) auto

definition key3 :: "string \<Rightarrow> string \<Rightarrow> string \<Rightarrow> string" where
  "key3 a b c = a @ '':'' @ b @ '':'' @ c"

lemma split_key3: "CHR '':'' \<notin> set a \<Longrightarrow> split_on CHR '':'' (key3 a b c) = a # split_on CHR '':'' b @ split_on CHR '':'' c"
  using split_on_sep [of "CHR '':''" a "b @ CHR '':'' # c"] by (simp add: key3_def split_on_sep split_on_none)

text \<open>The symbol under which the clean-up stores a price.\<close>

definition canonical_symbol :: "string \<Rightarrow> string \<Rightarrow> string" where
  "canonical_symbol lower symbol =
     (if lower = ''gate'' \<and> \<not> contains symbol ''_'' then BybitToGateSymbol (to_upper symbol) else symbol)"

lemma BybitToGateSymbol_set: "set (BybitToGateSymbol s) \<subseteq> insert CHR ''_'' (set s)"
proof (cases "5 \<le> length s")
  case True
  from BybitToGateSymbol_long [OF this] show ?thesis by auto
next
  case False
  then have "BybitToGateSymbol s = s" by (simp add: BybitToGateSymbol_def)
  then show ?thesis by auto
qed

lemma BybitToGateSymbol_trimmed: "trimmed s \<Longrightarrow> trimmed (BybitToGateSymbol s)"
proof (cases "5 \<le> length s")
  case True
  assume t: "trimmed s"
  from BybitToGateSymbol_long [OF True] obtain b q where
    "b \<noteq> []" "q \<noteq> []" "s = b @ q" "BybitToGateSymbol s = b @ ''_'' @ q" by blast
  with t show ?thesis by (auto simp: trimmed_def)
next
  case False
  then have "BybitToGateSymbol s = s" by (simp add: BybitToGateSymbol_def)
  then show "trimmed s \<Longrightarrow> trimmed (BybitToGateSymbol s)" by simp
qed

lemma upper_char_sep: "upper_char c = CHR '':'' \<Longrightarrow> c = CHR '':''"
proof -
  assume "upper_char c = CHR '':''"
  then have "(of_char (upper_char c) :: nat) = 58" by simp
  then have "(of_char c :: nat) = 58" by (auto simp: upper_char_def Let_def split: if_splits)
  then have "(of_char c :: nat) = of_char (CHR '':'')" by simp
  then show ?thesis by (simp only: of_char_eq_iff)
qed

lemma normalizeKey_price:
  assumes "CHR '':'' \<notin> set symbol" and "exchange \<noteq> []"
  shows "normalizeKey R ''price'' (key3 ''price'' exchange symbol) s =
    (let lower = NormalizeExchangeName exchange; symbol' = trim_space symbol in
     if lower = to_lower (trim_space exchange) \<and> (lower \<noteq> ''gate'' \<or> contains symbol' ''_'') then (Some 0, s)
     else mergeAndDelete R (key3 ''price'' exchange symbol) (key3 ''price'' lower (canonical_symbol lower symbol'))
       lower (canonical_symbol lower symbol') s)"
proof -
  have parts: "split_on CHR '':'' (key3 ''price'' exchange symbol) = ''price'' # split_on CHR '':'' exchange @ [symbol]"
    using assms(1) by (simp add: split_key3 split_on_none)
  obtain p ps where ps: "split_on CHR '':'' exchange = p # ps" by (cases "split_on CHR '':'' exchange") auto
  have "join_with '':'' (split_on CHR '':'' exchange) = exchange" by (rule join_split)
  with parts ps show ?thesis
    using assms(2) by (auto simp: normalizeKey_def Let_def butlast_append canonical_symbol_def key3_def)
qed

lemma canonical_symbol_chars:
  assumes "CHR '':'' \<notin> set symbol" shows "CHR '':'' \<notin> set (canonical_symbol lower symbol)"
proof -
  have "CHR '':'' \<notin> set (to_upper symbol)" using assms by (auto simp: to_upper_def dest: upper_char_sep [OF sym])
  with BybitToGateSymbol_set [of "to_upper symbol"] assms show ?thesis by (auto simp: canonical_symbol_def)
qed

lemma NormalizeExchangeName_fix: "to_lower (trim_space (NormalizeExchangeName n)) = NormalizeExchangeName n"
  by (simp add: trimmed_fix NormalizeExchangeName_trimmed NormalizeExchangeName_lower)



subsection \<open>The scan ends\<close>



end
