(* ===== verification/Assets.thy ===== *)
theory Assets
  imports Eth
begin

text \<open>
  \<open>internal/assets\<close>: token metadata (\<open>token.go\<close>), the validation of the YAML registry
  (\<open>loader.go\<close>) and the provider's indexes and lookups (\<open>provider.go\<close>). The decoded YAML is the
  list of its networks in the order the loop visits them.
\<close>

subsection \<open>token.go\<close>

datatype TokenType = TokenTypeStable | TokenTypeNative | TokenTypeOther string

record TokenInfo =
  ti_Symbol :: string
  ti_Address :: address
  ti_Decimals :: "8 word"
  ti_Type :: TokenType
  ti_ChainID :: "64 word"
  ti_Wrapped :: bool

definition IsZero :: "TokenInfo \<Rightarrow> bool" where
  "IsZero t \<longleftrightarrow> ti_Address t = 0 \<or> trim_space (ti_Symbol t) = []"

definition WithType :: "TokenInfo \<Rightarrow> TokenType \<Rightarrow> TokenInfo" where
  "WithType t typ = t\<lparr>ti_Type := typ\<rparr>"

definition CanonicalSymbol :: "TokenInfo \<Rightarrow> string" where
  "CanonicalSymbol t = to_upper (trim_space (ti_Symbol t))"

subsection \<open>loader.go\<close>

record fileToken =
  ft_Symbol :: string
  ft_Address :: string
  ft_Decimals :: int
  ft_Wrapped :: bool

record fileNetwork =
  fn_ChainID :: "64 word"
  fn_Stable :: "fileToken list"
  fn_Native :: "fileToken list"

record NetworkCatalog =
  nc_Name :: string
  nc_Chain :: "64 word"
  nc_Stable :: "TokenInfo list"
  nc_Native :: "TokenInfo list"

datatype assets_error =
    ReadRegistry | EmptyPayload | DecodeRegistry | NoNetworks | NetworkNameEmpty
  | MissingChainID string
  | MissingSymbol nat string TokenType
  | InvalidAddress string string TokenType
  | InvalidDecimals string string TokenType int
  | MandatoryMissing string string TokenType
  | DuplicateSymbol string string TokenType
  | DuplicateAddress address string TokenType

definition convertToken ::
    "eth_lib \<Rightarrow> fileToken \<Rightarrow> 64 word \<Rightarrow> TokenType \<Rightarrow> string \<Rightarrow> nat \<Rightarrow> (assets_error, TokenInfo) result" where
  "convertToken E tok chainID typ network idx =
     (let symbol = to_upper (trim_space (ft_Symbol tok)); addrStr = trim_space (ft_Address tok) in
      if symbol = [] then Inl (MissingSymbol idx network typ)
      else if \<not> eth_IsHexAddress E addrStr then Inl (InvalidAddress symbol network typ)
      else if ft_Decimals tok \<le> 0 \<or> ft_Decimals tok > 255
        then Inl (InvalidDecimals symbol network typ (ft_Decimals tok))
      else (let info = WithType \<lparr>ti_Symbol = symbol, ti_Address = eth_HexToAddress E addrStr,
                  ti_Decimals = word_of_int (ft_Decimals tok), ti_Type = TokenTypeOther [],
                  ti_ChainID = chainID, ti_Wrapped = ft_Wrapped tok\<rparr> typ
            in if IsZero info then Inl (MandatoryMissing symbol network typ) else Inr info))"

text \<open>The loop over a token list with its two maps of seen keys.\<close>

fun convert_loop ::
    "eth_lib \<Rightarrow> 64 word \<Rightarrow> TokenType \<Rightarrow> string \<Rightarrow> nat \<Rightarrow> string list \<Rightarrow> string list \<Rightarrow> fileToken list
     \<Rightarrow> (assets_error, TokenInfo list) result" where
  "convert_loop E chainID typ network idx seenSymbols seenAddresses [] = Inr []"
| "convert_loop E chainID typ network idx seenSymbols seenAddresses (t # ts) =
     (case convertToken E t chainID typ network idx of Inl e \<Rightarrow> Inl e
      | Inr info \<Rightarrow>
          (let symKey = CanonicalSymbol info; addrKey = lower_hex E (ti_Address info) in
           if symKey \<in> set seenSymbols then Inl (DuplicateSymbol (ti_Symbol info) network typ)
           else if addrKey \<in> set seenAddresses then Inl (DuplicateAddress (ti_Address info) network typ)
           else (case convert_loop E chainID typ network (Suc idx) (symKey # seenSymbols)
                   (addrKey # seenAddresses) ts of Inl e \<Rightarrow> Inl e | Inr rest \<Rightarrow> Inr (info # rest))))"

definition convertTokens ::
    "eth_lib \<Rightarrow> fileToken list \<Rightarrow> 64 word \<Rightarrow> TokenType \<Rightarrow> string \<Rightarrow> (assets_error, TokenInfo list) result" where
  "convertTokens E tokens chainID typ network = convert_loop E chainID typ network 0 [] [] tokens"

definition convertNetwork :: "eth_lib \<Rightarrow> string \<Rightarrow> fileNetwork \<Rightarrow> (assets_error, NetworkCatalog) result" where
  "convertNetwork E name0 raw =
     (let name = trim_space name0 in
      if name = [] then Inl NetworkNameEmpty
      else if fn_ChainID raw = 0 then Inl (MissingChainID name)
      else bind_res (convertTokens E (fn_Stable raw) (fn_ChainID raw) TokenTypeStable name) (\<lambda>stable.
           bind_res (convertTokens E (fn_Native raw) (fn_ChainID raw) TokenTypeNative name) (\<lambda>native.
           Inr \<lparr>nc_Name = name, nc_Chain = fn_ChainID raw, nc_Stable = stable, nc_Native = native\<rparr>)))"

text \<open>
  The payload: its length and what YAML decoding gives, the networks in the order of the range.
  The catalogs are keyed by the names as written.
\<close>

definition ParseRegistryYAML ::
    "eth_lib \<Rightarrow> nat \<Rightarrow> (string \<times> fileNetwork) list option \<Rightarrow> (assets_error, (string \<times> NetworkCatalog) list) result" where
  "ParseRegistryYAML E sz decoded =
     (if sz = 0 then Inl EmptyPayload
      else case decoded of None \<Rightarrow> Inl DecodeRegistry
        | Some raw \<Rightarrow> if raw = [] then Inl NoNetworks
            else map_res (\<lambda>(name, net). bind_res (convertNetwork E name net) (\<lambda>c. Inr (name, c))) raw)"

definition LoadRegistryFromFile ::
    "eth_lib \<Rightarrow> (string \<Rightarrow> string option) \<Rightarrow> (string \<Rightarrow> (string \<times> fileNetwork) list option) \<Rightarrow> string
     \<Rightarrow> (assets_error, (string \<times> NetworkCatalog) list) result" where
  "LoadRegistryFromFile E read_file decode path =
     (case read_file path of None \<Rightarrow> Inl ReadRegistry
      | Some data \<Rightarrow> ParseRegistryYAML E (length data) (decode data))"

subsection \<open>provider.go\<close>

record Provider =
  p_catalogs :: "(string, NetworkCatalog) gomap"
  p_byChainTokens :: "64 word \<rightharpoonup> (TokenType \<Rightarrow> TokenInfo list)"
  p_byChainSymbol :: "64 word \<rightharpoonup> (string \<rightharpoonup> TokenInfo)"
  p_byChainAddr :: "64 word \<rightharpoonup> (string \<rightharpoonup> TokenInfo)"

definition empty_provider :: Provider where
  "empty_provider = \<lparr>p_catalogs = [], p_byChainTokens = Map.empty, p_byChainSymbol = Map.empty,
     p_byChainAddr = Map.empty\<rparr>"

text \<open>One token goes into the three indexes of its chain.\<close>

definition index_token :: "eth_lib \<Rightarrow> 64 word \<Rightarrow> TokenType \<Rightarrow> TokenInfo \<Rightarrow> Provider \<Rightarrow> Provider" where
  "index_token E chainID typ token p = p\<lparr>
     p_byChainTokens := (p_byChainTokens p)(chainID \<mapsto>
        (let m = (case p_byChainTokens p chainID of Some m \<Rightarrow> m | None \<Rightarrow> \<lambda>_. []) in m(typ := m typ @ [token]))),
     p_byChainSymbol := (p_byChainSymbol p)(chainID \<mapsto>
        (case p_byChainSymbol p chainID of Some m \<Rightarrow> m | None \<Rightarrow> Map.empty)(CanonicalSymbol token \<mapsto> token)),
     p_byChainAddr := (p_byChainAddr p)(chainID \<mapsto>
        (case p_byChainAddr p chainID of Some m \<Rightarrow> m | None \<Rightarrow> Map.empty)(lower_hex E (ti_Address token) \<mapsto> token))\<rparr>"

definition indexTokensLocked :: "eth_lib \<Rightarrow> 64 word \<Rightarrow> TokenInfo list \<Rightarrow> TokenType \<Rightarrow> Provider \<Rightarrow> Provider" where
  "indexTokensLocked E chainID tokens typ p =
     (if chainID = 0 \<or> tokens = [] then p
      else (let p = (if p_byChainTokens p chainID = None
                 then p\<lparr>p_byChainTokens := (p_byChainTokens p)(chainID \<mapsto> (\<lambda>_. [])),
                        p_byChainSymbol := (p_byChainSymbol p)(chainID \<mapsto> Map.empty),
                        p_byChainAddr := (p_byChainAddr p)(chainID \<mapsto> Map.empty)\<rparr>
                 else p)
            in fold (index_token E chainID typ) tokens p))"

definition add_catalog :: "eth_lib \<Rightarrow> string \<times> NetworkCatalog \<Rightarrow> Provider \<Rightarrow> Provider" where
  "add_catalog E entry p =
     (let (rawName, catalog) = entry; key = trim_space rawName;
          p = p\<lparr>p_catalogs := mput key (catalog\<lparr>nc_Name := key\<rparr>) (p_catalogs p)\<rparr>;
          p = indexTokensLocked E (nc_Chain catalog) (nc_Stable catalog) TokenTypeStable p
      in indexTokensLocked E (nc_Chain catalog) (nc_Native catalog) TokenTypeNative p)"

definition NewProvider :: "eth_lib \<Rightarrow> (string \<times> NetworkCatalog) list \<Rightarrow> Provider" where
  "NewProvider E catalogs = fold (add_catalog E) catalogs empty_provider"

definition TokensByNetwork :: "Provider \<Rightarrow> string \<Rightarrow> TokenType \<Rightarrow> TokenInfo list" where
  "TokensByNetwork p network typ =
     (case map_of (p_catalogs p) (trim_space network) of None \<Rightarrow> []
      | Some catalog \<Rightarrow> (case typ of TokenTypeStable \<Rightarrow> nc_Stable catalog
          | TokenTypeNative \<Rightarrow> nc_Native catalog | TokenTypeOther _ \<Rightarrow> []))"

definition TokensByChain :: "Provider \<Rightarrow> 64 word \<Rightarrow> TokenType \<Rightarrow> TokenInfo list" where
  "TokensByChain p chainID typ =
     (case p_byChainTokens p chainID of None \<Rightarrow> [] | Some tokensByType \<Rightarrow> tokensByType typ)"

definition FindBySymbol :: "Provider \<Rightarrow> 64 word \<Rightarrow> string \<Rightarrow> TokenInfo option" where
  "FindBySymbol p chainID symbol =
     (case p_byChainSymbol p chainID of None \<Rightarrow> None | Some bySym \<Rightarrow> bySym (to_upper (trim_space symbol)))"

definition FindByAddress :: "eth_lib \<Rightarrow> Provider \<Rightarrow> 64 word \<Rightarrow> address \<Rightarrow> TokenInfo option" where
  "FindByAddress E p chainID addr =
     (case p_byChainAddr p chainID of None \<Rightarrow> None | Some byAddr \<Rightarrow> byAddr (lower_hex E addr))"

definition NetworkNames :: "Provider \<Rightarrow> string list" where
  "NetworkNames p = sort (map fst (p_catalogs p))"

text \<open>The cache of providers by path: a path already loaded is not read again.\<close>

definition LoadOrGetProvider ::
    "eth_lib \<Rightarrow> (string \<Rightarrow> (assets_error, (string \<times> NetworkCatalog) list) result) \<Rightarrow> string
     \<Rightarrow> (string \<rightharpoonup> Provider) \<Rightarrow> (assets_error, Provider) result \<times> (string \<rightharpoonup> Provider)" where
  "LoadOrGetProvider E load path cache =
     (case cache path of Some p \<Rightarrow> (Inr p, cache)
      | None \<Rightarrow> (case load path of Inl e \<Rightarrow> (Inl e, cache)
          | Inr catalogs \<Rightarrow> (let provider = NewProvider E catalogs in (Inr provider, cache(path \<mapsto> provider)))))"

subsection \<open>Lemmas: what validation guarantees\<close>

definition token_ok :: "64 word \<Rightarrow> TokenType \<Rightarrow> TokenInfo \<Rightarrow> bool" where
  "token_ok chainID typ t \<longleftrightarrow> ti_Address t \<noteq> 0 \<and> ti_Symbol t \<noteq> [] \<and> CanonicalSymbol t = ti_Symbol t \<and>
     1 \<le> unat (ti_Decimals t) \<and> ti_Type t = typ \<and> ti_ChainID t = chainID"

lemma convertToken_ok:
  assumes "convertToken E tok chainID typ network idx = Inr info"
  shows "token_ok chainID typ info" and "int (unat (ti_Decimals info)) = ft_Decimals tok"
proof -
  from assms have d: "1 \<le> ft_Decimals tok" "ft_Decimals tok \<le> 255"
    and i: "ti_Decimals info = word_of_int (ft_Decimals tok)"
    by (auto simp: convertToken_def Let_def WithType_def split: if_splits)
  from d have "uint (word_of_int (ft_Decimals tok) :: 8 word) = ft_Decimals tok"
    by (simp add: uint_word_of_int take_bit_eq_mod)
  then show u: "int (unat (ti_Decimals info)) = ft_Decimals tok" by (simp add: i)
  from u d have u1: "1 \<le> unat (ti_Decimals info)" by linarith
  have rest: "ti_Address info \<noteq> 0 \<and> ti_Symbol info \<noteq> [] \<and> CanonicalSymbol info = ti_Symbol info \<and>
      ti_Type info = typ \<and> ti_ChainID info = chainID"
    using assms by (auto simp: convertToken_def Let_def WithType_def IsZero_def CanonicalSymbol_def
        trim_to_upper split: if_splits)
  with u1 show "token_ok chainID typ info" by (simp add: token_ok_def)
qed

lemma convert_loop_ok:
  assumes "convert_loop E chainID typ network idx ss sa ts = Inr infos"
  shows "list_all (token_ok chainID typ) infos"
    and "length infos = length ts"
    and "distinct (map CanonicalSymbol infos)" and "set (map CanonicalSymbol infos) \<inter> set ss = {}"
    and "distinct (map (lower_hex E \<circ> ti_Address) infos)"
    and "set (map (lower_hex E \<circ> ti_Address) infos) \<inter> set sa = {}"
  using assms
  by (induction E chainID "typ" network idx ss sa ts arbitrary: infos rule: convert_loop.induct)
    (fastforce simp: Let_def split: sum.splits if_splits dest: convertToken_ok(1))+

definition catalog_ok :: "NetworkCatalog \<Rightarrow> bool" where
  "catalog_ok c \<longleftrightarrow> nc_Chain c \<noteq> 0 \<and> nc_Name c \<noteq> [] \<and> trimmed (nc_Name c) \<and>
     (\<forall>t \<in> set (nc_Stable c). token_ok (nc_Chain c) TokenTypeStable t) \<and>
     (\<forall>t \<in> set (nc_Native c). token_ok (nc_Chain c) TokenTypeNative t) \<and>
     distinct (map ti_Symbol (nc_Stable c)) \<and> distinct (map ti_Address (nc_Stable c)) \<and>
     distinct (map ti_Symbol (nc_Native c)) \<and> distinct (map ti_Address (nc_Native c))"

lemma convertTokens_ok:
  assumes "convertTokens E tokens chainID typ network = Inr infos"
  shows "\<forall>t \<in> set infos. token_ok chainID typ t" and "distinct (map ti_Symbol infos)"
    and "distinct (map ti_Address infos)"
proof -
  note l = convert_loop_ok [OF assms [unfolded convertTokens_def]]
  show ok: "\<forall>t \<in> set infos. token_ok chainID typ t" using l(1) by (simp add: list_all_iff)
  then have "map CanonicalSymbol infos = map ti_Symbol infos" by (auto simp: token_ok_def)
  with l(3) show "distinct (map ti_Symbol infos)" by simp
  from l(5) show "distinct (map ti_Address infos)" by (metis distinct_map map_map)
qed

lemma convertNetwork_ok: "convertNetwork E name raw = Inr c \<Longrightarrow> catalog_ok c"
  by (auto simp: convertNetwork_def Let_def bind_res_Inr_iff catalog_ok_def split: if_splits
      dest: convertTokens_ok)

subsection \<open>Lemmas: the indexes\<close>

text \<open>
  The lookup contract of an index: a key is found exactly when some indexed token has it, and
  the token found has the key looked up.
\<close>

locale token_index =
  fixes key :: "TokenInfo \<Rightarrow> 'k" and indexed :: "'p \<Rightarrow> TokenInfo set" and find :: "'p \<Rightarrow> 'k \<Rightarrow> TokenInfo option"
    and inv :: "'p \<Rightarrow> bool"
  assumes find_sound: "inv p \<Longrightarrow> find p k = Some t \<Longrightarrow> t \<in> indexed p \<and> key t = k"
    and find_complete: "inv p \<Longrightarrow> t \<in> indexed p \<Longrightarrow> find p (key t) \<noteq> None"
begin

lemma find_None_iff: "inv p \<Longrightarrow> find p k = None \<longleftrightarrow> k \<notin> key ` indexed p"
  using find_sound find_complete by (metis image_iff not_None_eq)

lemma find_unique: "inv p \<Longrightarrow> inj_on key (indexed p) \<Longrightarrow> t \<in> indexed p \<Longrightarrow> find p (key t) = Some t"
  using find_sound find_complete by (metis inj_onD not_None_eq)

end

text \<open>The tokens of a chain in a provider, and the invariant that ties the three indexes together.\<close>

definition chain_tokens :: "Provider \<Rightarrow> 64 word \<Rightarrow> TokenInfo set" where
  "chain_tokens p c = (case p_byChainTokens p c of None \<Rightarrow> {} | Some m \<Rightarrow> \<Union> (set ` range m))"

definition provider_inv :: "eth_lib \<Rightarrow> Provider \<Rightarrow> bool" where
  "provider_inv E p \<longleftrightarrow> (\<forall>c.
     (\<forall>k t. FindBySymbol p c k = Some t \<longrightarrow> t \<in> chain_tokens p c \<and> CanonicalSymbol t = to_upper (trim_space k)) \<and>
     (\<forall>a t. FindByAddress E p c a = Some t \<longrightarrow> t \<in> chain_tokens p c \<and> ti_Address t = a) \<and>
     (\<forall>t \<in> chain_tokens p c. FindBySymbol p c (CanonicalSymbol t) \<noteq> None \<and> FindByAddress E p c (ti_Address t) \<noteq> None))"

lemma chain_tokens_index [simp]:
  "chain_tokens (index_token E c typ t p) d = (if d = c then insert t (chain_tokens p c) else chain_tokens p d)"
  by (auto simp: index_token_def chain_tokens_def Let_def split: option.splits if_splits)

lemma FindBySymbol_index [simp]:
  "FindBySymbol (index_token E c typ t p) d k =
     (if d = c \<and> to_upper (trim_space k) = CanonicalSymbol t then Some t else FindBySymbol p d k)"
  by (auto simp: index_token_def FindBySymbol_def split: option.splits)

lemma FindByAddress_index:
  "eth_ok E \<Longrightarrow> FindByAddress E (index_token E c typ t p) d a =
     (if d = c \<and> a = ti_Address t then Some t else FindByAddress E p d a)"
  by (auto simp: index_token_def FindByAddress_def lower_hex_inj split: option.splits)

lemma CanonicalSymbol_trimmed: "to_upper (trim_space (CanonicalSymbol t)) = CanonicalSymbol t"
  by (simp add: CanonicalSymbol_def trim_to_upper)

lemma provider_inv_index: "eth_ok E \<Longrightarrow> provider_inv E p \<Longrightarrow> provider_inv E (index_token E c typ t p)"
  unfolding provider_inv_def by (simp add: FindByAddress_index CanonicalSymbol_trimmed)

lemma provider_inv_fold_index:
  "eth_ok E \<Longrightarrow> provider_inv E p \<Longrightarrow> provider_inv E (fold (index_token E c typ) ts p)"
  by (induction ts arbitrary: p) (simp_all add: provider_inv_index)

lemma chain_tokens_fold_index:
  "chain_tokens (fold (index_token E c typ) ts p) d =
     (if d = c then set ts \<union> chain_tokens p d else chain_tokens p d)"
  by (induction ts arbitrary: p) auto

lemma provider_inv_init_chain:
  assumes "provider_inv E p" and "p_byChainTokens p c = None"
  shows "provider_inv E (p\<lparr>p_byChainTokens := (p_byChainTokens p)(c \<mapsto> (\<lambda>_. [])),
      p_byChainSymbol := (p_byChainSymbol p)(c \<mapsto> Map.empty),
      p_byChainAddr := (p_byChainAddr p)(c \<mapsto> Map.empty)\<rparr>)"
  using assms by (simp add: provider_inv_def chain_tokens_def FindBySymbol_def FindByAddress_def)

lemma chain_tokens_init_chain:
  "p_byChainTokens p c = None \<Longrightarrow> chain_tokens (p\<lparr>p_byChainTokens := (p_byChainTokens p)(c \<mapsto> (\<lambda>_. [])),
      p_byChainSymbol := S, p_byChainAddr := A\<rparr>) d = chain_tokens p d"
  by (simp add: chain_tokens_def)

lemma indexTokens_inv:
  "eth_ok E \<Longrightarrow> provider_inv E p \<Longrightarrow> provider_inv E (indexTokensLocked E c ts typ p)"
  by (simp add: indexTokensLocked_def Let_def provider_inv_fold_index provider_inv_init_chain)

lemma indexTokens_tokens:
  "chain_tokens (indexTokensLocked E c ts typ p) d =
     (if d = c \<and> c \<noteq> 0 then set ts \<union> chain_tokens p d else chain_tokens p d)"
  by (auto simp: indexTokensLocked_def Let_def chain_tokens_fold_index chain_tokens_init_chain)

lemma catalogs_frame [simp]:
  "provider_inv E (p\<lparr>p_catalogs := m\<rparr>) = provider_inv E p"
  "chain_tokens (p\<lparr>p_catalogs := m\<rparr>) d = chain_tokens p d"
  by (simp_all add: provider_inv_def chain_tokens_def FindBySymbol_def FindByAddress_def)

lemma add_catalog_inv: "eth_ok E \<Longrightarrow> provider_inv E p \<Longrightarrow> provider_inv E (add_catalog E e p)"
  by (simp add: add_catalog_def Let_def indexTokens_inv split: prod.splits)

lemma add_catalog_tokens:
  "chain_tokens (add_catalog E (n, c) p) d = chain_tokens p d \<union>
     (if d = nc_Chain c \<and> d \<noteq> 0 then set (nc_Stable c) \<union> set (nc_Native c) else {})"
  by (auto simp: add_catalog_def Let_def indexTokens_tokens)

lemma fold_catalogs_inv: "eth_ok E \<Longrightarrow> provider_inv E p \<Longrightarrow> provider_inv E (fold (add_catalog E) cs p)"
  by (induction cs arbitrary: p) (simp_all add: add_catalog_inv)

lemma fold_catalogs_tokens:
  "chain_tokens (fold (add_catalog E) cs p) d = chain_tokens p d \<union>
     {t. d \<noteq> 0 \<and> (\<exists>(n, c) \<in> set cs. nc_Chain c = d \<and> t \<in> set (nc_Stable c) \<union> set (nc_Native c))}"
proof (induction cs arbitrary: p)
  case (Cons e cs)
  obtain n c where "e = (n, c)" by fastforce
  then show ?case by (auto simp: Cons add_catalog_tokens)
qed simp

lemma NewProvider_inv: "eth_ok E \<Longrightarrow> provider_inv E (NewProvider E cs)"
  unfolding NewProvider_def
  by (rule fold_catalogs_inv)
    (simp_all add: provider_inv_def empty_provider_def chain_tokens_def FindBySymbol_def FindByAddress_def)

lemma NewProvider_tokens:
  "chain_tokens (NewProvider E cs) d =
     {t. d \<noteq> 0 \<and> (\<exists>(n, c) \<in> set cs. nc_Chain c = d \<and> t \<in> set (nc_Stable c) \<union> set (nc_Native c))}"
  by (simp add: NewProvider_def fold_catalogs_tokens) (simp add: empty_provider_def chain_tokens_def)

text \<open>Both lookups of the provider are such an index.\<close>

interpretation by_addr: token_index ti_Address "\<lambda>p. chain_tokens p c" "\<lambda>p. FindByAddress E p c" "provider_inv E"
  for E c
  by unfold_locales (auto simp: provider_inv_def)

interpretation by_symbol: token_index CanonicalSymbol "\<lambda>p. chain_tokens p c"
  "\<lambda>p k. if to_upper (trim_space k) = k then FindBySymbol p c k else None" "provider_inv E"
  for E c
  by unfold_locales (auto simp: provider_inv_def CanonicalSymbol_trimmed split: if_splits)

end
