(* ===== verification/Graph_Pricer.thy ===== *)
theory Graph_Pricer
  imports Pricer Assets
begin

text \<open>
  \<open>internal/dex/pricing/graph_pricer.go\<close>: the price graph between tokens and the search for a
  dollar price. Go ranges over a map in no fixed order; the order of the \<open>n\<close>-th range loop of a
  search is the parameter \<open>ord n\<close>, a permutation of the edges (\<open>range_order\<close>). The current time
  is a parameter. The operations run under the pricer's lock and are single steps.
\<close>

record edge =
  e_price :: f64
  e_weight :: f64
  e_updatedAt :: time

record GraphPricer =
  g_edges :: "string \<rightharpoonup> (string, edge) gomap"
  g_symbols :: "string \<rightharpoonup> string"
  g_stables :: "string \<Rightarrow> bool"
  g_maxHops :: nat

definition defaultMaxHops :: nat where "defaultMaxHops = 3"
definition minWeightEpsilon :: f64 where "minWeightEpsilon = f64_of_rat (1 / 10 ^ 9)"
definition equalWeightEpsilon :: f64 where "equalWeightEpsilon = f64_of_rat (1 / 10 ^ 6)"

definition normalizeAddr :: "eth_lib \<Rightarrow> address \<Rightarrow> string" where
  "normalizeAddr E addr = (if addr = 0 then [] else lower_hex E addr)"

definition newGraphPricer :: GraphPricer where
  "newGraphPricer = \<lparr>g_edges = Map.empty, g_symbols = Map.empty, g_stables = (\<lambda>_. False),
     g_maxHops = defaultMaxHops\<rparr>"

definition token_label :: "string \<Rightarrow> PToken \<Rightarrow> string" where
  "token_label addr token = (let symbol = to_upper (trim_space (pt_Symbol token)) in
     if symbol = [] then addr else symbol)"

definition RegisterToken :: "eth_lib \<Rightarrow> PToken \<Rightarrow> GraphPricer \<Rightarrow> GraphPricer" where
  "RegisterToken E token g =
     (let addr = normalizeAddr E (pt_Address token) in
      if addr = [] then g
      else g\<lparr>g_symbols := (g_symbols g)(addr \<mapsto> token_label addr token)\<rparr>)"

definition RegisterStable :: "eth_lib \<Rightarrow> PToken \<Rightarrow> GraphPricer \<Rightarrow> GraphPricer" where
  "RegisterStable E token g =
     (let addr = normalizeAddr E (pt_Address token) in
      if addr = [] then g
      else g\<lparr>g_symbols := (g_symbols g)(addr \<mapsto> token_label addr token),
             g_stables := (g_stables g)(addr := True)\<rparr>)"

definition registerAnchors :: "eth_lib \<Rightarrow> PToken list \<Rightarrow> GraphPricer \<Rightarrow> GraphPricer" where
  "registerAnchors E anchors g = fold (RegisterStable E) anchors g"

definition NewGraphPricer :: "eth_lib \<Rightarrow> PToken list \<Rightarrow> GraphPricer" where
  "NewGraphPricer E stables = registerAnchors E stables newGraphPricer"

text \<open>
  \<open>anchorsFromProvider\<close>: the stable tokens of the networks asked for, the first per address,
  ordered by symbol and address. The loop keeps them in a map by address, which is then sorted.
\<close>

fun anchor_tokens :: "eth_lib \<Rightarrow> TokenInfo list \<Rightarrow> (string, PToken) gomap \<Rightarrow> (string, PToken) gomap" where
  "anchor_tokens E [] m = m"
| "anchor_tokens E (token # ts) m =
     (let addr = normalizeAddr E (ti_Address token) in
      if addr = [] then anchor_tokens E ts m
      else if map_of m addr \<noteq> None then anchor_tokens E ts m
      else anchor_tokens E ts (mput addr \<lparr>pt_Address = ti_Address token, pt_Symbol = ti_Symbol token,
             pt_Decimals = int (unat (ti_Decimals token))\<rparr> m))"

fun anchor_networks :: "eth_lib \<Rightarrow> Provider \<Rightarrow> string list \<Rightarrow> (string, PToken) gomap \<Rightarrow> (string, PToken) gomap" where
  "anchor_networks E p [] m = m"
| "anchor_networks E p (raw # rest) m =
     (let network = trim_space raw in
      if network = [] then anchor_networks E p rest m
      else anchor_networks E p rest (anchor_tokens E (TokensByNetwork p network TokenTypeStable) m))"

definition anchorsFromProvider :: "eth_lib \<Rightarrow> Provider option \<Rightarrow> string list \<Rightarrow> PToken list" where
  "anchorsFromProvider E provider networks =
     (case provider of None \<Rightarrow> []
      | Some p \<Rightarrow>
          (let requested = (if networks = [] then NetworkNames p else networks);
               anchorByAddr = anchor_networks E p requested []
           in sort_key (\<lambda>t. (pt_Symbol t, normalizeAddr E (pt_Address t))) (map snd anchorByAddr)))"

definition NewGraphPricerFromAssets :: "eth_lib \<Rightarrow> Provider option \<Rightarrow> string list \<Rightarrow> PToken list \<Rightarrow> GraphPricer" where
  "NewGraphPricerFromAssets E provider networks fallback =
     (let anchors = anchorsFromProvider E provider networks in
      registerAnchors E (if anchors \<noteq> [] then anchors else if fallback \<noteq> [] then fallback else anchors) newGraphPricer)"

subsection \<open>Updating an edge\<close>

definition edges_of :: "GraphPricer \<Rightarrow> string \<Rightarrow> (string, edge) gomap" where
  "edges_of g a = (case g_edges g a of None \<Rightarrow> [] | Some es \<Rightarrow> es)"

definition setEdgeLocked :: "string \<Rightarrow> string \<Rightarrow> f64 \<Rightarrow> f64 \<Rightarrow> time \<Rightarrow> GraphPricer \<Rightarrow> GraphPricer" where
  "setEdgeLocked from to price weight ts g =
     (let neighbors = edges_of g from;
          g = g\<lparr>g_edges := (g_edges g)(from \<mapsto> neighbors)\<rparr>;
          stored = g\<lparr>g_edges := (g_edges g)(from \<mapsto>
             mput to \<lparr>e_price = price, e_weight = weight, e_updatedAt = ts\<rparr> neighbors)\<rparr>
      in case map_of neighbors to of
           Some cur \<Rightarrow> if \<not> ts > e_updatedAt cur \<and> weight \<le> e_weight cur + equalWeightEpsilon then g else stored
         | None \<Rightarrow> stored)"

definition UpdatePair :: "eth_lib \<Rightarrow> time \<Rightarrow> PToken \<Rightarrow> PToken \<Rightarrow> f64 \<Rightarrow> f64 \<Rightarrow> time \<Rightarrow> GraphPricer \<Rightarrow> GraphPricer" where
  "UpdatePair E now a b priceAB weight0 ts0 g =
     (if priceAB \<le> 0 \<or> is_inf priceAB \<or> is_nan priceAB then g
      else
        let weight = (if weight0 \<le> 0 \<or> is_nan weight0 \<or> is_inf weight0 then minWeightEpsilon else weight0);
            ts = (if ts0 = 0 then now else ts0);
            addrA = normalizeAddr E (pt_Address a); addrB = normalizeAddr E (pt_Address b)
        in if addrA = [] \<or> addrB = [] then g
           else (let g = RegisterToken E b (RegisterToken E a g);
                     g = setEdgeLocked addrA addrB priceAB weight ts g;
                     inv = 1 / priceAB
                 in if inv > 0 \<and> \<not> is_inf inv \<and> \<not> is_nan inv
                    then setEdgeLocked addrB addrA inv weight ts g else g))"

subsection \<open>The search\<close>

record visitInfo =
  v_weight :: f64
  v_hops :: nat

definition shouldVisit :: "visitInfo \<Rightarrow> f64 \<Rightarrow> nat \<Rightarrow> bool" where
  "shouldVisit prev weight hops =
     (if weight \<le> 0 then False
      else if f64_eq (v_weight prev) 0 \<and> v_hops prev = 0 then True
      else if weight > v_weight prev + equalWeightEpsilon then True
      else if \<bar>weight - v_weight prev\<bar> \<le> equalWeightEpsilon \<and> hops < v_hops prev then True
      else False)"

definition betterCandidate :: "Result \<Rightarrow> Result \<Rightarrow> f64 \<Rightarrow> bool" where
  "betterCandidate current candidate eps =
     (if r_Weight candidate > r_Weight current + eps then True
      else if \<bar>r_Weight candidate - r_Weight current\<bar> \<le> eps \<and> r_UpdatedAt candidate > r_UpdatedAt current then True
      else False)"

definition symbolUnsafe :: "GraphPricer \<Rightarrow> string \<Rightarrow> string" where
  "symbolUnsafe g addr = (case g_symbols g addr of Some s \<Rightarrow> s | None \<Rightarrow> addr)"

definition symbolPath :: "GraphPricer \<Rightarrow> string list \<Rightarrow> string list" where
  "symbolPath g path = map (symbolUnsafe g) path"

record queueItem =
  q_addr :: string
  q_price :: f64
  q_weight :: f64
  q_freshness :: time
  q_path :: "string list"
  q_hops :: nat

record search =
  s_visited :: "string \<Rightarrow> visitInfo"
  s_queue :: "queueItem list"
  s_best :: Result
  s_found :: bool

text \<open>The body of the inner loop for one edge; each \<open>continue\<close> leaves the search as it is.\<close>

definition relax_edge :: "GraphPricer \<Rightarrow> queueItem \<Rightarrow> string \<times> edge \<Rightarrow> search \<Rightarrow> search" where
  "relax_edge g cur ne s =
     (let (nextAddr, e) = ne in
      if e_price e \<le> 0 \<or> is_nan (e_price e) \<or> is_inf (e_price e) then s
      else let nextPrice = q_price cur * e_price e in
      if nextPrice \<le> 0 \<or> is_nan nextPrice \<or> is_inf nextPrice then s
      else let nextWeight = (if e_weight e < q_weight cur then e_weight e else q_weight cur) in
      if nextWeight \<le> 0 then s
      else let nextFresh = (if q_freshness cur \<noteq> 0 \<and> q_freshness cur < e_updatedAt e
                            then q_freshness cur else e_updatedAt e);
               path = q_path cur @ [nextAddr]; hops = q_hops cur + 1 in
      if g_stables g nextAddr then
        (if \<not> s_found s \<or> betterCandidate (s_best s)
              \<lparr>r_Price = nextPrice, r_Route = [], r_Weight = nextWeight, r_UpdatedAt = nextFresh\<rparr> equalWeightEpsilon
         then s\<lparr>s_best := \<lparr>r_Price = nextPrice, r_Route = symbolPath g path, r_Weight = nextWeight,
                r_UpdatedAt = nextFresh\<rparr>, s_found := True\<rparr>
         else s)
      else if hops \<ge> g_maxHops g then s
      else if \<not> shouldVisit (s_visited s nextAddr) nextWeight hops then s
      else s\<lparr>s_visited := (s_visited s)(nextAddr := \<lparr>v_weight = nextWeight, v_hops = hops\<rparr>),
             s_queue := s_queue s @ [\<lparr>q_addr = nextAddr, q_price = nextPrice, q_weight = nextWeight,
               q_freshness = nextFresh, q_path = path, q_hops = hops\<rparr>]\<rparr>)"

type_synonym range_ord = "nat \<Rightarrow> (string \<times> edge) list \<Rightarrow> (string \<times> edge) list"

definition range_order :: "range_ord \<Rightarrow> bool" where
  "range_order ord \<longleftrightarrow> (\<forall>n es. mset (ord n es) = mset es)"

lemma range_order_set: "range_order ord \<Longrightarrow> set (ord n es) = set es"
  by (metis range_order_def set_mset_mset)

text \<open>Only tokens below the hop limit are put back into the queue: the search ends.\<close>

definition hop_measure :: "nat \<Rightarrow> queueItem list \<Rightarrow> nat multiset" where
  "hop_measure H q = image_mset (\<lambda>i. H - q_hops i) (mset q)"

lemma relax_edge_queue:
  "\<exists>qs. s_queue (relax_edge g cur ne s) = s_queue s @ qs \<and>
     (\<forall>i \<in> set qs. q_hops i = Suc (q_hops cur) \<and> q_hops i < g_maxHops g)"
  by (cases ne) (simp add: relax_edge_def Let_def)

lemma relax_fold_queue:
  "\<exists>qs. s_queue (fold (relax_edge g cur) es s) = s_queue s @ qs \<and>
     (\<forall>i \<in> set qs. q_hops i = Suc (q_hops cur) \<and> q_hops i < g_maxHops g)"
proof (induction es arbitrary: s)
  case (Cons e es)
  from relax_edge_queue [of g cur e s] Cons [of "relax_edge g cur e s"] show ?case
    by (metis (no_types, lifting) Un_iff append.assoc fold_simps(2) set_append)
qed simp

lemma hop_measure_decreases:
  assumes "\<forall>i \<in> set qs. q_hops i = Suc (q_hops cur) \<and> q_hops i < H"
  shows "(hop_measure H (rest @ qs), hop_measure H (cur # rest)) \<in> mult less_than"
proof -
  have "(hop_measure H rest + hop_measure H qs, hop_measure H rest + {#H - q_hops cur#}) \<in> mult less_than"
    by (rule one_step_implies_mult) (use assms in \<open>auto simp: hop_measure_def\<close>)
  then show ?thesis by (simp add: hop_measure_def)
qed

function resolve_loop :: "GraphPricer \<Rightarrow> range_ord \<Rightarrow> nat \<Rightarrow> search \<Rightarrow> search" where
  "resolve_loop g ord n s =
     (case s_queue s of [] \<Rightarrow> s
      | cur # rest \<Rightarrow>
          (let s = s\<lparr>s_queue := rest\<rparr>; edges = edges_of g (q_addr cur) in
           if edges = [] then resolve_loop g ord n s
           else resolve_loop g ord (Suc n) (fold (relax_edge g cur) (ord n edges) s)))"
  by pat_completeness auto
termination
proof (relation "inv_image (mult less_than) (\<lambda>(g, ord, n, s). hop_measure (g_maxHops g) (s_queue s))")
  show "wf (inv_image (mult less_than) (\<lambda>(g, ord :: range_ord, n :: nat, s). hop_measure (g_maxHops g) (s_queue s)))"
    by (intro wf_inv_image wf_mult wf_less_than)
next
  fix g :: GraphPricer and ord :: range_ord and n :: nat and s x :: search and cur rest xa
  assume "s_queue s = cur # rest" "x = s\<lparr>s_queue := rest\<rparr>"
  then show "((g, ord, n, x), g, ord, n, s)
      \<in> inv_image (mult less_than) (\<lambda>(g, ord, n, s). hop_measure (g_maxHops g) (s_queue s))"
    using hop_measure_decreases [of "[]" cur "g_maxHops g" rest] by simp
next
  fix g :: GraphPricer and ord :: range_ord and n :: nat and s x :: search and cur rest xa
  assume q: "s_queue s = cur # rest" "x = s\<lparr>s_queue := rest\<rparr>"
  obtain qs where qs: "s_queue (fold (relax_edge g cur) (ord n xa) x) = rest @ qs"
    "\<forall>i \<in> set qs. q_hops i = Suc (q_hops cur) \<and> q_hops i < g_maxHops g"
    using relax_fold_queue [of g cur "ord n xa" x] q by auto
  from hop_measure_decreases [OF qs(2), of rest] q(1) qs(1)
  show "((g, ord, Suc n, fold (relax_edge g cur) (ord n xa) x), g, ord, n, s)
      \<in> inv_image (mult less_than) (\<lambda>(g, ord, n, s). hop_measure (g_maxHops g) (s_queue s))"
    by simp
qed

declare resolve_loop.simps [simp del]

definition zero_result :: Result where
  "zero_result = \<lparr>r_Price = 0, r_Route = [], r_Weight = 0, r_UpdatedAt = 0\<rparr>"

definition search_start :: "string \<Rightarrow> search" where
  "search_start addr =
     \<lparr>s_visited = (\<lambda>_. \<lparr>v_weight = 0, v_hops = 0\<rparr>)(addr := \<lparr>v_weight = max_float64, v_hops = 0\<rparr>),
      s_queue = [\<lparr>q_addr = addr, q_price = 1, q_weight = max_float64, q_freshness = 0, q_path = [addr], q_hops = 0\<rparr>],
      s_best = zero_result\<lparr>r_Weight := Fin (- 1)\<rparr>, s_found = False\<rparr>"

definition ResolveUSD :: "eth_lib \<Rightarrow> range_ord \<Rightarrow> time \<Rightarrow> PToken \<Rightarrow> GraphPricer \<Rightarrow> Result \<times> bool" where
  "ResolveUSD E ord now token g =
     (let addr = normalizeAddr E (pt_Address token) in
      if addr = [] then (zero_result, False)
      else if g_stables g addr
        then (\<lparr>r_Price = 1, r_Route = [symbolUnsafe g addr], r_Weight = max_float64, r_UpdatedAt = now\<rparr>, True)
      else (let s = resolve_loop g ord 0 (search_start addr) in (s_best s, s_found s)))"

text \<open>The implementation as a value of the interface.\<close>

definition graph_pricer :: "eth_lib \<Rightarrow> range_ord \<Rightarrow> time \<Rightarrow> GraphPricer Pricer" where
  "graph_pricer E ord now = \<lparr>pr_RegisterToken = RegisterToken E, pr_RegisterStable = RegisterStable E,
     pr_UpdatePair = UpdatePair E now, pr_ResolveUSD = ResolveUSD E ord now\<rparr>"

subsection \<open>Lemmas: the graph invariant\<close>

definition edge_ok :: "edge \<Rightarrow> bool" where
  "edge_ok e \<longleftrightarrow> pos_fin (e_price e) \<and> pos_fin (e_weight e)"

definition gp_inv :: "GraphPricer \<Rightarrow> bool" where
  "gp_inv g \<longleftrightarrow> g_maxHops g = defaultMaxHops \<and> \<not> g_stables g [] \<and>
     (\<forall>a. distinct (map fst (edges_of g a)) \<and> (\<forall>(b, e) \<in> set (edges_of g a). edge_ok e))"

lemma minWeightEpsilon_pos: "pos_fin minWeightEpsilon"
  unfolding minWeightEpsilon_def by code_simp

lemma gp_inv_new: "gp_inv newGraphPricer"
  by (simp add: gp_inv_def newGraphPricer_def edges_of_def)

lemma edges_frame [simp]:
  "edges_of (g\<lparr>g_symbols := s\<rparr>) a = edges_of g a"
  "edges_of (g\<lparr>g_stables := t\<rparr>) a = edges_of g a"
  by (simp_all add: edges_of_def)

lemma gp_inv_RegisterToken: "gp_inv g \<Longrightarrow> gp_inv (RegisterToken E t g)"
  by (simp add: RegisterToken_def Let_def gp_inv_def)

lemma gp_inv_RegisterStable: "gp_inv g \<Longrightarrow> gp_inv (RegisterStable E t g)"
  by (auto simp: RegisterStable_def Let_def gp_inv_def)

lemma edges_of_setEdge:
  "edges_of (setEdgeLocked u v p w ts g) a =
     (if a = u \<and> (case map_of (edges_of g u) v of None \<Rightarrow> True
          | Some cur \<Rightarrow> ts > e_updatedAt cur \<or> \<not> w \<le> e_weight cur + equalWeightEpsilon)
      then mput v \<lparr>e_price = p, e_weight = w, e_updatedAt = ts\<rparr> (edges_of g u) else edges_of g a)"
  by (auto simp: setEdgeLocked_def Let_def edges_of_def split: option.splits)

lemma setEdge_frame [simp]:
  "g_stables (setEdgeLocked u v p w ts g) = g_stables g"
  "g_symbols (setEdgeLocked u v p w ts g) = g_symbols g"
  "g_maxHops (setEdgeLocked u v p w ts g) = g_maxHops g"
  by (simp_all add: setEdgeLocked_def Let_def split: option.splits)

lemma set_mput: "distinct (map fst m) \<Longrightarrow> (k', v') \<in> set (mput k v m) \<longleftrightarrow>
    (if k' = k then v' = v else (k', v') \<in> set m)"
  using map_of_set [of "mput k v m" k' v'] map_of_set [of m k' v'] by auto

lemma gp_inv_setEdge:
  assumes "gp_inv g" and "pos_fin p" and "pos_fin w"
  shows "gp_inv (setEdgeLocked u v p w ts g)"
proof -
  have d: "distinct (map fst (edges_of g c))" and ok: "\<And>b e. (b, e) \<in> set (edges_of g c) \<Longrightarrow> edge_ok e" for c
    using assms(1) by (auto simp: gp_inv_def)
  have "edge_ok \<lparr>e_price = p, e_weight = w, e_updatedAt = ts\<rparr>" using assms by (simp add: edge_ok_def)
  then have "distinct (map fst (edges_of (setEdgeLocked u v p w ts g) c)) \<and>
      (\<forall>(b, e) \<in> set (edges_of (setEdgeLocked u v p w ts g) c). edge_ok e)" for c
    using d ok by (auto simp: edges_of_setEdge set_mput split: if_splits)
  with assms(1) show ?thesis by (simp add: gp_inv_def)
qed

lemma gp_inv_UpdatePair: "gp_inv g \<Longrightarrow> gp_inv (UpdatePair E now a b p w ts g)"
proof -
  assume g: "gp_inv g"
  define w' where "w' = (if w \<le> 0 \<or> is_nan w \<or> is_inf w then minWeightEpsilon else w)"
  have w': "pos_fin w'" using minWeightEpsilon_pos pos_fin_guardI [of w] by (auto simp: w'_def)
  have inv: "pos_fin q" if "q > 0 \<and> \<not> is_inf q \<and> \<not> is_nan q" for q :: f64
    using that by (cases q) (auto simp: pos_fin_def zero_f64_def is_inf_def is_nan_def)
  show ?thesis
  proof (cases "p \<le> 0 \<or> is_inf p \<or> is_nan p")
    case True
    with g show ?thesis by (simp add: UpdatePair_def)
  next
    case False
    then have "pos_fin p" by (auto intro: pos_fin_guardI)
    with g w' inv False show ?thesis
      unfolding UpdatePair_def Let_def w'_def [symmetric]
      by (auto intro!: gp_inv_setEdge gp_inv_RegisterToken)
  qed
qed

subsection \<open>Lemmas: what a search may return\<close>

text \<open>
  A route from \<open>a\<close>: along valid edges, through tokens that are no anchors, with the product of the
  prices as the floats compute it, the smallest weight and the oldest update on the way.
\<close>

inductive route :: "GraphPricer \<Rightarrow> string \<Rightarrow> string list \<Rightarrow> f64 \<Rightarrow> f64 \<Rightarrow> time \<Rightarrow> bool" for g a where
  route_start: "route g a [a] 1 max_float64 0"
| route_step: "route g a path p w t \<Longrightarrow> \<not> g_stables g (last path) \<Longrightarrow> (b, e) \<in> set (edges_of g (last path)) \<Longrightarrow>
     pos_fin (e_price e) \<Longrightarrow> pos_fin (p * e_price e) \<Longrightarrow>
     w' = (if e_weight e < w then e_weight e else w) \<Longrightarrow> \<not> w' \<le> 0 \<Longrightarrow>
     t' = (if t \<noteq> 0 \<and> t < e_updatedAt e then t else e_updatedAt e) \<Longrightarrow>
     route g a (path @ [b]) (p * e_price e) w' t'"

lemma route_nonempty: "route g a path p w t \<Longrightarrow> path \<noteq> [] \<and> hd path = a"
  by (induction rule: route.induct) auto

definition item_ok :: "GraphPricer \<Rightarrow> string \<Rightarrow> queueItem \<Rightarrow> bool" where
  "item_ok g a i \<longleftrightarrow> route g a (q_path i) (q_price i) (q_weight i) (q_freshness i) \<and>
     last (q_path i) = q_addr i \<and> length (q_path i) = Suc (q_hops i) \<and> \<not> g_stables g (q_addr i) \<and>
     (q_hops i = 0 \<or> q_hops i < g_maxHops g)"

definition best_ok :: "GraphPricer \<Rightarrow> string \<Rightarrow> Result \<Rightarrow> bool" where
  "best_ok g a r \<longleftrightarrow> (\<exists>path. route g a path (r_Price r) (r_Weight r) (r_UpdatedAt r) \<and>
     r_Route r = symbolPath g path \<and> g_stables g (last path) \<and> 2 \<le> length path \<and>
     length path \<le> Suc (max 1 (g_maxHops g)))"

definition search_ok :: "GraphPricer \<Rightarrow> string \<Rightarrow> search \<Rightarrow> bool" where
  "search_ok g a s \<longleftrightarrow> (\<forall>i \<in> set (s_queue s). item_ok g a i) \<and> (s_found s \<longrightarrow> best_ok g a (s_best s))"

text \<open>The guards of the inner loop, once for all proofs: a valid edge gives the next price and weight.\<close>

definition valid_edge :: "queueItem \<Rightarrow> edge \<Rightarrow> bool" where
  "valid_edge cur e \<longleftrightarrow> pos_fin (e_price e) \<and> pos_fin (q_price cur * e_price e) \<and>
     \<not> (if e_weight e < q_weight cur then e_weight e else q_weight cur) \<le> 0"

lemma relax_edge_cases:
  obtains (skip) "relax_edge g cur (b, e) s = s"
  | (anchor) w t where "valid_edge cur e" "g_stables g b"
      "w = (if e_weight e < q_weight cur then e_weight e else q_weight cur)"
      "t = (if q_freshness cur \<noteq> 0 \<and> q_freshness cur < e_updatedAt e then q_freshness cur else e_updatedAt e)"
      "relax_edge g cur (b, e) s = s\<lparr>s_best := \<lparr>r_Price = q_price cur * e_price e,
         r_Route = symbolPath g (q_path cur @ [b]), r_Weight = w, r_UpdatedAt = t\<rparr>, s_found := True\<rparr>"
  | (push) w t where "valid_edge cur e" "\<not> g_stables g b" "Suc (q_hops cur) < g_maxHops g"
      "w = (if e_weight e < q_weight cur then e_weight e else q_weight cur)"
      "t = (if q_freshness cur \<noteq> 0 \<and> q_freshness cur < e_updatedAt e then q_freshness cur else e_updatedAt e)"
      "relax_edge g cur (b, e) s = s\<lparr>s_visited := (s_visited s)(b := \<lparr>v_weight = w, v_hops = Suc (q_hops cur)\<rparr>),
         s_queue := s_queue s @ [\<lparr>q_addr = b, q_price = q_price cur * e_price e, q_weight = w,
           q_freshness = t, q_path = q_path cur @ [b], q_hops = Suc (q_hops cur)\<rparr>]\<rparr>"
proof -
  define w where "w = (if e_weight e < q_weight cur then e_weight e else q_weight cur)"
  define t where "t = (if q_freshness cur \<noteq> 0 \<and> q_freshness cur < e_updatedAt e then q_freshness cur else e_updatedAt e)"
  show thesis
  proof (cases "valid_edge cur e")
    case False
    then have "(e_price e \<le> 0 \<or> is_nan (e_price e) \<or> is_inf (e_price e)) \<or>
        (q_price cur * e_price e \<le> 0 \<or> is_nan (q_price cur * e_price e) \<or> is_inf (q_price cur * e_price e)) \<or> w \<le> 0"
      unfolding valid_edge_def w_def by (metis pos_fin_guard)
    then have "relax_edge g cur (b, e) s = s" unfolding relax_edge_def Let_def w_def by auto
    then show thesis by (rule skip)
  next
    case True
    then have v: "\<not> (e_price e \<le> 0 \<or> is_nan (e_price e) \<or> is_inf (e_price e))"
      "\<not> (q_price cur * e_price e \<le> 0 \<or> is_nan (q_price cur * e_price e) \<or> is_inf (q_price cur * e_price e))"
      "\<not> w \<le> 0"
      unfolding valid_edge_def w_def by (metis pos_fin_guard)+
    define s1 where "s1 = s\<lparr>s_best := \<lparr>r_Price = q_price cur * e_price e,
         r_Route = symbolPath g (q_path cur @ [b]), r_Weight = w, r_UpdatedAt = t\<rparr>, s_found := True\<rparr>"
    define s2 where "s2 = s\<lparr>s_visited := (s_visited s)(b := \<lparr>v_weight = w, v_hops = Suc (q_hops cur)\<rparr>),
         s_queue := s_queue s @ [\<lparr>q_addr = b, q_price = q_price cur * e_price e, q_weight = w,
           q_freshness = t, q_path = q_path cur @ [b], q_hops = Suc (q_hops cur)\<rparr>]\<rparr>"
    have "relax_edge g cur (b, e) s \<in> {s, s1} \<and> g_stables g b \<or> relax_edge g cur (b, e) s = s \<or>
        relax_edge g cur (b, e) s = s2 \<and> \<not> g_stables g b \<and> Suc (q_hops cur) < g_maxHops g"
      unfolding relax_edge_def Let_def prod.case w_def [symmetric] t_def [symmetric] if_not_P [OF v(1)]
        if_not_P [OF v(2)] if_not_P [OF v(3)] s1_def s2_def by simp
    then show thesis
      using skip anchor [OF True _ w_def t_def] push [OF True _ _ w_def t_def] s1_def s2_def by blast
  qed
qed

lemma relax_edge_ok:
  assumes "search_ok g a s" and "item_ok g a cur" and "(b, e) \<in> set (edges_of g (q_addr cur))"
  shows "search_ok g a (relax_edge g cur (b, e) s)"
proof (cases rule: relax_edge_cases [of g cur b e s])
  case skip
  with assms(1) show ?thesis by simp
next
  case (anchor w t)
  from assms(2,3) anchor(1,3,4) have "route g a (q_path cur @ [b]) (q_price cur * e_price e) w t"
    unfolding item_ok_def valid_edge_def by (intro route_step) auto
  with anchor(2) assms(1,2) have "best_ok g a \<lparr>r_Price = q_price cur * e_price e,
         r_Route = symbolPath g (q_path cur @ [b]), r_Weight = w, r_UpdatedAt = t\<rparr>"
    unfolding best_ok_def item_ok_def by (intro exI [of _ "q_path cur @ [b]"]) auto
  with assms(1) anchor(5) show ?thesis by (simp add: search_ok_def)
next
  case (push w t)
  from assms(2,3) push(1,4,5) have "route g a (q_path cur @ [b]) (q_price cur * e_price e) w t"
    unfolding item_ok_def valid_edge_def by (intro route_step) auto
  with push(2,3,6) assms(1,2) show ?thesis by (auto simp: search_ok_def item_ok_def)
qed

lemma relax_fold_ok:
  assumes "search_ok g a s" and "item_ok g a cur" and "set es \<subseteq> set (edges_of g (q_addr cur))"
  shows "search_ok g a (fold (relax_edge g cur) es s)"
  using assms by (induction es arbitrary: s) (auto intro: relax_edge_ok)

lemma resolve_loop_ok:
  assumes "range_order ord" and "search_ok g a s"
  shows "search_ok g a (resolve_loop g ord n s) \<and> s_queue (resolve_loop g ord n s) = []"
  using assms
proof (induction g ord n s rule: resolve_loop.induct)
  case (1 g ord n s)
  show ?case
  proof (cases "s_queue s")
    case Nil
    with "1.prems" show ?thesis by (simp add: resolve_loop.simps [of g ord n s])
  next
    case (Cons cur rest)
    from "1.prems"(2) Cons have cur: "item_ok g a cur" and s': "search_ok g a (s\<lparr>s_queue := rest\<rparr>)"
      by (auto simp: search_ok_def)
    show ?thesis
    proof (cases "edges_of g (q_addr cur) = []")
      case True
      then have "resolve_loop g ord n s = resolve_loop g ord n (s\<lparr>s_queue := rest\<rparr>)"
        using Cons by (subst resolve_loop.simps) simp
      with "1.IH"(1) [OF Cons refl refl True "1.prems"(1) s'] show ?thesis by simp
    next
      case False
      then have "resolve_loop g ord n s = resolve_loop g ord (Suc n)
          (fold (relax_edge g cur) (ord n (edges_of g (q_addr cur))) (s\<lparr>s_queue := rest\<rparr>))"
        using Cons by (subst resolve_loop.simps) simp
      moreover have "search_ok g a (fold (relax_edge g cur) (ord n (edges_of g (q_addr cur))) (s\<lparr>s_queue := rest\<rparr>))"
        using relax_fold_ok [OF s' cur] range_order_set [OF "1.prems"(1)] by blast
      ultimately show ?thesis using "1.IH"(2) [OF Cons refl refl False "1.prems"(1)] by simp
    qed
  qed
qed

lemma search_start_ok: "\<not> g_stables g a \<Longrightarrow> search_ok g a (search_start a)"
  by (auto simp: search_ok_def search_start_def item_ok_def intro: route_start)

text \<open>Soundness of a whole search, and the interface's contract.\<close>

lemma resolve_sound:
  assumes "range_order ord" and "\<not> g_stables g a" and "s_found (resolve_loop g ord 0 (search_start a))"
  shows "best_ok g a (s_best (resolve_loop g ord 0 (search_start a)))"
  using resolve_loop_ok [OF assms(1) search_start_ok [OF assms(2)], of 0] assms(3)
  by (simp add: search_ok_def)

lemma route_pos: "route g a path p w t \<Longrightarrow> 2 \<le> length path \<Longrightarrow> pos_fin p"
  by (induction rule: route.induct) auto

lemma best_ok_pos: "best_ok g a r \<Longrightarrow> pos_fin (r_Price r)"
  using route_pos by (auto simp: best_ok_def)

lemma pos_fin_1 [simp]: "pos_fin 1"
  by (simp add: pos_fin_def one_f64_def)

definition gp_anchor :: "eth_lib \<Rightarrow> GraphPricer \<Rightarrow> address \<Rightarrow> bool" where
  "gp_anchor E g x \<longleftrightarrow> x \<noteq> 0 \<and> g_stables g (normalizeAddr E x)"

definition graph_inv :: "eth_lib \<Rightarrow> range_ord \<Rightarrow> GraphPricer \<Rightarrow> bool" where
  "graph_inv E ord g \<longleftrightarrow> eth_ok E \<and> range_order ord \<and> gp_inv g"

lemma stables_UpdatePair [simp]: "g_stables (UpdatePair E now a b p w ts g) = g_stables g"
  by (simp add: UpdatePair_def Let_def RegisterToken_def)

lemma stables_RegisterToken [simp]: "g_stables (RegisterToken E t g) = g_stables g"
  by (simp add: RegisterToken_def Let_def)

lemma gp_anchor_frame:
  "gp_anchor E (RegisterToken E t g) x = gp_anchor E g x"
  "gp_anchor E (UpdatePair E now a b p w ts g) x = gp_anchor E g x"
  by (simp_all add: gp_anchor_def)

lemma graph_inv_RegisterToken: "graph_inv E ord g \<Longrightarrow> graph_inv E ord (RegisterToken E t g)"
  and graph_inv_RegisterStable: "graph_inv E ord g \<Longrightarrow> graph_inv E ord (RegisterStable E t g)"
  and graph_inv_UpdatePair: "graph_inv E ord g \<Longrightarrow> graph_inv E ord (UpdatePair E now a b p w ts g)"
  by (simp_all add: graph_inv_def gp_inv_RegisterToken gp_inv_RegisterStable gp_inv_UpdatePair)

lemma gp_anchor_RegisterStable: "gp_anchor E g x \<Longrightarrow> gp_anchor E (RegisterStable E t g) x"
  by (simp add: gp_anchor_def RegisterStable_def Let_def)

lemma normalizeAddr_Nil: "eth_ok E \<Longrightarrow> normalizeAddr E x = [] \<longleftrightarrow> x = 0"
  by (simp add: normalizeAddr_def lower_hex_nonempty)

lemma ResolveUSD_pos:
  assumes "graph_inv E ord g" and "ResolveUSD E ord now t g = (r, True)"
  shows "pos_fin (r_Price r)"
proof (cases "g_stables g (normalizeAddr E (pt_Address t))")
  case True
  with assms(2) show ?thesis by (auto simp: ResolveUSD_def Let_def split: if_splits)
next
  case False
  with assms have "s_found (resolve_loop g ord 0 (search_start (normalizeAddr E (pt_Address t))))"
    "r = s_best (resolve_loop g ord 0 (search_start (normalizeAddr E (pt_Address t))))"
    by (auto simp: ResolveUSD_def Let_def split: if_splits)
  with best_ok_pos [OF resolve_sound [OF _ False]] assms(1) show ?thesis by (simp add: graph_inv_def)
qed

lemma gp_anchor_new: "graph_inv E ord g \<Longrightarrow> pt_Address t \<noteq> 0 \<Longrightarrow> gp_anchor E (RegisterStable E t g) (pt_Address t)"
  by (simp add: gp_anchor_def RegisterStable_def graph_inv_def normalizeAddr_Nil Let_def)

lemma ResolveUSD_anchor: "graph_inv E ord g \<Longrightarrow> gp_anchor E g (pt_Address t) \<Longrightarrow>
    \<exists>r. ResolveUSD E ord now t g = (r, True) \<and> r_Price r = 1"
  by (auto simp: gp_anchor_def ResolveUSD_def graph_inv_def gp_inv_def Let_def)

interpretation graph: usd_pricer "graph_pricer E ord now" "graph_inv E ord" "gp_anchor E"
  for E ord now
  by unfold_locales (simp_all add: graph_pricer_def graph_inv_RegisterToken graph_inv_RegisterStable
    graph_inv_UpdatePair gp_anchor_frame gp_anchor_RegisterStable gp_anchor_new ResolveUSD_anchor
    ResolveUSD_pos [where now = now])

end
