(* ===== verification/Core.thy ===== *)
theory Core
  imports Launcher Redis Graph_Pricer
begin

text \<open>
  \<open>cmd/screener-core/main.go\<close>: the supervisor with its restart delay, the resolution of exchanges and
  symbols, the order of the launches, and the workers that batch market data into Redis. Where \<open>main\<close>
  ends the process with \<open>Fatalf\<close> the model returns the error. The atomic counters of the metrics are
  fields of the worker's state; the counter of dropped messages is never written by the code and left out.
\<close>

subsection \<open>The supervisor\<close>

definition sup_next :: "int \<Rightarrow> int" where
  "sup_next backoff = (if backoff < 30 * second then backoff * 2 else backoff)"

datatype sup_phase = SupRunning | SupWaiting | SupReturned

datatype sup_event = FnDone | TimerFired | StopClosed

record supervisor =
  sv_phase :: sup_phase
  sv_backoff :: int
  sv_starts :: nat

definition sup_start :: supervisor where
  "sup_start = \<lparr>sv_phase = SupRunning, sv_backoff = second, sv_starts = 1\<rparr>"

text \<open>The two selects of the loop: the function's end or the stop, then the delay or the stop.\<close>

inductive sup_step :: "supervisor \<Rightarrow> sup_event \<Rightarrow> supervisor \<Rightarrow> bool" where
  fn_done: "sv_phase s = SupRunning \<Longrightarrow> sup_step s FnDone (s\<lparr>sv_phase := SupWaiting\<rparr>)"
| fn_stop: "sv_phase s = SupRunning \<Longrightarrow> sup_step s StopClosed (s\<lparr>sv_phase := SupReturned\<rparr>)"
| wait_stop: "sv_phase s = SupWaiting \<Longrightarrow> sup_step s StopClosed (s\<lparr>sv_phase := SupReturned\<rparr>)"
| wait_over: "sv_phase s = SupWaiting \<Longrightarrow> sup_step s TimerFired
     (s\<lparr>sv_phase := SupRunning, sv_backoff := sup_next (sv_backoff s), sv_starts := Suc (sv_starts s)\<rparr>)"

inductive_cases sup_stepE: "sup_step s e s'"

inductive sup_reachable :: "supervisor \<Rightarrow> bool" where
  sup_init: "sup_reachable sup_start"
| sup_next_state: "sup_reachable s \<Longrightarrow> sup_step s e s' \<Longrightarrow> sup_reachable s'"

definition sup_delay :: "int \<Rightarrow> bool" where
  "sup_delay d \<longleftrightarrow> d \<in> {second, 2 * second, 4 * second, 8 * second, 16 * second, 32 * second}"

interpretation sup: backoff_policy sup_next sup_delay second "32 * second"
  by unfold_locales (auto simp: sup_next_def sup_delay_def second_def)

lemma sup_reachable_backoff:
  "sup_reachable s \<Longrightarrow> 1 \<le> sv_starts s \<and> sv_backoff s = (sup_next ^^ (sv_starts s - 1)) second"
proof (induction rule: sup_reachable.induct)
  case sup_init
  then show ?case by (simp add: sup_start_def)
next
  case (sup_next_state s e s')
  then obtain m where m: "sv_starts s = Suc m" by (cases "sv_starts s") auto
  have "(sup_next ^^ Suc m) second = sup_next ((sup_next ^^ m) second)" by simp
  with sup_next_state.hyps(2) sup_next_state.IH m show ?case
    by (cases rule: sup_stepE) (auto simp del: funpow.simps(2))
qed

subsection \<open>Exchanges and symbols\<close>

definition exchange_list :: "Config \<Rightarrow> string list" where
  "exchange_list cfg =
     (let exchanges = cf_Exchanges cfg;
          exchanges = (if exchanges = [] \<and> cf_Exchange cfg \<noteq> [] then [cf_Exchange cfg] else exchanges)
      in if exchanges = [] then [''bybit''] else exchanges)"

definition exConfigByName :: "ExchangeConfig list \<Rightarrow> (string \<rightharpoonup> ExchangeConfig)" where
  "exConfigByName cfgs = fold (\<lambda>exCfg m. let name = to_lower (trim_space (xc_Name exCfg)) in
     if name = [] then m else m(name \<mapsto> exCfg)) cfgs Map.empty"

datatype core_error =
    SharedPoolsNotConfigured | SharedPoolsNotLoaded string | NoSymbolsProduced string string
  | SymbolsNotLoaded string string | NoSymbolsResolved string

text \<open>The loader with its cache by path; \<open>load\<close> is \<open>util.LoadSymbolsFromFile\<close> on the files of the run.\<close>

type_synonym symbol_cache = "string \<rightharpoonup> string list"

definition load_cached ::
    "(string \<Rightarrow> string list option) \<Rightarrow> string \<Rightarrow> symbol_cache \<Rightarrow> string list option \<times> symbol_cache" where
  "load_cached load path cache =
     (case cache path of Some cached \<Rightarrow> (Some cached, cache)
      | None \<Rightarrow> (case load path of None \<Rightarrow> (None, cache) | Some list \<Rightarrow> (Some list, cache(path \<mapsto> list))))"

definition baseToQuote :: "string \<Rightarrow> string list \<Rightarrow> string \<Rightarrow> (core_error, string list) result" where
  "baseToQuote exKey bases source =
     (let pairs = AttachQuote bases ''USDT'' in if pairs = [] then Inl (NoSymbolsProduced exKey source) else Inr pairs)"

definition legacySymbolsPath :: string where
  "legacySymbolsPath = ''Temp/all_contracts_merged_reformatted.json''"

definition resolve_exchange ::
    "(string \<Rightarrow> string list option) \<Rightarrow> (string \<rightharpoonup> ExchangeConfig) \<Rightarrow> string \<Rightarrow> string list \<Rightarrow> string \<Rightarrow> symbol_cache
     \<Rightarrow> (core_error, string list) result \<times> symbol_cache" where
  "resolve_exchange load byName sharedPoolsPath defaultBaseSymbols exKey cache =
     (let from_file = (\<lambda>path. case load_cached load path cache of
            (None, cache) \<Rightarrow> (Inl (SymbolsNotLoaded exKey path), cache)
          | (Some list, cache) \<Rightarrow> (baseToQuote exKey list path, cache));
          (r, cache) =
            (case byName exKey of
               Some exCfg \<Rightarrow>
                 if xc_Symbols exCfg \<noteq> [] then (Inr (xc_Symbols exCfg), cache)
                 else if xc_SymbolsFile exCfg \<noteq> [] then from_file (xc_SymbolsFile exCfg)
                 else if defaultBaseSymbols \<noteq> [] then (baseToQuote exKey defaultBaseSymbols sharedPoolsPath, cache)
                 else from_file legacySymbolsPath
             | None \<Rightarrow>
                 if defaultBaseSymbols \<noteq> [] then (baseToQuote exKey defaultBaseSymbols sharedPoolsPath, cache)
                 else from_file legacySymbolsPath)
      in (bind_res r (\<lambda>symbols. if symbols = [] then Inl (NoSymbolsResolved exKey) else Inr symbols), cache))"

fun resolve_exchanges ::
    "(string \<Rightarrow> string list option) \<Rightarrow> (string \<rightharpoonup> ExchangeConfig) \<Rightarrow> string \<Rightarrow> string list \<Rightarrow> string list \<Rightarrow> symbol_cache
     \<Rightarrow> (string \<rightharpoonup> string list) \<Rightarrow> (core_error, string \<rightharpoonup> string list) result" where
  "resolve_exchanges load byName shared defaults [] cache acc = Inr acc"
| "resolve_exchanges load byName shared defaults (ex # exs) cache acc =
     (let exKey = to_lower (trim_space ex) in
      if exKey = [] then resolve_exchanges load byName shared defaults exs cache acc
      else (case resolve_exchange load byName shared defaults exKey cache of
          (Inl e, cache) \<Rightarrow> Inl e
        | (Inr symbols, cache) \<Rightarrow>
            resolve_exchanges load byName shared defaults exs cache (acc(exKey \<mapsto> symbols))))"

definition symbolsByExchange ::
    "(string \<Rightarrow> string) \<Rightarrow> (string \<Rightarrow> string list option) \<Rightarrow> Config \<Rightarrow> (core_error, string \<rightharpoonup> string list) result" where
  "symbolsByExchange getenv load cfg =
     (let sharedPoolsPath = trim_space (ResolveSharedPoolsPath getenv cfg) in
      if sharedPoolsPath = [] then Inl SharedPoolsNotConfigured
      else (case load_cached load sharedPoolsPath Map.empty of
          (None, cache) \<Rightarrow> Inl (SharedPoolsNotLoaded sharedPoolsPath)
        | (Some defaults, cache) \<Rightarrow>
            resolve_exchanges load (exConfigByName (cf_ExchangeConfigs cfg)) sharedPoolsPath defaults
              (exchange_list cfg) cache Map.empty))"

text \<open>The DEX sections that need the price graph, each kind once.\<close>

fun pricer_loop :: "string list \<Rightarrow> DexConfig list \<Rightarrow> string list" where
  "pricer_loop seen [] = []"
| "pricer_loop seen (d # ds) =
     (let trimmed = trim_space (dc_Name d); nameLower = to_lower trimmed in
      if trimmed = [] then pricer_loop seen ds
      else if nameLower \<in> {''uniswap_v2'', ''uniswap_v3'', ''uniswap_v4''} \<and> nameLower \<notin> set seen
        then trimmed # pricer_loop (nameLower # seen) ds
      else pricer_loop seen ds)"

definition pricerRequiredBy :: "Config \<Rightarrow> string list" where
  "pricerRequiredBy cfg = pricer_loop [] (cf_DexConfigs cfg)"

definition fallbackAnchors :: "eth_lib \<Rightarrow> PToken list" where
  "fallbackAnchors E =
     [\<lparr>pt_Address = eth_HexToAddress E ''0xa0b86991c6218b36c1d19d4a2e9eb0ce3606eb48'', pt_Symbol = ''USDC'', pt_Decimals = 6\<rparr>,
      \<lparr>pt_Address = eth_HexToAddress E ''0xdac17f958d2ee523a2206206994597c13d831ec7'', pt_Symbol = ''USDT'', pt_Decimals = 6\<rparr>,
      \<lparr>pt_Address = eth_HexToAddress E ''0x6b175474e89094c44da98b954eedeac495271d0f'', pt_Symbol = ''DAI'', pt_Decimals = 18\<rparr>]"

definition core_pricer :: "eth_lib \<Rightarrow> Provider option \<Rightarrow> Config \<Rightarrow> GraphPricer option" where
  "core_pricer E assetProvider cfg =
     (if pricerRequiredBy cfg \<noteq> [] then Some (NewGraphPricerFromAssets E assetProvider [] (fallbackAnchors E)) else None)"

subsection \<open>Launches\<close>

text \<open>The calls of builders in their order; an unknown name is skipped.\<close>

datatype launch = LaunchExchange builder string "string list" | LaunchDex builder DexConfig

definition launches :: "(string, builder) gomap \<Rightarrow> (string \<rightharpoonup> string list) \<Rightarrow> Config \<Rightarrow> launch list" where
  "launches registry symbols cfg =
     List.map_filter (\<lambda>ex. let exLower = to_lower (trim_space ex) in
        case Get registry exLower of None \<Rightarrow> None
        | Some b \<Rightarrow> Some (LaunchExchange b ex (case symbols exLower of Some l \<Rightarrow> l | None \<Rightarrow> []))) (exchange_list cfg)
     @ List.map_filter (\<lambda>d. let name = to_lower (trim_space (dc_Name d)) in
        if name = [] then None
        else (case Get registry name of None \<Rightarrow> None | Some b \<Rightarrow> Some (LaunchDex b d))) (cf_DexConfigs cfg)"

subsection \<open>The Redis workers\<close>

record 's worker =
  wk_batch :: "iface list list"
  wk_processed :: int
  wk_redisOps :: int
  wk_redisErrors :: int
  wk_perExchange :: "string \<Rightarrow> int"
  wk_store :: 's

definition worker_start :: "'s \<Rightarrow> 's worker" where
  "worker_start s = \<lparr>wk_batch = [], wk_processed = 0, wk_redisOps = 0, wk_redisErrors = 0, wk_perExchange = (\<lambda>_. 0), wk_store = s\<rparr>"

definition worker_flush :: "'s redis_api \<Rightarrow> 's worker \<Rightarrow> 's worker" where
  "worker_flush R w =
     (if wk_batch w = [] then w
      else (case HSetBatch R (wk_batch w) (wk_store w) of (ok, s) \<Rightarrow>
        (if ok then w\<lparr>wk_redisOps := wk_redisOps w + int (length (wk_batch w))\<rparr>
         else w\<lparr>wk_redisErrors := wk_redisErrors w + 1\<rparr>)\<lparr>wk_batch := [], wk_store := s\<rparr>))"

definition entry_of :: "(f64 \<Rightarrow> string) \<Rightarrow> string \<Rightarrow> MarketData \<Rightarrow> iface list" where
  "entry_of float_text key md =
     [IStr key, IStr ''price'', IVal (float_text (md_Price md)), IStr ''timestamp'', IVal (show_int (md_Timestamp md)),
      IStr ''exchange'', IStr (md_Exchange md), IStr ''symbol'', IStr (md_Symbol md)]"

definition keyRaw :: "MarketData \<Rightarrow> string" where
  "keyRaw md = ''price:'' @ md_Exchange md @ '':'' @ md_Symbol md"

definition keyCanon :: "MarketData \<Rightarrow> string" where
  "keyCanon md = ''price_canon:'' @ NormalizeSpotSymbol (md_Exchange md) (md_Symbol md) @ '':'' @ md_Exchange md"

datatype worker_event = WMsg MarketData | WTimer | WClosed

definition worker_step :: "'s redis_api \<Rightarrow> (f64 \<Rightarrow> string) \<Rightarrow> int \<Rightarrow> worker_event \<Rightarrow> 's worker \<Rightarrow> 's worker" where
  "worker_step R float_text pipelineSize ev w =
     (case ev of WClosed \<Rightarrow> worker_flush R w
      | WTimer \<Rightarrow> worker_flush R w
      | WMsg md \<Rightarrow>
          (let w = w\<lparr>wk_batch := wk_batch w @ [entry_of float_text (keyRaw md) md, entry_of float_text (keyCanon md) md],
                 wk_processed := wk_processed w + 1,
                 wk_perExchange := (wk_perExchange w)(md_Exchange md := wk_perExchange w (md_Exchange md) + 1)\<rparr>
           in if int (length (wk_batch w)) \<ge> pipelineSize then worker_flush R w else w))"

text \<open>The loop ends with the channel.\<close>

fun run_worker :: "'s redis_api \<Rightarrow> (f64 \<Rightarrow> string) \<Rightarrow> int \<Rightarrow> worker_event list \<Rightarrow> 's worker \<Rightarrow> 's worker" where
  "run_worker R ft n [] w = w"
| "run_worker R ft n (WClosed # rest) w = worker_step R ft n WClosed w"
| "run_worker R ft n (ev # rest) w = run_worker R ft n rest (worker_step R ft n ev w)"

definition worker_pool :: "Config \<Rightarrow> int \<times> int" where
  "worker_pool cfg = (if cf_RedisWorkers cfg \<le> 0 then 8 else cf_RedisWorkers cfg,
     if cf_RedisPipelineSize cfg \<le> 0 then 300 else cf_RedisPipelineSize cfg)"

text \<open>\<open>loadLinesFile\<close> on the lines the scanner returns.\<close>

definition loadLinesFile :: "string list option \<Rightarrow> string list" where
  "loadLinesFile content = (case content of None \<Rightarrow> []
     | Some ls \<Rightarrow> filter (\<lambda>l. l \<noteq> [] \<and> \<not> has_prefix l ''#'') (map trim_space ls))"

subsection \<open>Properties of the supervisor\<close>

lemma sup_delays_pow: "(sup_next ^^ n) second = second * 2 ^ min 5 n"
proof (induction n)
  case (Suc n)
  have "n \<in> {0, 1, 2, 3, 4} \<or> 5 \<le> n" by auto
  then show ?case
  proof
    assume "5 \<le> n"
    with Suc show ?thesis by (simp add: sup_next_def second_def min_def)
  qed (use Suc in \<open>auto simp: sup_next_def second_def numeral_eq_Suc\<close>)
qed simp

text \<open>C22. Along every run of a supervisor the delay before the next restart is one second doubled with each
  start so far, up to 32 seconds, although the code compares with 30; a supervisor that has returned takes no
  further step.\<close>

theorem supervisor_delays:
  assumes "sup_reachable s"
  shows "sv_backoff s = second * 2 ^ min 5 (sv_starts s - 1) \<and> second \<le> sv_backoff s \<and> sv_backoff s \<le> 32 * second \<and>
    (sv_phase s = SupReturned \<longrightarrow> (\<nexists>e s'. sup_step s e s'))"
  using sup_reachable_backoff [OF assms] sup.delays_in_range [of "sv_starts s - 1"] sup_delays_pow
  by (auto elim!: sup_stepE)

theorem supervisor_delays_witness:
  "sv_backoff (sup_start\<lparr>sv_backoff := 2 * second, sv_starts := 2\<rparr>) \<le> 32 * second"
proof -
  have "sup_step sup_start FnDone (sup_start\<lparr>sv_phase := SupWaiting\<rparr>)" by (rule fn_done) (simp add: sup_start_def)
  moreover have "sup_step (sup_start\<lparr>sv_phase := SupWaiting\<rparr>) TimerFired
      ((sup_start\<lparr>sv_phase := SupWaiting\<rparr>)\<lparr>sv_phase := SupRunning,
        sv_backoff := sup_next (sv_backoff (sup_start\<lparr>sv_phase := SupWaiting\<rparr>)),
        sv_starts := Suc (sv_starts (sup_start\<lparr>sv_phase := SupWaiting\<rparr>))\<rparr>)"
    by (rule wait_over) (simp add: sup_start_def)
  ultimately have "sup_reachable ((sup_start\<lparr>sv_phase := SupWaiting\<rparr>)\<lparr>sv_phase := SupRunning,
        sv_backoff := sup_next (sv_backoff (sup_start\<lparr>sv_phase := SupWaiting\<rparr>)),
        sv_starts := Suc (sv_starts (sup_start\<lparr>sv_phase := SupWaiting\<rparr>))\<rparr>)"
    using sup_init sup_next_state by metis
  from supervisor_delays [OF this] show ?thesis by (simp add: sup_start_def sup_next_def second_def)
qed

subsection \<open>Properties of the symbol lists\<close>

lemma resolve_exchange_ne: "resolve_exchange load byName shared defaults k cache = (Inr l, cache') \<Longrightarrow> l \<noteq> []"
  by (auto simp: resolve_exchange_def Let_def bind_res_Inr_iff split: prod.splits if_splits)

lemma resolve_exchange_inline:
  "byName k = Some x \<Longrightarrow> xc_Symbols x \<noteq> [] \<Longrightarrow> resolve_exchange load byName shared defaults k cache = (Inr (xc_Symbols x), cache)"
  by (simp add: resolve_exchange_def)

lemma resolve_exchanges_spec:
  assumes "resolve_exchanges load byName shared defaults exs cache acc = Inr m"
    and "\<forall>k l. acc k = Some l \<longrightarrow> l \<noteq> [] \<and> (\<forall>x. byName k = Some x \<longrightarrow> xc_Symbols x \<noteq> [] \<longrightarrow> l = xc_Symbols x)"
  shows "(\<forall>k l. m k = Some l \<longrightarrow> l \<noteq> [] \<and> (\<forall>x. byName k = Some x \<longrightarrow> xc_Symbols x \<noteq> [] \<longrightarrow> l = xc_Symbols x)) \<and>
    dom m = dom acc \<union> {k. k \<noteq> [] \<and> (\<exists>ex \<in> set exs. k = to_lower (trim_space ex))}"
  using assms
proof (induction load byName shared defaults exs cache acc rule: resolve_exchanges.induct)
  case (2 load byName shared defaults ex exs cache acc)
  define k where "k = to_lower (trim_space ex)"
  show ?case
  proof (cases "k = []")
    case True
    with 2(1) [OF k_def True] 2(3,4) show ?thesis by (auto simp: k_def [symmetric])
  next
    case False
    obtain l cache' where r: "resolve_exchange load byName shared defaults k cache = (Inr l, cache')"
      using 2(3) False by (cases "resolve_exchange load byName shared defaults k cache")
        (auto simp: k_def [symmetric] Let_def split: sum.splits)
    have acc: "\<forall>j l'. (acc(k \<mapsto> l)) j = Some l' \<longrightarrow> l' \<noteq> [] \<and> (\<forall>x. byName j = Some x \<longrightarrow> xc_Symbols x \<noteq> [] \<longrightarrow> l' = xc_Symbols x)"
    proof (intro allI impI)
      fix j l' assume j: "(acc(k \<mapsto> l)) j = Some l'"
      show "l' \<noteq> [] \<and> (\<forall>x. byName j = Some x \<longrightarrow> xc_Symbols x \<noteq> [] \<longrightarrow> l' = xc_Symbols x)"
      proof (cases "j = k")
        case True
        with j resolve_exchange_ne [OF r] r resolve_exchange_inline [of byName k] show ?thesis by auto
      next
        case False
        with j 2(4) show ?thesis by auto
      qed
    qed
    have "resolve_exchanges load byName shared defaults exs cache' (acc(k \<mapsto> l)) = Inr m"
      using 2(3) False r by (simp add: k_def [symmetric] Let_def)
    note IH = 2(2) [OF k_def False r [symmetric] refl this acc]
    have "dom (acc(k \<mapsto> l)) = insert k (dom acc)" by simp
    moreover have "{k. k \<noteq> [] \<and> (\<exists>ex \<in> set (ex # exs). k = to_lower (trim_space ex))} =
        insert k {k. k \<noteq> [] \<and> (\<exists>ex \<in> set exs. k = to_lower (trim_space ex))}"
      using False by (auto simp: k_def)
    ultimately show ?thesis using IH by (simp only: Un_insert_left Un_insert_right) blast
  qed
qed simp

text \<open>C23. Symbol resolution: when it ends without an error, exactly the configured exchanges with a name, or
  Bybit when none is configured, have a symbol list; no list is empty, and an exchange with inline symbols
  gets exactly those.\<close>

theorem symbolsByExchange_ok:
  assumes "symbolsByExchange getenv load cfg = Inr m"
  shows "dom m = {k. k \<noteq> [] \<and> (\<exists>ex \<in> set (exchange_list cfg). k = to_lower (trim_space ex))} \<and>
    (\<forall>k l. m k = Some l \<longrightarrow> l \<noteq> [] \<and>
      (\<forall>x. exConfigByName (cf_ExchangeConfigs cfg) k = Some x \<longrightarrow> xc_Symbols x \<noteq> [] \<longrightarrow> l = xc_Symbols x))"
proof -
  from assms obtain defaults cache where
    "resolve_exchanges load (exConfigByName (cf_ExchangeConfigs cfg)) (trim_space (ResolveSharedPoolsPath getenv cfg)) defaults
       (exchange_list cfg) cache Map.empty = Inr m"
    by (auto simp: symbolsByExchange_def Let_def split: if_splits prod.splits option.splits)
  from resolve_exchanges_spec [OF this] show ?thesis by simp
qed

lemma demo_symbols: "map_sum id (\<lambda>m. m ''bybit'') (symbolsByExchange demo_env (\<lambda>_. Some [''btc'', ''eth'']) (demo_config []))
    = Inr (Some [''BTCUSDT'', ''ETHUSDT''])"
  by code_simp

theorem symbolsByExchange_ok_witness:
  "\<exists>m. symbolsByExchange demo_env (\<lambda>_. Some [''btc'', ''eth'']) (demo_config []) = Inr m \<and> ''bybit'' \<in> dom m"
proof (cases "symbolsByExchange demo_env (\<lambda>_. Some [''btc'', ''eth'']) (demo_config [])")
  case (Inr m)
  have "to_lower (trim_space ''bybit'') = ''bybit''" by code_simp
  moreover have "exchange_list (demo_config []) = [''bybit'']" by (simp add: exchange_list_def demo_config_def)
  ultimately have "''bybit'' \<in> dom m" using symbolsByExchange_ok [OF Inr] by simp
  with Inr show ?thesis by blast
qed (use demo_symbols in simp)

subsection \<open>Properties of the workers\<close>

definition md_fields :: "(f64 \<Rightarrow> string) \<Rightarrow> MarketData \<Rightarrow> (string \<times> string) list" where
  "md_fields ft md = [(''price'', ft (md_Price md)), (''timestamp'', show_int (md_Timestamp md)),
     (''exchange'', md_Exchange md), (''symbol'', md_Symbol md)]"

lemma entry_command_of [simp]: "entry_command (entry_of ft key md) = Some (key, md_fields ft md)"
  by (simp add: entry_command_def entry_of_def md_fields_def)

text \<open>What the store has to hold after a message: the price under both of its keys.\<close>

definition record_md :: "(f64 \<Rightarrow> string) \<Rightarrow> MarketData \<Rightarrow> hashes \<Rightarrow> hashes" where
  "record_md ft md h = put_fields (keyCanon md) (md_fields ft md) (put_fields (keyRaw md) (md_fields ft md) h)"

fun messages :: "worker_event list \<Rightarrow> MarketData list" where
  "messages [] = []"
| "messages (WClosed # rest) = []"
| "messages (WMsg md # rest) = md # messages rest"
| "messages (WTimer # rest) = messages rest"

text \<open>The store as it will be once the pending batch is written.\<close>

definition promised :: "('s \<Rightarrow> hashes) \<Rightarrow> 's worker \<Rightarrow> hashes" where
  "promised view w = fold (\<lambda>(k, fs). put_fields k fs) (List.map_filter entry_command (wk_batch w)) (view (wk_store w))"

lemma map_filter_append: "List.map_filter f (xs @ ys) = List.map_filter f xs @ List.map_filter f ys"
  by (induction xs) (simp_all add: map_filter_simps split: option.splits)

definition worker_inv :: "int \<Rightarrow> 's worker \<Rightarrow> bool" where
  "worker_inv n w \<longleftrightarrow> (wk_batch w = [] \<or> int (length (wk_batch w)) < n) \<and>
     wk_redisOps w + int (length (wk_batch w)) = 2 * wk_processed w \<and> wk_redisErrors w = 0"

lemma worker_flush_ok:
  assumes "redis_ok R view" and "\<And>cmds s. fst (rd_Exec R cmds s)"
  shows "promised view (worker_flush R w) = promised view w" and "wk_batch (worker_flush R w) = []"
    and "wk_redisOps (worker_flush R w) = wk_redisOps w + int (length (wk_batch w))"
    and "wk_redisErrors (worker_flush R w) = wk_redisErrors w"
    and "wk_processed (worker_flush R w) = wk_processed w"
proof -
  define cmds where "cmds = List.map_filter entry_command (wk_batch w)"
  have e: "rd_Exec R cmds (wk_store w) = (True, snd (rd_Exec R cmds (wk_store w)))"
    using assms(2) by (simp add: prod_eq_iff)
  note v = redis_okD(6) [OF assms(1) e]
  show "promised view (worker_flush R w) = promised view w" "wk_batch (worker_flush R w) = []"
    "wk_redisOps (worker_flush R w) = wk_redisOps w + int (length (wk_batch w))"
    "wk_redisErrors (worker_flush R w) = wk_redisErrors w" "wk_processed (worker_flush R w) = wk_processed w"
    using e v
    by (cases "wk_batch w = []";
        auto simp: worker_flush_def HSetBatch_def promised_def cmds_def [symmetric] map_filter_simps split: prod.splits)+
qed

lemma worker_step_ok:
  assumes "redis_ok R view" and "\<And>cmds s. fst (rd_Exec R cmds s)" and "worker_inv n w"
  shows "worker_inv n (worker_step R ft n ev w)"
    and "promised view (worker_step R ft n ev w) =
      (case ev of WMsg md \<Rightarrow> record_md ft md (promised view w) | _ \<Rightarrow> promised view w)"
    and "wk_processed (worker_step R ft n ev w) = wk_processed w + (case ev of WMsg md \<Rightarrow> 1 | _ \<Rightarrow> 0)"
  using worker_flush_ok [OF assms(1,2)] assms(3)
  by (auto simp: worker_step_def worker_inv_def Let_def promised_def map_filter_append map_filter_simps record_md_def
      split: worker_event.splits)

lemma run_worker_ok:
  assumes "redis_ok R view" and "\<And>cmds s. fst (rd_Exec R cmds s)" and "worker_inv n w"
  shows "worker_inv n (run_worker R ft n evs w) \<and>
    promised view (run_worker R ft n evs w) = fold (record_md ft) (messages evs) (promised view w) \<and>
    wk_processed (run_worker R ft n evs w) = wk_processed w + int (length (messages evs)) \<and>
    (WClosed \<in> set evs \<longrightarrow> wk_batch (run_worker R ft n evs w) = [])"
  using assms(3)
proof (induction evs arbitrary: w)
  case (Cons ev evs)
  show ?case
  proof (cases ev)
    case WClosed
    with worker_step_ok [OF assms(1,2) Cons.prems, of ft WClosed] worker_flush_ok(2) [OF assms(1,2), of w]
    show ?thesis by (simp add: worker_step_def)
  next
    case (WMsg md)
    with worker_step_ok [OF assms(1,2) Cons.prems, of ft ev] Cons.IH [of "worker_step R ft n ev w"]
    show ?thesis by simp
  next
    case WTimer
    with worker_step_ok [OF assms(1,2) Cons.prems, of ft ev] Cons.IH [of "worker_step R ft n ev w"]
    show ?thesis by simp
  qed
qed simp

text \<open>C11. No message is lost between the channel and Redis: as long as the pipelines succeed, a worker whose
  channel closes has written every message it took, in order and under both keys, whatever the timer did in
  between; the counters count each message once and each of its two entries once; and at every moment fewer
  entries wait than the pipeline holds.\<close>

theorem worker_writes_all:
  assumes "redis_ok R view" and "\<And>cmds s. fst (rd_Exec R cmds s)" and "WClosed \<in> set evs"
  shows "view (wk_store (run_worker R ft n evs (worker_start s))) = fold (record_md ft) (messages evs) (view s) \<and>
    wk_processed (run_worker R ft n evs (worker_start s)) = int (length (messages evs)) \<and>
    wk_redisOps (run_worker R ft n evs (worker_start s)) = 2 * int (length (messages evs)) \<and>
    wk_redisErrors (run_worker R ft n evs (worker_start s)) = 0 \<and>
    (\<forall>evs'. wk_batch (run_worker R ft n evs' (worker_start s)) = [] \<or>
       int (length (wk_batch (run_worker R ft n evs' (worker_start s)))) < n)"
proof -
  have w: "worker_inv n (worker_start s)" by (simp add: worker_inv_def worker_start_def)
  have p: "promised view (worker_start s) = view s" by (simp add: promised_def worker_start_def map_filter_simps)
  from run_worker_ok [OF assms(1,2) w, of ft evs] assms(3) p have
    r: "wk_batch (run_worker R ft n evs (worker_start s)) = []"
    "worker_inv n (run_worker R ft n evs (worker_start s))"
    "promised view (run_worker R ft n evs (worker_start s)) = fold (record_md ft) (messages evs) (view s)"
    "wk_processed (run_worker R ft n evs (worker_start s)) = int (length (messages evs))"
    by (auto simp: worker_start_def)
  have "worker_inv n (run_worker R ft n evs' (worker_start s))" for evs'
    using run_worker_ok [OF assms(1,2) w] by blast
  with r show ?thesis by (auto simp: promised_def worker_inv_def map_filter_simps)
qed

definition demo_md :: MarketData where
  "demo_md = \<lparr>md_Exchange = ''gate'', md_Symbol = ''BTC_USDT'', md_Price = 1, md_Timestamp = 5\<rparr>"

theorem worker_writes_all_witness:
  "wk_redisOps (run_worker mem_redis (\<lambda>_. ''1'') 300 [WMsg demo_md, WTimer, WMsg demo_md, WClosed] (worker_start [])) = 4"
  using worker_writes_all [OF mem_redis_ok, of "[WMsg demo_md, WTimer, WMsg demo_md, WClosed]" "\<lambda>_. ''1''" 300 "[]"]
  by (simp add: mem_redis_def)

text \<open>When a pipeline fails, its batch is thrown away: the entries of the messages in it are not written
  again, and only the error counter tells.\<close>

theorem worker_drops_failed_batch:
  assumes "rd_Exec R (List.map_filter entry_command (wk_batch w)) (wk_store w) = (False, s')" and "wk_batch w \<noteq> []"
  shows "wk_batch (worker_flush R w) = [] \<and> wk_store (worker_flush R w) = s' \<and>
    wk_redisErrors (worker_flush R w) = wk_redisErrors w + 1 \<and> wk_redisOps (worker_flush R w) = wk_redisOps w"
  using assms by (simp add: worker_flush_def HSetBatch_def)

theorem worker_drops_failed_batch_witness:
  "wk_batch (worker_flush (mem_redis\<lparr>rd_Exec := \<lambda>cmds s. (False, s)\<rparr>)
     ((worker_start [])\<lparr>wk_batch := [entry_of (\<lambda>_. ''1'') (keyRaw demo_md) demo_md]\<rparr>)) = []"
  using worker_drops_failed_batch [of "mem_redis\<lparr>rd_Exec := \<lambda>cmds s. (False, s)\<rparr>"
      "(worker_start [])\<lparr>wk_batch := [entry_of (\<lambda>_. ''1'') (keyRaw demo_md) demo_md]\<rparr>"] by simp

text \<open>The workers and the clean-up agree on the keys: the key under which a worker writes a price is left
  alone by \<open>normalizeKey\<close> when the exchange name is canonical and a symbol of Gate has its underscore, as
  all connectors send them.\<close>

theorem worker_keys_canonical:
  assumes "NormalizeExchangeName (md_Exchange md) = md_Exchange md" and "md_Exchange md \<noteq> []"
    and "CHR '':'' \<notin> set (md_Symbol md)" and "md_Exchange md = ''gate'' \<longrightarrow> CHR ''_'' \<in> set (trim_space (md_Symbol md))"
  shows "normalizeKey R ''price'' (keyRaw md) s = (Some 0, s)"
proof -
  have "keyRaw md = key3 ''price'' (md_Exchange md) (md_Symbol md)" by (simp add: keyRaw_def key3_def)
  moreover have "to_lower (trim_space (md_Exchange md)) = md_Exchange md"
    using NormalizeExchangeName_fix [of "md_Exchange md"] assms(1) by simp
  ultimately show ?thesis
    using assms normalizeKey_price [OF assms(3,2), of R s] by (simp add: Let_def contains_char)
qed

theorem worker_keys_canonical_witness:
  "normalizeKey mem_redis ''price'' ''price:gate:BTC_USDT'' [] = (Some 0, [])"
proof -
  have "trim_space ''BTC_USDT'' = ''BTC_USDT''" by code_simp
  with worker_keys_canonical [of demo_md mem_redis "[]"] show ?thesis
    by (simp add: demo_md_def NormalizeExchangeName_gate keyRaw_def)
qed

end
