(* ===== verification/Token_Registry.thy ===== *)
theory Token_Registry
  imports Assets
begin

text \<open>
  The token registry the three Uniswap connectors share (\<open>v2_connector.go\<close>, \<open>TokenMeta\<close> and
  \<open>TokenRegistry\<close>): token metadata by address and by symbol, filled from the assets provider with a
  fallback set of mainnet tokens, and the resolution of a token of a pool against it.
\<close>

record TokenMeta =
  tm_Address :: address
  tm_Symbol :: string
  tm_Decimals :: int
  tm_IsStable :: bool
  tm_IsWETH :: bool

definition zero_meta :: TokenMeta where
  "zero_meta = \<lparr>tm_Address = 0, tm_Symbol = [], tm_Decimals = 0, tm_IsStable = False, tm_IsWETH = False\<rparr>"

record TokenRegistry =
  tr_byAddress :: "string \<rightharpoonup> TokenMeta"
  tr_stableBySymbol :: "(string, TokenMeta) gomap"
  tr_nativeBySymbol :: "(string, TokenMeta) gomap"
  tr_wethAddr :: string

definition symbolKey :: "string \<Rightarrow> string" where
  "symbolKey s = to_upper (trim_space s)"

definition clampDecimals :: "int \<Rightarrow> int" where
  "clampDecimals dec = (if dec \<le> 0 \<or> dec > 255 then 0 else dec)"

definition shortAddress :: "string \<Rightarrow> string" where
  "shortAddress addr0 =
     (let addr = trim_prefix addr0 ''0x'' in
      if length addr \<le> 6 then to_upper addr
      else to_upper (take 3 addr @ drop (length addr - 3) addr))"

definition empty_registry :: TokenRegistry where
  "empty_registry = \<lparr>tr_byAddress = Map.empty, tr_stableBySymbol = [], tr_nativeBySymbol = [], tr_wethAddr = []\<rparr>"

definition addStable :: "eth_lib \<Rightarrow> string \<Rightarrow> address \<Rightarrow> int \<Rightarrow> TokenRegistry \<Rightarrow> TokenRegistry" where
  "addStable E symbol addr decimals r =
     (let meta = \<lparr>tm_Address = addr, tm_Symbol = symbolKey symbol, tm_Decimals = clampDecimals decimals,
            tm_IsStable = True, tm_IsWETH = False\<rparr>
      in r\<lparr>tr_stableBySymbol := mput (tm_Symbol meta) meta (tr_stableBySymbol r),
           tr_byAddress := (tr_byAddress r)(lower_hex E addr \<mapsto> meta)\<rparr>)"

definition addNative :: "eth_lib \<Rightarrow> string \<Rightarrow> address \<Rightarrow> int \<Rightarrow> bool \<Rightarrow> TokenRegistry \<Rightarrow> TokenRegistry" where
  "addNative E symbol addr decimals isWETH r =
     (let meta = \<lparr>tm_Address = addr, tm_Symbol = symbolKey symbol, tm_Decimals = clampDecimals decimals,
            tm_IsStable = False, tm_IsWETH = isWETH \<or> equal_fold symbol ''WETH''\<rparr>;
          r = r\<lparr>tr_nativeBySymbol := mput (tm_Symbol meta) meta (tr_nativeBySymbol r),
                tr_byAddress := (tr_byAddress r)(lower_hex E addr \<mapsto> meta)\<rparr>
      in if tm_IsWETH meta then r\<lparr>tr_wethAddr := lower_hex E addr\<rparr> else r)"

definition addNetworkTokens :: "eth_lib \<Rightarrow> Provider \<Rightarrow> string \<Rightarrow> TokenRegistry \<Rightarrow> TokenRegistry" where
  "addNetworkTokens E provider net r =
     (if net = [] then r
      else fold (\<lambda>t. addNative E (ti_Symbol t) (ti_Address t) (int (unat (ti_Decimals t)))
             (ti_Wrapped t \<or> equal_fold (ti_Symbol t) ''WETH'')) (TokensByNetwork provider net TokenTypeNative)
           (fold (\<lambda>t. addStable E (ti_Symbol t) (ti_Address t) (int (unat (ti_Decimals t))))
             (TokensByNetwork provider net TokenTypeStable) r))"

text \<open>Without a network: the networks in the order of their names until a stable token and WETH are known.\<close>

fun add_networks :: "eth_lib \<Rightarrow> Provider \<Rightarrow> string list \<Rightarrow> TokenRegistry \<Rightarrow> TokenRegistry" where
  "add_networks E provider [] r = r"
| "add_networks E provider (net # nets) r =
     (let r = addNetworkTokens E provider net r in
      if tr_stableBySymbol r \<noteq> [] \<and> tr_wethAddr r \<noteq> [] then r else add_networks E provider nets r)"

definition fallback_stables :: "eth_lib \<Rightarrow> TokenRegistry \<Rightarrow> TokenRegistry" where
  "fallback_stables E r =
     addStable E ''USD1'' (eth_HexToAddress E ''0x8d0d000ee44948fc98c9b98a4fa4921476f08b0d'') 18
     (addStable E ''TUSD'' (eth_HexToAddress E ''0x0000000000085d4780B73119b644AE5ecd22b376'') 18
     (addStable E ''DAI'' (eth_HexToAddress E ''0x6b175474e89094c44da98b954eedeac495271d0f'') 18
     (addStable E ''USDT'' (eth_HexToAddress E ''0xdac17f958d2ee523a2206206994597c13d831ec7'') 6
     (addStable E ''USDC'' (eth_HexToAddress E ''0xa0b86991c6218b36c1d19d4a2e9eb0ce3606eb48'') 6 r))))"

definition fallback_weth :: "eth_lib \<Rightarrow> TokenRegistry \<Rightarrow> TokenRegistry" where
  "fallback_weth E r =
     addNative E ''WETH'' (eth_HexToAddress E ''0xC02aaA39b223FE8D0A0e5C4F27eAD9083C756Cc2'') 18 True r"

definition add_fallbacks :: "eth_lib \<Rightarrow> TokenRegistry \<Rightarrow> TokenRegistry" where
  "add_fallbacks E r0 =
     (let r = (if tr_stableBySymbol r0 = [] then fallback_stables E r0 else r0)
      in if tr_wethAddr r = [] then fallback_weth E r else r)"

definition NewTokenRegistry :: "eth_lib \<Rightarrow> Provider option \<Rightarrow> string \<Rightarrow> TokenRegistry" where
  "NewTokenRegistry E provider network =
     (let r = (case provider of None \<Rightarrow> empty_registry
          | Some p \<Rightarrow> (let trimmed = trim_space network in
              if trimmed \<noteq> [] then addNetworkTokens E p trimmed empty_registry
              else add_networks E p (NetworkNames p) empty_registry))
      in add_fallbacks E r)"

definition Resolve :: "eth_lib \<Rightarrow> TokenRegistry \<Rightarrow> address \<Rightarrow> string \<Rightarrow> int \<Rightarrow> TokenMeta" where
  "Resolve E r addr symbol decimals =
     (let addrLower = lower_hex E addr in
      case tr_byAddress r addrLower of Some meta \<Rightarrow> meta
      | None \<Rightarrow>
          (let sy = symbolKey symbol;
               meta = zero_meta\<lparr>tm_Address := addr, tm_Symbol := (if sy = [] then to_upper (shortAddress (eth_Hex E addr)) else sy)\<rparr>
           in case map_of (tr_stableBySymbol r) (tm_Symbol meta) of
                Some st \<Rightarrow> meta\<lparr>tm_Decimals := tm_Decimals st, tm_IsStable := True\<rparr>
              | None \<Rightarrow> (case map_of (tr_nativeBySymbol r) (tm_Symbol meta) of
                  Some nt \<Rightarrow> meta\<lparr>tm_Decimals := tm_Decimals nt, tm_IsWETH := tm_IsWETH nt\<rparr>
                | None \<Rightarrow>
                    (let meta = meta\<lparr>tm_Decimals := (if clampDecimals decimals = 0 then 18 else clampDecimals decimals)\<rparr>
                     in if addrLower = tr_wethAddr r \<or> tm_Symbol meta = ''WETH'' then meta\<lparr>tm_IsWETH := True\<rparr> else meta))))"

definition StableBySymbol :: "TokenRegistry \<Rightarrow> string \<Rightarrow> TokenMeta option" where
  "StableBySymbol r s = map_of (tr_stableBySymbol r) (symbolKey s)"

text \<open>The lists of a registry, or of a nil registry, in the order of the range over the map.\<close>

definition StableTokens :: "TokenRegistry option \<Rightarrow> TokenMeta list" where
  "StableTokens r = (case r of None \<Rightarrow> [] | Some r \<Rightarrow> map snd (tr_stableBySymbol r))"

definition NativeTokens :: "TokenRegistry option \<Rightarrow> TokenMeta list" where
  "NativeTokens r = (case r of None \<Rightarrow> [] | Some r \<Rightarrow> map snd (tr_nativeBySymbol r))"

definition WETHAddress :: "eth_lib \<Rightarrow> TokenRegistry option \<Rightarrow> address" where
  "WETHAddress E r = (case r of None \<Rightarrow> 0 | Some r \<Rightarrow> if tr_wethAddr r = [] then 0 else eth_HexToAddress E (tr_wethAddr r))"

definition WETHMeta :: "TokenRegistry \<Rightarrow> TokenMeta option" where
  "WETHMeta r = (if tr_wethAddr r = [] then None else tr_byAddress r (tr_wethAddr r))"

definition IsStableSymbol :: "TokenRegistry \<Rightarrow> string \<Rightarrow> bool" where
  "IsStableSymbol r s \<longleftrightarrow> map_of (tr_stableBySymbol r) (symbolKey s) \<noteq> None"

definition IsWETHAddress :: "eth_lib \<Rightarrow> TokenRegistry \<Rightarrow> address \<Rightarrow> bool" where
  "IsWETHAddress E r addr \<longleftrightarrow> tr_wethAddr r \<noteq> [] \<and> lower_hex E addr = tr_wethAddr r"

subsection \<open>Lemmas: the registry's invariant\<close>

definition meta_ok :: "TokenMeta \<Rightarrow> bool" where
  "meta_ok m \<longleftrightarrow> 0 \<le> tm_Decimals m \<and> tm_Decimals m \<le> 255 \<and> symbolKey (tm_Symbol m) = tm_Symbol m"

definition registry_inv :: "eth_lib \<Rightarrow> TokenRegistry \<Rightarrow> bool" where
  "registry_inv E r \<longleftrightarrow>
     (\<forall>a m. tr_byAddress r a = Some m \<longrightarrow> meta_ok m \<and> a = lower_hex E (tm_Address m)) \<and>
     (\<forall>k m. map_of (tr_stableBySymbol r) k = Some m \<longrightarrow> meta_ok m \<and> tm_IsStable m \<and> k = tm_Symbol m) \<and>
     (\<forall>k m. map_of (tr_nativeBySymbol r) k = Some m \<longrightarrow> meta_ok m \<and> \<not> tm_IsStable m \<and> k = tm_Symbol m) \<and>
     (tr_wethAddr r \<noteq> [] \<longrightarrow> tr_byAddress r (tr_wethAddr r) \<noteq> None)"

lemma symbolKey_idem [simp]: "symbolKey (symbolKey s) = symbolKey s"
  by (simp add: symbolKey_def trim_to_upper)

lemma clampDecimals_range: "0 \<le> clampDecimals d \<and> clampDecimals d \<le> 255"
  by (simp add: clampDecimals_def)

lemma registry_inv_empty: "registry_inv E empty_registry"
  by (simp add: registry_inv_def empty_registry_def)

lemma registry_inv_addStable: "registry_inv E r \<Longrightarrow> registry_inv E (addStable E s a d r)"
  using clampDecimals_range [of d] by (auto simp: registry_inv_def addStable_def Let_def meta_ok_def)

lemma registry_inv_addNative: "registry_inv E r \<Longrightarrow> registry_inv E (addNative E s a d w r)"
  using clampDecimals_range [of d] by (auto simp: registry_inv_def addNative_def Let_def meta_ok_def)

lemma fold_inv: "(\<And>x r. x \<in> set xs \<Longrightarrow> Q r \<Longrightarrow> Q (f x r)) \<Longrightarrow> Q r \<Longrightarrow> Q (fold f xs r)"
  by (induction xs arbitrary: r) auto

lemma registry_inv_addNetworkTokens: "registry_inv E r \<Longrightarrow> registry_inv E (addNetworkTokens E p net r)"
  unfolding addNetworkTokens_def
  by (auto intro!: fold_inv registry_inv_addStable registry_inv_addNative)

lemma registry_inv_add_networks: "registry_inv E r \<Longrightarrow> registry_inv E (add_networks E p nets r)"
  by (induction E p nets r rule: add_networks.induct) (simp_all add: Let_def registry_inv_addNetworkTokens)

lemma registry_inv_New: "registry_inv E (NewTokenRegistry E provider network)"
  by (auto simp: NewTokenRegistry_def add_fallbacks_def fallback_stables_def fallback_weth_def Let_def split: option.split
      intro!: registry_inv_addStable registry_inv_addNative registry_inv_empty registry_inv_addNetworkTokens
        registry_inv_add_networks)

lemma mput_ne [simp]: "mput k v m \<noteq> []"
proof
  assume "mput k v m = []"
  with keys_mput [of k v m] show False by simp
qed

lemma addStable_frame [simp]: "tr_stableBySymbol (addStable E s a d r) \<noteq> []" "tr_wethAddr (addStable E s a d r) = tr_wethAddr r"
  by (simp_all add: addStable_def Let_def)

lemma addNative_frame [simp]: "tr_stableBySymbol (addNative E s a d w r) = tr_stableBySymbol r"
  by (simp add: addNative_def Let_def)

lemma addNative_weth: "eth_ok E \<Longrightarrow> tr_wethAddr (addNative E s a d True r) \<noteq> []"
  by (simp add: addNative_def Let_def lower_hex_nonempty)

lemma fallback_stables_frame [simp]: "tr_stableBySymbol (fallback_stables E r) \<noteq> []"
  unfolding fallback_stables_def by (rule addStable_frame)

lemma fallback_weth_frame [simp]: "tr_stableBySymbol (fallback_weth E r) = tr_stableBySymbol r"
  unfolding fallback_weth_def by (rule addNative_frame)

lemma fallback_weth_has: "eth_ok E \<Longrightarrow> tr_wethAddr (fallback_weth E r) \<noteq> []"
  unfolding fallback_weth_def by (rule addNative_weth)

lemma fallbacks_have_tokens:
  assumes "eth_ok E"
  shows "tr_stableBySymbol (add_fallbacks E r) \<noteq> [] \<and> tr_wethAddr (add_fallbacks E r) \<noteq> []"
  by (simp add: add_fallbacks_def Let_def fallback_weth_has [OF assms])

lemma New_has_tokens:
  assumes "eth_ok E"
  shows "tr_stableBySymbol (NewTokenRegistry E provider network) \<noteq> [] \<and> tr_wethAddr (NewTokenRegistry E provider network) \<noteq> []"
  unfolding NewTokenRegistry_def Let_def by (rule fallbacks_have_tokens [OF assms])

lemma Resolve_cases:
  obtains (known) m where "tr_byAddress r (lower_hex E a) = Some m" "Resolve E r a s d = m"
  | (stable_symbol) k st where "map_of (tr_stableBySymbol r) k = Some st" "tm_Decimals (Resolve E r a s d) = tm_Decimals st"
      "tm_IsStable (Resolve E r a s d)" "tm_Symbol (Resolve E r a s d) = k" "symbolKey s \<noteq> [] \<longrightarrow> k = symbolKey s"
      "tr_byAddress r (lower_hex E a) = None"
  | (native_symbol) k nt where "map_of (tr_nativeBySymbol r) k = Some nt" "tm_Decimals (Resolve E r a s d) = tm_Decimals nt"
      "\<not> tm_IsStable (Resolve E r a s d)" "map_of (tr_stableBySymbol r) k = None" "symbolKey s \<noteq> [] \<longrightarrow> k = symbolKey s"
  | (other) k where "tm_Decimals (Resolve E r a s d) = (if clampDecimals d = 0 then 18 else clampDecimals d)"
      "\<not> tm_IsStable (Resolve E r a s d)" "map_of (tr_stableBySymbol r) k = None" "symbolKey s \<noteq> [] \<longrightarrow> k = symbolKey s"
proof -
  define k where "k = (if symbolKey s = [] then to_upper (shortAddress (eth_Hex E a)) else symbolKey s)"
  have k: "symbolKey s \<noteq> [] \<longrightarrow> k = symbolKey s" by (simp add: k_def)
  note unf = Resolve_def Let_def k_def [symmetric]
  show thesis
  proof (cases "tr_byAddress r (lower_hex E a)")
    case (Some m)
    then show thesis by (intro known [of m]) (simp_all add: unf)
  next
    case none: None
    show thesis
    proof (cases "map_of (tr_stableBySymbol r) k")
      case (Some st)
      with none k show thesis by (intro stable_symbol [of k st]) (simp_all add: unf)
    next
      case st: None
      show thesis
      proof (cases "map_of (tr_nativeBySymbol r) k")
        case (Some nt)
        with none st k show thesis by (intro native_symbol [of k nt]) (simp_all add: unf zero_meta_def)
      next
        case None
        with none st k show thesis by (intro other [of k]) (simp_all add: unf zero_meta_def)
      qed
    qed
  qed
qed

lemma Resolve_ok:
  assumes "registry_inv E r"
  shows "0 \<le> tm_Decimals (Resolve E r a s d) \<and> tm_Decimals (Resolve E r a s d) \<le> 255"
  by (cases rule: Resolve_cases [of r E a s d])
    (use assms clampDecimals_range [of d] in \<open>auto simp: registry_inv_def meta_ok_def\<close>)

text \<open>C24. The registry is always complete and consistent: whatever the assets provider knows, a new registry
  has a stable token and a WETH address with metadata; all its entries have decimals between 0 and 255; and
  resolving any token gives decimals in that range, the registry's own entry for an address it knows, and
  the stable mark for the symbol of a stable token.\<close>

theorem NewTokenRegistry_complete:
  assumes "eth_ok E" and "r = NewTokenRegistry E provider network"
  shows "StableTokens (Some r) \<noteq> [] \<and> (\<exists>m. WETHMeta r = Some m \<and> lower_hex E (tm_Address m) = tr_wethAddr r) \<and>
    0 \<le> tm_Decimals (Resolve E r a s d) \<and> tm_Decimals (Resolve E r a s d) \<le> 255 \<and>
    (\<forall>m. tr_byAddress r (lower_hex E a) = Some m \<longrightarrow> Resolve E r a s d = m \<and> tm_Address m = a) \<and>
    (tr_byAddress r (lower_hex E a) = None \<and> symbolKey s \<noteq> [] \<and> IsStableSymbol r s \<longrightarrow> tm_IsStable (Resolve E r a s d))"
proof -
  have inv: "registry_inv E r" unfolding assms(2) by (rule registry_inv_New)
  have ne: "tr_stableBySymbol r \<noteq> []" "tr_wethAddr r \<noteq> []" using New_has_tokens [OF assms(1)] by (auto simp: assms(2))
  then obtain m where m: "tr_byAddress r (tr_wethAddr r) = Some m" using inv by (auto simp: registry_inv_def)
  have w: "\<exists>m. WETHMeta r = Some m \<and> lower_hex E (tm_Address m) = tr_wethAddr r"
    using m ne inv by (auto simp: WETHMeta_def registry_inv_def)
  have known: "Resolve E r a s d = m \<and> tm_Address m = a" if "tr_byAddress r (lower_hex E a) = Some m" for m
  proof -
    have "lower_hex E a = lower_hex E (tm_Address m)" using that inv by (simp add: registry_inv_def)
    then have "tm_Address m = a" by (simp add: lower_hex_inj [OF assms(1)])
    with that show ?thesis by (simp add: Resolve_def)
  qed
  have "tm_IsStable (Resolve E r a s d)" if "tr_byAddress r (lower_hex E a) = None" "symbolKey s \<noteq> []" "IsStableSymbol r s"
    using that by (cases rule: Resolve_cases [of r E a s d]) (auto simp: IsStableSymbol_def)
  with w known Resolve_ok [OF inv] ne(1) show ?thesis by (simp add: StableTokens_def)
qed

theorem NewTokenRegistry_complete_witness:
  "StableTokens (Some (NewTokenRegistry plain_eth None ''ethereum'')) \<noteq> [] \<and>
   tm_Decimals (Resolve plain_eth (NewTokenRegistry plain_eth None ''ethereum'') 7 ''abc'' 300) \<le> 255"
  using NewTokenRegistry_complete [OF plain_eth_ok refl] by blast

end
