(* ===== verification/V2_Pools.thy ===== *)
theory V2_Pools
  imports Token_Registry
begin

text \<open>
  The pools of the Uniswap V2 connector (\<open>v2_connector.go\<close>): the pool records, the loader of the
  GeckoTerminal file with its reference pools, and the corrections read from the chain. File reads, JSON
  decoding and the answers of the Ethereum node are parameters; \<open>eth_call to data\<close> is the answer of
  the node to a call, \<open>None\<close> for an error.
\<close>

subsection \<open>Pools\<close>

record PoolConfig =
  pc_Address :: address
  pc_PairName :: string
  pc_Token0 :: TokenMeta
  pc_Token1 :: TokenMeta
  pc_BaseIsToken0 :: bool
  pc_CanonicalPair :: string
  pc_HasStable :: bool
  pc_HasWETH :: bool
  pc_StableSymbol :: string

definition NormalizePair :: "PoolConfig \<Rightarrow> string" where
  "NormalizePair pool =
     (if pc_CanonicalPair pool \<noteq> [] then pc_CanonicalPair pool
      else let base = tm_Symbol (pc_Token0 pool); quote = tm_Symbol (pc_Token1 pool) in
        if \<not> pc_BaseIsToken0 pool then quote @ base else base @ quote)"

definition FinalizePool :: "PoolConfig \<Rightarrow> PoolConfig" where
  "FinalizePool p0 =
     (let p = p0\<lparr>pc_HasStable := tm_IsStable (pc_Token0 p0) \<or> tm_IsStable (pc_Token1 p0),
           pc_HasWETH := tm_IsWETH (pc_Token0 p0) \<or> tm_IsWETH (pc_Token1 p0),
           pc_StableSymbol := (if tm_IsStable (pc_Token0 p0) then tm_Symbol (pc_Token0 p0)
              else if tm_IsStable (pc_Token1 p0) then tm_Symbol (pc_Token1 p0) else [])\<rparr>
      in if pc_CanonicalPair p = [] then p\<lparr>pc_CanonicalPair := NormalizePair p\<rparr> else p)"

definition baseSymbol :: "PoolConfig \<Rightarrow> string" where
  "baseSymbol m = (if pc_BaseIsToken0 m then tm_Symbol (pc_Token0 m) else tm_Symbol (pc_Token1 m))"

definition quoteSymbol :: "PoolConfig \<Rightarrow> string" where
  "quoteSymbol m = (if pc_BaseIsToken0 m then tm_Symbol (pc_Token1 m) else tm_Symbol (pc_Token0 m))"

definition tokenSymbol :: "PoolConfig \<Rightarrow> string" where
  "tokenSymbol m =
     (if pc_HasStable m \<and> \<not> pc_HasWETH m \<and> tm_IsStable (pc_Token0 m) then tm_Symbol (pc_Token1 m)
      else if pc_HasStable m \<and> \<not> pc_HasWETH m \<and> tm_IsStable (pc_Token1 m) then tm_Symbol (pc_Token0 m)
      else if pc_HasWETH m \<and> \<not> pc_HasStable m \<and> tm_IsWETH (pc_Token0 m) then tm_Symbol (pc_Token1 m)
      else if pc_HasWETH m \<and> \<not> pc_HasStable m \<and> tm_IsWETH (pc_Token1 m) then tm_Symbol (pc_Token0 m)
      else baseSymbol m)"

definition swapPoolTokens :: "PoolConfig \<Rightarrow> PoolConfig" where
  "swapPoolTokens p = p\<lparr>pc_Token0 := pc_Token1 p, pc_Token1 := pc_Token0 p, pc_BaseIsToken0 := \<not> pc_BaseIsToken0 p\<rparr>"

subsection \<open>The GeckoTerminal file\<close>

text \<open>A number that may be written as a string; \<open>json_string\<close> and \<open>json_int\<close> decode a JSON value into a Go
  \<open>string\<close> and \<open>int\<close>.\<close>

definition intOrString_UnmarshalJSON :: "(string \<Rightarrow> string option) \<Rightarrow> (string \<Rightarrow> int option) \<Rightarrow> string \<Rightarrow> int option" where
  "intOrString_UnmarshalJSON json_string json_int b =
     (let bb = trim_space b in
      if bb = [] then Some 0
      else if hd bb = CHR 0x22 then
        (case json_string bb of None \<Rightarrow> None
         | Some s0 \<Rightarrow> (let s = trim_space s0 in if s = [] then Some 0 else parse_int64 s))
      else json_int bb)"

record geckoToken =
  gt_Address :: string
  gt_Symbol :: string
  gt_Decimals :: int

record geckoPool =
  gp_Dex :: string
  gp_Network :: string
  gp_PairName :: string
  gp_PoolID :: string
  gp_PoolAddress :: string
  gp_Token0 :: geckoToken
  gp_Token1 :: geckoToken

definition normalizeToken :: "eth_lib \<Rightarrow> geckoToken \<Rightarrow> TokenRegistry \<Rightarrow> TokenMeta" where
  "normalizeToken E token registry =
     (let addr = eth_HexToAddress E (trim_space (gt_Address token));
          meta = Resolve E registry addr (gt_Symbol token) (gt_Decimals token);
          meta = (if tm_Address meta = 0 then meta\<lparr>tm_Address := addr\<rparr> else meta);
          meta = (if tm_Symbol meta = [] then meta\<lparr>tm_Symbol := to_upper (shortAddress (eth_Hex E addr))\<rparr> else meta)
      in if tm_Decimals meta = 0 then meta\<lparr>tm_Decimals := 18\<rparr> else meta)"

text \<open>The switch that picks the base token.\<close>

definition pick_base :: "TokenMeta \<Rightarrow> TokenMeta \<Rightarrow> bool" where
  "pick_base t0 t1 =
     (let stable0 = tm_IsStable t0; stable1 = tm_IsStable t1; weth0 = tm_IsWETH t0; weth1 = tm_IsWETH t1 in
      if (weth0 \<or> weth1) \<and> (stable0 \<or> stable1) then
        (if weth0 \<and> stable1 then True else if stable0 \<and> weth1 then False else if weth0 then True else False)
      else if stable0 \<or> stable1 then \<not> stable0
      else if weth0 \<or> weth1 then \<not> weth0
      else True)"

definition make_pool :: "address \<Rightarrow> string \<Rightarrow> TokenMeta \<Rightarrow> TokenMeta \<Rightarrow> bool \<Rightarrow> PoolConfig" where
  "make_pool addr name t0 t1 base0 = FinalizePool
     \<lparr>pc_Address = addr, pc_PairName = name, pc_Token0 = t0, pc_Token1 = t1, pc_BaseIsToken0 = base0,
      pc_CanonicalPair = [], pc_HasStable = False, pc_HasWETH = False, pc_StableSymbol = []\<rparr>"

type_synonym pool_acc = "PoolConfig list \<times> (address \<Rightarrow> bool)"

definition add_pool :: "PoolConfig \<Rightarrow> pool_acc \<Rightarrow> pool_acc" where
  "add_pool p acc = (fst acc @ [p], (snd acc)(pc_Address p := True))"

text \<open>The body of the loop over the entries of the file.\<close>

definition load_entry :: "eth_lib \<Rightarrow> TokenRegistry \<Rightarrow> geckoPool \<Rightarrow> pool_acc \<Rightarrow> pool_acc" where
  "load_entry E registry entry acc =
     (if \<not> equal_fold (gp_Dex entry) ''uniswap_v2'' then acc
      else if \<not> contains (to_lower (gp_Network entry)) ''eth'' then acc
      else let addrHex = (if gp_PoolID entry = [] then gp_PoolAddress entry else gp_PoolID entry) in
      if \<not> eth_IsHexAddress E addrHex then acc
      else let addr = eth_HexToAddress E addrHex in
      if snd acc addr then acc
      else let t0 = normalizeToken E (gp_Token0 entry) registry; t1 = normalizeToken E (gp_Token1 entry) registry in
      if tm_IsStable t0 \<and> tm_IsStable t1 then acc
      else if \<not> tm_IsStable t0 \<and> \<not> tm_IsStable t1 \<and> \<not> tm_IsWETH t0 \<and> \<not> tm_IsWETH t1 then acc
      else add_pool (make_pool addr (gp_PairName entry) t0 t1 (pick_base t0 t1)) acc)"

definition hardWethStable :: "(string \<times> string) list" where
  "hardWethStable = [(''0xB4e16d0168e52d35CaCD2c6185b44281Ec28C9Dc'', ''USDC''),
     (''0x0d4a11d5EEaaC28EC3F61d100daf4d40471f1852'', ''USDT''), (''0xA478c2975Ab1Ea89e8196811F51A7B7Ade33eB11'', ''DAI'')]"

text \<open>The body of the loop over the reference pools.\<close>

definition load_hard :: "eth_lib \<Rightarrow> TokenRegistry \<Rightarrow> string \<times> string \<Rightarrow> pool_acc \<Rightarrow> pool_acc" where
  "load_hard E registry hw acc =
     (let addr = eth_HexToAddress E (fst hw) in
      if snd acc addr then acc
      else case StableBySymbol registry (snd hw) of None \<Rightarrow> acc
      | Some stableMeta \<Rightarrow>
         (case WETHMeta registry of None \<Rightarrow> acc
          | Some wethMeta \<Rightarrow>
              if tm_Address wethMeta = 0 then acc
              else let st = stableMeta\<lparr>tm_IsStable := True,
                         tm_Decimals := (if tm_Decimals stableMeta = 0 then 18 else tm_Decimals stableMeta)\<rparr>;
                       we = wethMeta\<lparr>tm_Decimals := (if tm_Decimals wethMeta = 0 then 18 else tm_Decimals wethMeta),
                         tm_IsWETH := True\<rparr>
              in if to_upper (snd hw) = ''USDC'' then add_pool (make_pool addr ''USDC / WETH (hard)'' st we False) acc
                 else if to_upper (snd hw) = ''USDT'' then add_pool (make_pool addr ''WETH / USDT (hard)'' we st True) acc
                 else if to_upper (snd hw) = ''DAI'' then add_pool (make_pool addr ''DAI / WETH (hard)'' st we False) acc
                 else acc))"

datatype pools_error = PoolsFileUnreadable | PoolsFileInvalid

definition LoadPoolsFromGeckoWithRegistry ::
    "eth_lib \<Rightarrow> (string \<Rightarrow> 'd option) \<Rightarrow> ('d \<Rightarrow> geckoPool list option) \<Rightarrow> string \<Rightarrow> TokenRegistry option
     \<Rightarrow> (pools_error, PoolConfig list) result" where
  "LoadPoolsFromGeckoWithRegistry E read_file decode path registry0 =
     (let registry = (case registry0 of None \<Rightarrow> NewTokenRegistry E None [] | Some r \<Rightarrow> r) in
      case read_file path of None \<Rightarrow> Inl PoolsFileUnreadable
      | Some data \<Rightarrow> (case decode data of None \<Rightarrow> Inl PoolsFileInvalid
         | Some entries \<Rightarrow> Inr (fst (fold (load_hard E registry) hardWethStable
             (fold (load_entry E registry) entries ([], \<lambda>_. False))))))"

definition LoadPoolsFromGecko ::
    "eth_lib \<Rightarrow> (string \<Rightarrow> 'd option) \<Rightarrow> ('d \<Rightarrow> geckoPool list option) \<Rightarrow> string \<Rightarrow> (pools_error, PoolConfig list) result" where
  "LoadPoolsFromGecko E read_file decode path = LoadPoolsFromGeckoWithRegistry E read_file decode path None"

subsection \<open>Corrections from the chain\<close>

datatype rpc_error = CallFailed | UnexpectedResult string | BadHex | ResultTooShort int
  | TokenMismatch address address | EmptyDecimals | InvalidDecimals int | DialFailed

type_synonym eth_call = "address \<Rightarrow> string \<Rightarrow> string option"

definition parseAddressResult :: "string \<Rightarrow> (rpc_error, address) result" where
  "parseAddressResult res0 =
     (let res = trim_space res0 in
      if \<not> has_prefix res ''0x'' then Inl (UnexpectedResult res)
      else (case hex_decode (trim_prefix res ''0x'') of None \<Rightarrow> Inl BadHex
        | Some b \<Rightarrow> if length b < 32 then Inl (ResultTooShort (int (length b)))
            else Inr (word_of_int (set_bytes (drop 12 b)))))"

definition callAddress :: "eth_call \<Rightarrow> address \<Rightarrow> string \<Rightarrow> (rpc_error, address) result" where
  "callAddress call pair data = (case call pair data of None \<Rightarrow> Inl CallFailed | Some r \<Rightarrow> parseAddressResult r)"

definition fetchPairTokens :: "eth_call \<Rightarrow> address \<Rightarrow> (rpc_error, address \<times> address) result" where
  "fetchPairTokens call pair =
     bind_res (callAddress call pair ''0x0dfe1681'') (\<lambda>t0.
     bind_res (callAddress call pair ''0xd21220a7'') (\<lambda>t1. Inr (t0, t1)))"

definition ensurePoolOrder :: "eth_call \<Rightarrow> PoolConfig \<Rightarrow> (rpc_error, unit) result \<times> PoolConfig" where
  "ensurePoolOrder call pool =
     (case fetchPairTokens call (pc_Address pool) of Inl e \<Rightarrow> (Inl e, pool)
      | Inr (t0, t1) \<Rightarrow>
          if t0 = tm_Address (pc_Token0 pool) \<and> t1 = tm_Address (pc_Token1 pool) then (Inr (), pool)
          else if t0 = tm_Address (pc_Token1 pool) \<and> t1 = tm_Address (pc_Token0 pool)
          then (Inr (), FinalizePool (swapPoolTokens pool))
          else (Inl (TokenMismatch t0 t1), pool))"

text \<open>\<open>Int64\<close> of a longer number takes its low 64 bits as a signed integer.\<close>

definition fetchTokenDecimals :: "eth_call \<Rightarrow> address \<Rightarrow> (rpc_error, int) result" where
  "fetchTokenDecimals call addr =
     (case call addr ''0x313ce567'' of None \<Rightarrow> Inl CallFailed
      | Some r \<Rightarrow>
          (let res = trim_prefix (trim_space r) ''0x'' in
           if res = [] then Inl EmptyDecimals
           else (case hex_decode res of None \<Rightarrow> Inl BadHex
             | Some data \<Rightarrow>
                 if data = [] then Inl EmptyDecimals
                 else (let dec = sint (word_of_int (set_bytes data) :: 64 word) in
                   if dec \<le> 0 then Inl (InvalidDecimals dec) else Inr dec))))"

type_synonym decimals_cache = "address \<rightharpoonup> int"

definition updateMetaDecimals :: "eth_call \<Rightarrow> TokenMeta \<Rightarrow> decimals_cache \<Rightarrow> TokenMeta \<times> decimals_cache" where
  "updateMetaDecimals call meta cache =
     (if tm_IsStable meta \<or> tm_IsWETH meta then (meta, cache)
      else if tm_Decimals meta > 0 \<and> tm_Decimals meta \<le> 18 \<and> tm_Decimals meta \<ge> 10 then (meta, cache)
      else (case cache (tm_Address meta) of Some cached \<Rightarrow> (meta\<lparr>tm_Decimals := cached\<rparr>, cache)
        | None \<Rightarrow> (case fetchTokenDecimals call (tm_Address meta) of Inl e \<Rightarrow> (meta, cache)
           | Inr dec \<Rightarrow> if dec > 0 then (meta\<lparr>tm_Decimals := dec\<rparr>, cache(tm_Address meta \<mapsto> dec)) else (meta, cache))))"

definition updateTokenDecimals :: "eth_call \<Rightarrow> PoolConfig \<Rightarrow> decimals_cache \<Rightarrow> PoolConfig \<times> decimals_cache" where
  "updateTokenDecimals call pool cache =
     (let (m0, cache) = updateMetaDecimals call (pc_Token0 pool) cache;
          (m1, cache) = updateMetaDecimals call (pc_Token1 pool) cache
      in (FinalizePool (pool\<lparr>pc_Token0 := m0, pc_Token1 := m1\<rparr>), cache))"

fun adjust_pools :: "eth_call \<Rightarrow> PoolConfig list \<Rightarrow> decimals_cache \<Rightarrow> PoolConfig list" where
  "adjust_pools call [] cache = []"
| "adjust_pools call (pool # pools) cache =
     (let (pool, cache) = updateTokenDecimals call (snd (ensurePoolOrder call pool)) cache
      in pool # adjust_pools call pools cache)"

text \<open>\<open>dial url\<close> is the client of the node, \<open>None\<close> when the connection fails.\<close>

definition AdjustPoolsOrdering ::
    "(string \<Rightarrow> eth_call option) \<Rightarrow> string \<Rightarrow> PoolConfig list \<Rightarrow> (rpc_error, PoolConfig list) result" where
  "AdjustPoolsOrdering dial httpURL pools =
     (let trimmed = trim_space httpURL in
      if trimmed = [] then Inr pools
      else (case dial trimmed of None \<Rightarrow> Inl DialFailed
        | Some call \<Rightarrow> Inr (adjust_pools call pools Map.empty)))"

subsection \<open>Lemmas: pools\<close>

definition pool_base :: "PoolConfig \<Rightarrow> TokenMeta" where
  "pool_base p = (if pc_BaseIsToken0 p then pc_Token0 p else pc_Token1 p)"

definition pool_quote :: "PoolConfig \<Rightarrow> TokenMeta" where
  "pool_quote p = (if pc_BaseIsToken0 p then pc_Token1 p else pc_Token0 p)"

text \<open>What a pool of the connector promises: a pair against a stable token or WETH, but not of two stable
  tokens, whose base is the token to be priced, with usable decimals and the pair's name.\<close>

definition pool_ok :: "PoolConfig \<Rightarrow> bool" where
  "pool_ok p \<longleftrightarrow> \<not> (tm_IsStable (pc_Token0 p) \<and> tm_IsStable (pc_Token1 p)) \<and>
     pc_HasStable p = (tm_IsStable (pc_Token0 p) \<or> tm_IsStable (pc_Token1 p)) \<and>
     pc_HasWETH p = (tm_IsWETH (pc_Token0 p) \<or> tm_IsWETH (pc_Token1 p)) \<and>
     (pc_HasStable p \<or> pc_HasWETH p) \<and>
     tm_Decimals (pc_Token0 p) \<in> {1..255} \<and> tm_Decimals (pc_Token1 p) \<in> {1..255} \<and>
     (tm_IsStable (pool_base p) \<longrightarrow> tm_IsWETH (pool_base p)) \<and>
     (tm_IsWETH (pool_base p) \<and> \<not> pc_HasStable p \<longrightarrow> tm_IsWETH (pool_quote p)) \<and>
     pc_CanonicalPair p = baseSymbol p @ quoteSymbol p"

lemma FinalizePool_frame [simp]:
  "pc_Address (FinalizePool p) = pc_Address p" "pc_Token0 (FinalizePool p) = pc_Token0 p"
  "pc_Token1 (FinalizePool p) = pc_Token1 p" "pc_BaseIsToken0 (FinalizePool p) = pc_BaseIsToken0 p"
  "pc_HasStable (FinalizePool p) = (tm_IsStable (pc_Token0 p) \<or> tm_IsStable (pc_Token1 p))"
  "pc_HasWETH (FinalizePool p) = (tm_IsWETH (pc_Token0 p) \<or> tm_IsWETH (pc_Token1 p))"
  "pc_CanonicalPair (FinalizePool p) = NormalizePair p" "pc_PairName (FinalizePool p) = pc_PairName p"
  by (simp_all add: FinalizePool_def NormalizePair_def Let_def)

lemma make_pool_frame [simp]:
  "pc_Address (make_pool a n t0 t1 b) = a" "pc_Token0 (make_pool a n t0 t1 b) = t0"
  "pc_Token1 (make_pool a n t0 t1 b) = t1" "pc_BaseIsToken0 (make_pool a n t0 t1 b) = b"
  by (simp_all add: make_pool_def)

lemma make_pool_ok:
  assumes "\<not> (tm_IsStable t0 \<and> tm_IsStable t1)" and "tm_IsStable t0 \<or> tm_IsStable t1 \<or> tm_IsWETH t0 \<or> tm_IsWETH t1"
    and "tm_Decimals t0 \<in> {1..255}" and "tm_Decimals t1 \<in> {1..255}"
    and "tm_IsStable (if b then t0 else t1) \<longrightarrow> tm_IsWETH (if b then t0 else t1)"
    and "tm_IsWETH (if b then t0 else t1) \<and> \<not> tm_IsStable t0 \<and> \<not> tm_IsStable t1 \<longrightarrow> tm_IsWETH (if b then t1 else t0)"
  shows "pool_ok (make_pool a n t0 t1 b)"
  using assms by (auto simp: pool_ok_def make_pool_def pool_base_def pool_quote_def NormalizePair_def baseSymbol_def quoteSymbol_def)

lemma pick_base_cases:
  assumes "\<not> (tm_IsStable t0 \<and> tm_IsStable t1)" and "b = pick_base t0 t1"
  shows "tm_IsStable (if b then t0 else t1) \<longrightarrow> tm_IsWETH (if b then t0 else t1)"
    and "tm_IsWETH (if b then t0 else t1) \<and> \<not> tm_IsStable t0 \<and> \<not> tm_IsStable t1 \<longrightarrow> tm_IsWETH (if b then t1 else t0)"
  using assms by (auto simp: pick_base_def Let_def)

lemma normalizeToken_decimals:
  assumes "registry_inv E r" shows "tm_Decimals (normalizeToken E t r) \<in> {1..255}"
proof -
  define m where "m = Resolve E r (eth_HexToAddress E (trim_space (gt_Address t))) (gt_Symbol t) (gt_Decimals t)"
  have "0 \<le> tm_Decimals m" "tm_Decimals m \<le> 255" using Resolve_ok [OF assms] by (simp_all add: m_def)
  then show ?thesis by (simp add: normalizeToken_def m_def [symmetric] Let_def)
qed

definition acc_ok :: "pool_acc \<Rightarrow> bool" where
  "acc_ok acc \<longleftrightarrow> distinct (map pc_Address (fst acc)) \<and> (\<forall>a. snd acc a \<longleftrightarrow> a \<in> pc_Address ` set (fst acc)) \<and>
     (\<forall>p \<in> set (fst acc). pool_ok p)"

lemma acc_ok_add: "acc_ok acc \<Longrightarrow> \<not> snd acc (pc_Address p) \<Longrightarrow> pool_ok p \<Longrightarrow> acc_ok (add_pool p acc)"
  by (auto simp: acc_ok_def add_pool_def)

text \<open>An entry of the file that the loader takes.\<close>

definition eligible :: "eth_lib \<Rightarrow> TokenRegistry \<Rightarrow> geckoPool \<Rightarrow> bool" where
  "eligible E r e \<longleftrightarrow> equal_fold (gp_Dex e) ''uniswap_v2'' \<and> contains (to_lower (gp_Network e)) ''eth'' \<and>
     eth_IsHexAddress E (if gp_PoolID e = [] then gp_PoolAddress e else gp_PoolID e) \<and>
     (let t0 = normalizeToken E (gp_Token0 e) r; t1 = normalizeToken E (gp_Token1 e) r in
      \<not> (tm_IsStable t0 \<and> tm_IsStable t1) \<and> (tm_IsStable t0 \<or> tm_IsStable t1 \<or> tm_IsWETH t0 \<or> tm_IsWETH t1))"

definition entry_address :: "eth_lib \<Rightarrow> geckoPool \<Rightarrow> address" where
  "entry_address E e = eth_HexToAddress E (if gp_PoolID e = [] then gp_PoolAddress e else gp_PoolID e)"

lemma load_entry_eq:
  "load_entry E r e acc =
     (let t0 = normalizeToken E (gp_Token0 e) r; t1 = normalizeToken E (gp_Token1 e) r in
      if eligible E r e \<and> \<not> snd acc (entry_address E e)
      then add_pool (make_pool (entry_address E e) (gp_PairName e) t0 t1 (pick_base t0 t1)) acc else acc)"
proof -
  define t0 where "t0 = normalizeToken E (gp_Token0 e) r"
  define t1 where "t1 = normalizeToken E (gp_Token1 e) r"
  define h where "h = (if gp_PoolID e = [] then gp_PoolAddress e else gp_PoolID e)"
  show ?thesis
    unfolding load_entry_def eligible_def entry_address_def Let_def t0_def [symmetric] t1_def [symmetric] h_def [symmetric]
    by auto
qed

lemma load_entry_ok:
  assumes "registry_inv E r" and "acc_ok acc" shows "acc_ok (load_entry E r e acc)"
proof -
  define t0 where "t0 = normalizeToken E (gp_Token0 e) r"
  define t1 where "t1 = normalizeToken E (gp_Token1 e) r"
  have "acc_ok (add_pool (make_pool (entry_address E e) (gp_PairName e) t0 t1 (pick_base t0 t1)) acc)"
    if "eligible E r e" "\<not> snd acc (entry_address E e)"
  proof (intro acc_ok_add make_pool_ok assms(2))
    have el: "\<not> (tm_IsStable t0 \<and> tm_IsStable t1)" "tm_IsStable t0 \<or> tm_IsStable t1 \<or> tm_IsWETH t0 \<or> tm_IsWETH t1"
      using that(1) by (auto simp: eligible_def t0_def t1_def Let_def)
    show "\<not> (tm_IsStable t0 \<and> tm_IsStable t1)" and "tm_IsStable t0 \<or> tm_IsStable t1 \<or> tm_IsWETH t0 \<or> tm_IsWETH t1"
      by (fact el)+
    show "tm_Decimals t0 \<in> {1..255}" "tm_Decimals t1 \<in> {1..255}"
      unfolding t0_def t1_def by (rule normalizeToken_decimals [OF assms(1)])+
  qed (use that pick_base_cases [OF _ refl, of t0 t1] in \<open>auto simp: eligible_def t0_def t1_def Let_def\<close>)
  with assms(2) show ?thesis by (simp add: load_entry_eq Let_def t0_def [symmetric] t1_def [symmetric])
qed

lemma hard_pools_ok:
  assumes "meta_ok sm" and "meta_ok wm" and "\<not> tm_IsStable wm"
    and "st = sm\<lparr>tm_IsStable := True, tm_Decimals := (if tm_Decimals sm = 0 then 18 else tm_Decimals sm)\<rparr>"
    and "we = wm\<lparr>tm_Decimals := (if tm_Decimals wm = 0 then 18 else tm_Decimals wm), tm_IsWETH := True\<rparr>"
  shows "pool_ok (make_pool a n st we False)" and "pool_ok (make_pool a n we st True)"
  using assms by (auto simp: meta_ok_def intro!: make_pool_ok)

lemma load_hard_ok:
  assumes "registry_inv E r" and "\<And>m. WETHMeta r = Some m \<Longrightarrow> \<not> tm_IsStable m" and "acc_ok acc"
  shows "acc_ok (load_hard E r hw acc)"
proof (cases "StableBySymbol r (snd hw)")
  case None
  with assms(3) show ?thesis by (simp add: load_hard_def Let_def)
next
  case st: (Some sm)
  show ?thesis
  proof (cases "WETHMeta r")
    case None
    with assms(3) st show ?thesis by (simp add: load_hard_def Let_def)
  next
    case we: (Some wm)
    have sm: "meta_ok sm" using st assms(1) by (auto simp: StableBySymbol_def registry_inv_def)
    have wm: "meta_ok wm" using we assms(1) by (auto simp: WETHMeta_def registry_inv_def split: if_splits)
    define s where "s = sm\<lparr>tm_IsStable := True, tm_Decimals := (if tm_Decimals sm = 0 then 18 else tm_Decimals sm)\<rparr>"
    define w where "w = wm\<lparr>tm_Decimals := (if tm_Decimals wm = 0 then 18 else tm_Decimals wm), tm_IsWETH := True\<rparr>"
    define a where "a = eth_HexToAddress E (fst hw)"
    note ok = hard_pools_ok [OF sm wm assms(2) [OF we] s_def w_def]
    have "load_hard E r hw acc = (if snd acc a then acc else if tm_Address wm = 0 then acc
        else if to_upper (snd hw) = ''USDC'' then add_pool (make_pool a ''USDC / WETH (hard)'' s w False) acc
        else if to_upper (snd hw) = ''USDT'' then add_pool (make_pool a ''WETH / USDT (hard)'' w s True) acc
        else if to_upper (snd hw) = ''DAI'' then add_pool (make_pool a ''DAI / WETH (hard)'' s w False) acc else acc)"
      unfolding load_hard_def st we Let_def option.case s_def [symmetric] w_def [symmetric] a_def [symmetric] ..
    then show ?thesis using assms(3) by (simp add: acc_ok_add ok)
  qed
qed

lemma load_entry_cases:
  "load_entry E r e acc = acc \<or> (\<exists>p. load_entry E r e acc = add_pool p acc)"
  unfolding load_entry_def Let_def by (simp only: split: if_split) blast

lemma load_hard_cases:
  "load_hard E r hw acc = acc \<or> (\<exists>p. load_hard E r hw acc = add_pool p acc)"
  unfolding load_hard_def Let_def by (simp only: split: if_split option.split) blast

lemma load_entry_seen: "snd acc a \<Longrightarrow> snd (load_entry E r e acc) a"
  using load_entry_cases [of E r e acc] by (auto simp: add_pool_def)

lemma load_hard_seen: "snd acc a \<Longrightarrow> snd (load_hard E r hw acc) a"
  using load_hard_cases [of E r hw acc] by (auto simp: add_pool_def)

lemma load_entry_takes: "eligible E r e \<Longrightarrow> snd (load_entry E r e acc) (entry_address E e)"
  by (simp add: load_entry_eq Let_def) (simp add: add_pool_def)

lemma load_entries_take: "e \<in> set es \<Longrightarrow> eligible E r e \<Longrightarrow> snd (fold (load_entry E r) es acc) (entry_address E e)"
proof (induction es arbitrary: acc)
  case (Cons x es)
  have keep: "snd acc' a \<Longrightarrow> snd (fold (load_entry E r) es acc') a" for acc' a
    by (induction es arbitrary: acc') (simp_all add: load_entry_seen)
  from Cons show ?case by (cases "e = x") (auto intro: keep load_entry_takes)
qed simp

text \<open>The pools \<open>LoadPoolsFromGecko\<close> returns: no address occurs twice, each pool pairs a token with a stable
  token or WETH and never two stable tokens, the base is the token to be priced, the decimals lie between 1
  and 255 and the canonical name is that of base and quote; and no eligible entry of the file is lost.\<close>

theorem LoadPools_ok:
  assumes "registry_inv E r" and "\<And>m. WETHMeta r = Some m \<Longrightarrow> \<not> tm_IsStable m"
    and "read_file path = Some data" and "decode data = Some entries"
  shows "\<exists>ps. LoadPoolsFromGeckoWithRegistry E read_file decode path (Some r) = Inr ps \<and>
    distinct (map pc_Address ps) \<and> (\<forall>p \<in> set ps. pool_ok p) \<and>
    (\<forall>e \<in> set entries. eligible E r e \<longrightarrow> entry_address E e \<in> pc_Address ` set ps)"
proof -
  define acc1 where "acc1 = fold (load_entry E r) entries ([], \<lambda>_. False)"
  define acc2 where "acc2 = fold (load_hard E r) hardWethStable acc1"
  have "acc_ok ([], \<lambda>_. False)" by (simp add: acc_ok_def)
  then have "acc_ok acc1" unfolding acc1_def by (rule fold_inv [rotated]) (rule load_entry_ok [OF assms(1)])
  then have ok: "acc_ok acc2" unfolding acc2_def by (rule fold_inv [rotated]) (rule load_hard_ok [OF assms(1,2)])
  have "snd acc2 a" if "snd acc1 a" for a
    unfolding acc2_def using that by (rule fold_inv [rotated]) (rule load_hard_seen)
  then have "\<forall>e \<in> set entries. eligible E r e \<longrightarrow> snd acc2 (entry_address E e)"
    unfolding acc1_def by (blast intro: load_entries_take)
  with ok assms(3,4) show ?thesis
    by (auto simp: LoadPoolsFromGeckoWithRegistry_def acc_ok_def acc1_def acc2_def)
qed

lemma default_registry_weth:
  assumes "eth_ok E" and "WETHMeta (NewTokenRegistry E None net) = Some m" shows "\<not> tm_IsStable m"
proof -
  have n: "lower_hex E a \<noteq> []" for a by (rule lower_hex_nonempty [OF assms(1)])
  have "NewTokenRegistry E None net = fallback_weth E (fallback_stables E empty_registry)"
    by (simp add: NewTokenRegistry_def add_fallbacks_def Let_def empty_registry_def fallback_stables_def)
  with assms(2) show ?thesis by (auto simp: fallback_weth_def addNative_def WETHMeta_def n Let_def)
qed

definition demo_entry :: geckoPool where
  "demo_entry = \<lparr>gp_Dex = ''Uniswap_V2'', gp_Network = ''eth'', gp_PairName = ''PEPE / WETH'', gp_PoolID = [],
     gp_PoolAddress = ''0xA43fe16908251ee70EF74718545e4FE6C5cCEc9f'',
     gp_Token0 = \<lparr>gt_Address = ''0x6982508145454Ce325dDbE47a25d4ec3d2311933'', gt_Symbol = ''PEPE'', gt_Decimals = 18\<rparr>,
     gp_Token1 = \<lparr>gt_Address = ''0xC02aaA39b223FE8D0A0e5C4F27eAD9083C756Cc2'', gt_Symbol = ''WETH'', gt_Decimals = 18\<rparr>\<rparr>"

theorem LoadPools_ok_witness:
  "\<exists>ps. LoadPoolsFromGeckoWithRegistry plain_eth (\<lambda>_. Some ()) (\<lambda>_. Some [demo_entry])
      ''pools.json'' (Some (NewTokenRegistry plain_eth None [])) = Inr ps \<and> distinct (map pc_Address ps)"
  using LoadPools_ok [of plain_eth "NewTokenRegistry plain_eth None []" "\<lambda>_. Some ()" "''pools.json''" "()" "\<lambda>_. Some [demo_entry]"
      "[demo_entry]"] registry_inv_New default_registry_weth [OF plain_eth_ok]
  by blast

subsection \<open>Lemmas: corrections\<close>

lemma NormalizePair_ne: "pc_CanonicalPair p \<noteq> [] \<Longrightarrow> NormalizePair p = pc_CanonicalPair p"
  by (simp add: NormalizePair_def)

lemma FinalizePool_bases [simp]: "pool_base (FinalizePool p) = pool_base p" "pool_quote (FinalizePool p) = pool_quote p"
  by (simp_all add: pool_base_def pool_quote_def)

lemma swapPoolTokens_frame [simp]:
  "pc_Token0 (swapPoolTokens p) = pc_Token1 p" "pc_Token1 (swapPoolTokens p) = pc_Token0 p"
  "pc_BaseIsToken0 (swapPoolTokens p) = (\<not> pc_BaseIsToken0 p)" "pc_Address (swapPoolTokens p) = pc_Address p"
  "pool_base (swapPoolTokens p) = pool_base p" "pool_quote (swapPoolTokens p) = pool_quote p"
  "pc_CanonicalPair (swapPoolTokens p) = pc_CanonicalPair p"
  by (simp_all add: swapPoolTokens_def pool_base_def pool_quote_def)

text \<open>The order of a pool after \<open>ensurePoolOrder\<close> is that of the chain whenever the pool's two tokens are
  the chain's: base, quote and pair name stay the same, only the positions change, and a second run changes
  nothing. When the chain names other tokens, the pool is left alone and the mismatch is reported.\<close>

theorem ensurePoolOrder_ok:
  assumes "fetchPairTokens call (pc_Address p) = Inr (t0, t1)" and "pc_CanonicalPair p \<noteq> []"
  shows "\<exists>r p'. ensurePoolOrder call p = (r, p') \<and>
    pool_base p' = pool_base p \<and> pool_quote p' = pool_quote p \<and> pc_Address p' = pc_Address p \<and>
    pc_CanonicalPair p' = pc_CanonicalPair p \<and>
    (if (tm_Address (pc_Token0 p) = t0 \<and> tm_Address (pc_Token1 p) = t1) \<or>
        (tm_Address (pc_Token0 p) = t1 \<and> tm_Address (pc_Token1 p) = t0)
     then r = Inr () \<and> tm_Address (pc_Token0 p') = t0 \<and> tm_Address (pc_Token1 p') = t1 \<and>
       ensurePoolOrder call p' = (Inr (), p')
     else r = Inl (TokenMismatch t0 t1) \<and> p' = p)"
proof -
  let ?a0 = "tm_Address (pc_Token0 p)" and ?a1 = "tm_Address (pc_Token1 p)"
  consider (same) "t0 = ?a0 \<and> t1 = ?a1" | (swapped) "\<not> (t0 = ?a0 \<and> t1 = ?a1)" "t0 = ?a1" "t1 = ?a0"
    | (other) "\<not> (t0 = ?a0 \<and> t1 = ?a1)" "\<not> (t0 = ?a1 \<and> t1 = ?a0)" by blast
  then show ?thesis
  proof cases
    case same
    then show ?thesis using assms(1) by (simp add: ensurePoolOrder_def)
  next
    case swapped
    then have "ensurePoolOrder call p = (Inr (), FinalizePool (swapPoolTokens p))"
      using assms(1) by (simp add: ensurePoolOrder_def)
    with swapped assms show ?thesis by (simp add: ensurePoolOrder_def NormalizePair_ne)
  next
    case other
    then have "ensurePoolOrder call p = (Inl (TokenMismatch t0 t1), p)" using assms(1) by (auto simp: ensurePoolOrder_def)
    with other show ?thesis by auto
  qed
qed

definition demo_call :: eth_call where
  "demo_call to data = (if data = ''0x313ce567'' then Some (''0x'' @ replicate 61 CHR ''0'' @ ''3e8'')
     else if data = ''0x0dfe1681'' then Some (''0x'' @ replicate 62 CHR ''0'' @ ''05'')
     else if data = ''0xd21220a7'' then Some (''0x'' @ replicate 62 CHR ''0'' @ ''07'') else None)"

definition demo_meta :: "address \<Rightarrow> string \<Rightarrow> int \<Rightarrow> TokenMeta" where
  "demo_meta a s d = \<lparr>tm_Address = a, tm_Symbol = s, tm_Decimals = d, tm_IsStable = (s = ''USDC''), tm_IsWETH = (s = ''WETH'')\<rparr>"

lemma demo_tokens: "fetchPairTokens demo_call a = Inr (5, 7)"
  by (simp add: fetchPairTokens_def callAddress_def demo_call_def) code_simp

theorem ensurePoolOrder_ok_witness:
  "tm_Address (pc_Token0 (snd (ensurePoolOrder demo_call
     (make_pool 9 ''x'' (demo_meta 7 ''USDC'' 6) (demo_meta 5 ''ABC'' 18) False)))) = 5"
  using ensurePoolOrder_ok [OF demo_tokens, of "make_pool 9 ''x'' (demo_meta 7 ''USDC'' 6) (demo_meta 5 ''ABC'' 18) False"]
  by (auto simp: make_pool_def NormalizePair_def demo_meta_def)

text \<open>Decimals read from the chain are not bounded: where the registry clamps them to 255, a token that
  answers 1000 gets 1000 decimals, and later powers of ten of that size.\<close>

theorem chain_decimals_unbounded:
  "tm_Decimals (fst (updateMetaDecimals demo_call (demo_meta 5 ''ABC'' 6) Map.empty)) = 1000 \<and>
   clampDecimals 1000 = 0"
  by code_simp

lemma fetchTokenDecimals_pos: "fetchTokenDecimals call a = Inr d \<Longrightarrow> 0 < d"
  by (auto simp: fetchTokenDecimals_def Let_def split: option.splits if_splits)

text \<open>The cache holds only decimals the node gave.\<close>

definition cache_ok :: "eth_call \<Rightarrow> decimals_cache \<Rightarrow> bool" where
  "cache_ok call cache \<longleftrightarrow> (\<forall>a d. cache a = Some d \<longrightarrow> fetchTokenDecimals call a = Inr d)"

lemma updateMetaDecimals_ok:
  assumes "cache_ok call cache" and "updateMetaDecimals call m cache = (m', cache')"
  shows "cache_ok call cache' \<and> (m' = m \<or>
    (\<exists>d. m' = m\<lparr>tm_Decimals := d\<rparr> \<and> fetchTokenDecimals call (tm_Address m) = Inr d \<and> \<not> tm_IsStable m \<and> \<not> tm_IsWETH m))"
  using assms by (auto simp: updateMetaDecimals_def cache_ok_def split: if_splits option.splits sum.splits)

text \<open>What the corrections may do to the metadata of a token: nothing, or the node's decimals.\<close>

definition corrected :: "eth_call \<Rightarrow> TokenMeta \<Rightarrow> TokenMeta \<Rightarrow> bool" where
  "corrected call m m' \<longleftrightarrow> m' = m \<or>
    (\<exists>d. m' = m\<lparr>tm_Decimals := d\<rparr> \<and> fetchTokenDecimals call (tm_Address m) = Inr d \<and> \<not> tm_IsStable m \<and> \<not> tm_IsWETH m)"

definition pool_corrected :: "eth_call \<Rightarrow> PoolConfig \<Rightarrow> PoolConfig \<Rightarrow> bool" where
  "pool_corrected call p p' \<longleftrightarrow> pc_Address p' = pc_Address p \<and> pc_PairName p' = pc_PairName p \<and> pc_CanonicalPair p' = pc_CanonicalPair p \<and>
     corrected call (pool_base p) (pool_base p') \<and> corrected call (pool_quote p) (pool_quote p') \<and>
     pc_HasStable p' = (tm_IsStable (pc_Token0 p') \<or> tm_IsStable (pc_Token1 p')) \<and>
     pc_HasWETH p' = (tm_IsWETH (pc_Token0 p') \<or> tm_IsWETH (pc_Token1 p')) \<and>
     (\<forall>t0 t1. fetchPairTokens call (pc_Address p) = Inr (t0, t1) \<longrightarrow>
        {tm_Address (pool_base p), tm_Address (pool_quote p)} = {t0, t1} \<longrightarrow>
        tm_Address (pc_Token0 p') = t0 \<and> tm_Address (pc_Token1 p') = t1)"

lemma swapPoolTokens_name [simp]: "pc_PairName (swapPoolTokens p) = pc_PairName p"
  by (simp add: swapPoolTokens_def)

lemma ensurePoolOrder_frame:
  "pc_CanonicalPair p \<noteq> [] \<Longrightarrow> pc_Address (snd (ensurePoolOrder call p)) = pc_Address p \<and>
     pool_base (snd (ensurePoolOrder call p)) = pool_base p \<and> pool_quote (snd (ensurePoolOrder call p)) = pool_quote p \<and>
     pc_CanonicalPair (snd (ensurePoolOrder call p)) = pc_CanonicalPair p \<and>
     pc_PairName (snd (ensurePoolOrder call p)) = pc_PairName p"
  by (auto simp: ensurePoolOrder_def NormalizePair_ne split: sum.split)

lemma ensurePoolOrder_order:
  assumes "fetchPairTokens call (pc_Address p) = Inr (t0, t1)"
    and "{tm_Address (pool_base p), tm_Address (pool_quote p)} = {t0, t1}"
  shows "tm_Address (pc_Token0 (snd (ensurePoolOrder call p))) = t0 \<and> tm_Address (pc_Token1 (snd (ensurePoolOrder call p))) = t1"
proof -
  have "{tm_Address (pc_Token0 p), tm_Address (pc_Token1 p)} = {t0, t1}"
    using assms(2) by (cases "pc_BaseIsToken0 p") (auto simp: pool_base_def pool_quote_def)
  with assms(1) show ?thesis by (auto simp: ensurePoolOrder_def doubleton_eq_iff)
qed

lemma correction_step:
  assumes "cache_ok call cache" and "pc_CanonicalPair p \<noteq> []"
    and "updateTokenDecimals call (snd (ensurePoolOrder call p)) cache = (p', cache')"
  shows "cache_ok call cache' \<and> pool_corrected call p p'"
proof -
  define q where "q = snd (ensurePoolOrder call p)"
  obtain m0 c0 where u0: "updateMetaDecimals call (pc_Token0 q) cache = (m0, c0)" by (cases "updateMetaDecimals call (pc_Token0 q) cache")
  obtain m1 c1 where u1: "updateMetaDecimals call (pc_Token1 q) c0 = (m1, c1)" by (cases "updateMetaDecimals call (pc_Token1 q) c0")
  note o0 = updateMetaDecimals_ok [OF assms(1) u0]
  note o1 = updateMetaDecimals_ok [OF o0 [THEN conjunct1] u1]
  have p': "p' = FinalizePool (q\<lparr>pc_Token0 := m0, pc_Token1 := m1\<rparr>)" "cache' = c1"
    using assms(3) by (simp_all add: updateTokenDecimals_def q_def [symmetric] u0 u1)
  have c: "corrected call (pc_Token0 q) m0" "corrected call (pc_Token1 q) m1"
    using o0 o1 by (simp_all add: corrected_def)
  then have a: "tm_Address m0 = tm_Address (pc_Token0 q)" "tm_Address m1 = tm_Address (pc_Token1 q)"
    by (auto simp: corrected_def)
  have q: "pc_Address q = pc_Address p" "pool_base q = pool_base p" "pool_quote q = pool_quote p"
    "pc_CanonicalPair q = pc_CanonicalPair p" "pc_PairName q = pc_PairName p"
    using ensurePoolOrder_frame [OF assms(2)] by (simp_all add: q_def)
  have "corrected call (pool_base q) (pool_base p') \<and> corrected call (pool_quote q) (pool_quote p')"
    using c by (simp add: p' pool_base_def pool_quote_def)
  then show ?thesis
    using o1 a q assms(2) ensurePoolOrder_order [of call p]
    by (auto simp: pool_corrected_def p' NormalizePair_ne q_def [symmetric])
qed

lemma adjust_pools_ok:
  assumes "cache_ok call cache" and "\<forall>p \<in> set ps. pc_CanonicalPair p \<noteq> []"
  shows "list_all2 (pool_corrected call) ps (adjust_pools call ps cache)"
  using assms
proof (induction call ps cache rule: adjust_pools.induct)
  case (2 call p ps cache)
  obtain p' cache' where u: "updateTokenDecimals call (snd (ensurePoolOrder call p)) cache = (p', cache')"
    by (cases "updateTokenDecimals call (snd (ensurePoolOrder call p)) cache")
  from correction_step [OF 2(2) _ u] 2(3) have s: "cache_ok call cache'" "pool_corrected call p p'" by simp_all
  with 2(1) [OF refl u [symmetric] s(1)] 2(3) show ?case by (simp add: u)
qed simp

text \<open>C33. Given pools with canonical pairs, as the loader makes them, and a node that can be dialled,
  \<open>AdjustPoolsOrdering\<close> succeeds and returns the same pools in the same order: addresses, pair names, canonical
  pairs, base and quote are kept, a token's metadata changes only in its decimals and only to what the node answers for a
  token that is neither stable nor WETH, and each pool whose two tokens the node confirms has them in the
  node's order.\<close>

theorem AdjustPoolsOrdering_ok:
  assumes "\<forall>p \<in> set ps. pc_CanonicalPair p \<noteq> []" and "trim_space url \<noteq> []" and "dial (trim_space url) = Some call"
  shows "\<exists>ps'. AdjustPoolsOrdering dial url ps = Inr ps' \<and> list_all2 (pool_corrected call) ps ps'"
  using adjust_pools_ok [OF _ assms(1), of call Map.empty] assms(2,3)
  by (simp add: AdjustPoolsOrdering_def cache_ok_def)

theorem AdjustPoolsOrdering_ok_witness:
  "\<exists>ps'. AdjustPoolsOrdering (\<lambda>_. Some demo_call) ''http://node'' [make_pool 9 ''x'' (demo_meta 7 ''USDC'' 6) (demo_meta 5 ''ABC'' 18) False]
      = Inr ps' \<and> map pc_Address ps' = [9] \<and> tm_Address (pc_Token0 (hd ps')) = 5"
proof -
  let ?p = "make_pool 9 ''x'' (demo_meta 7 ''USDC'' 6) (demo_meta 5 ''ABC'' 18) False"
  have "trim_space ''http://node'' \<noteq> []" by code_simp
  from AdjustPoolsOrdering_ok [OF _ this, of "[?p]" "\<lambda>_. Some demo_call" demo_call]
  obtain p' where "AdjustPoolsOrdering (\<lambda>_. Some demo_call) ''http://node'' [?p] = Inr [p']" "pool_corrected demo_call ?p p'"
    by (auto simp: make_pool_def NormalizePair_def demo_meta_def list_all2_Cons1)
  moreover have "{tm_Address (pool_base ?p), tm_Address (pool_quote ?p)} = {5, 7}"
    by (auto simp: pool_base_def pool_quote_def demo_meta_def)
  ultimately show ?thesis using demo_tokens [of 9] by (auto simp: pool_corrected_def)
qed

end
