(* ===== verification/Graph_Search.thy ===== *)
theory Graph_Search
  imports Graph_Pricer
begin

text \<open>
  The search of the price graph: it finds an anchor exactly when one is in reach. The properties of
  the price graph stand at the end of this theory.
\<close>

subsection \<open>Lemmas: a search finds every anchor in reach\<close>

fun stable_within :: "GraphPricer \<Rightarrow> nat \<Rightarrow> string \<Rightarrow> bool" where
  "stable_within g 0 a = g_stables g a"
| "stable_within g (Suc k) a = (g_stables g a \<or> list_ex (\<lambda>x. stable_within g k (fst x)) (edges_of g a))"

text \<open>
  Prices between \<open>2\<^sup>-\<^sup>3\<^sup>0\<^sup>0\<close> and \<open>2\<^sup>3\<^sup>0\<^sup>0\<close>, far beyond any market price, keep every product of a
  route of three hops inside the normal range of a double.
\<close>

definition price_bounded :: "f64 \<Rightarrow> bool" where
  "price_bounded f = (case f of Fin x \<Rightarrow> pow2 (- 300) \<le> x \<and> x \<le> pow2 300 | _ \<Rightarrow> False)"

definition prices_bounded :: "GraphPricer \<Rightarrow> bool" where
  "prices_bounded g \<longleftrightarrow> (\<forall>a. \<forall>(b, e) \<in> set (edges_of g a). price_bounded (e_price e))"

lemma product_bounded:
  assumes "p = Fin x" and "pow2 (- (301 * int k)) \<le> x" and "x \<le> pow2 (301 * int k)" and "k \<le> 2"
    and "price_bounded q"
  shows "\<exists>y. p * q = Fin y \<and> pow2 (- (301 * int (Suc k))) \<le> y \<and> y \<le> pow2 (301 * int (Suc k))"
proof -
  obtain z where z: "q = Fin z" "pow2 (- 300) \<le> z" "z \<le> pow2 300"
    using assms(5) by (cases q) (auto simp: price_bounded_def)
  have lo: "pow2 (- (301 * int k) - 300) \<le> x * z"
    using mult_mono [OF assms(2) z(2)] assms(2) pow2_pos [of "- (301 * int k)"] pow2_pos [of "- 300"]
      pow2_add [of "- (301 * int k)" "- 300"] by simp
  have hi: "x * z \<le> pow2 (301 * int k + 300)"
    using mult_mono [OF assms(3) z(3)] z(2) pow2_pos [of "- 300"] pow2_pos [of "301 * int k"]
      pow2_add [of "301 * int k" 300] by simp
  have "pow2 (- 1022) \<le> x * z" using lo pow2_mono [of "- 1022" "- (301 * int k) - 300"] assms(4) by linarith
  moreover have "x * z < pow2 1023"
  proof -
    have "pow2 1023 = 2 * pow2 1022" using pow2_add [of 1 1022] by (simp add: pow2_def [of 1])
    moreover have "pow2 (301 * int k + 300) \<le> pow2 1022" using assms(4) by (intro pow2_mono) simp
    ultimately show ?thesis using hi pow2_pos [of 1022] by linarith
  qed
  ultimately obtain y where y: "f64_of_rat (x * z) = Fin y" "x * z / 2 \<le> y" "y \<le> 2 * (x * z)"
    using f64_of_rat_normal by blast
  have "pow2 (- (301 * int (Suc k))) = pow2 (- (301 * int k) - 300) / 2"
  proof -
    have "- (301 * int (Suc k)) = (- (301 * int k) - 300) - 1" by simp
    then show ?thesis by (simp only: pow2_diff [of _ 1]) (simp add: pow2_def [of 1])
  qed
  moreover have "pow2 (301 * int (Suc k)) = 2 * pow2 (301 * int k + 300)"
    using pow2_add [of 1 "301 * int k + 300"] by (simp add: pow2_def [of 1] algebra_simps)
  ultimately have "pow2 (- (301 * int (Suc k))) \<le> y" "y \<le> pow2 (301 * int (Suc k))"
    using y(2,3) lo hi by linarith+
  with y(1) show ?thesis by (simp add: assms(1) z(1))
qed

lemma route_bounded:
  assumes "route g a path p w t" and "prices_bounded g" and "length path \<le> 4"
  shows "\<exists>x. p = Fin x \<and> pow2 (- (301 * int (length path - 1))) \<le> x \<and> x \<le> pow2 (301 * int (length path - 1))"
  using assms
proof (induction rule: route.induct)
  case route_start
  then show ?case by (simp add: one_f64_def pow2_def)
next
  case (route_step path p w t b e w' t')
  then obtain x where x: "p = Fin x" "pow2 (- (301 * int (length path - 1))) \<le> x"
    "x \<le> pow2 (301 * int (length path - 1))" by auto
  have pb: "price_bounded (e_price e)" using route_step by (auto simp: prices_bounded_def)
  have "Suc (length path - 1) = length path" using route_nonempty [OF route_step.hyps(1)] by (cases path) auto
  with product_bounded [OF x _ pb] route_step.prems show ?case by simp
qed

lemma route_weight_pos: "route g a path p w t \<Longrightarrow> 0 < w"
proof (induction rule: route.induct)
  case (route_step path p w t b e w' t')
  from route_step have "0 < e_weight e \<or> 0 < w" "0 < w'"
    by (cases w; cases "e_weight e"; auto simp: zero_f64_def split: if_splits)+
  then show ?case by simp
qed (simp add: zero_f64_def max_float64_def)

lemma item_valid_edge:
  assumes "item_ok g a cur" and "gp_inv g" and "prices_bounded g" and "(b, e) \<in> set (edges_of g (q_addr cur))"
  shows "valid_edge cur e"
proof -
  have e: "edge_ok e" and pb: "price_bounded (e_price e)"
    using assms by (auto simp: gp_inv_def prices_bounded_def)
  have r: "route g a (q_path cur) (q_price cur) (q_weight cur) (q_freshness cur)"
    and len: "length (q_path cur) = Suc (q_hops cur)" "q_hops cur \<le> 2"
    using assms(1,2) by (auto simp: item_ok_def gp_inv_def defaultMaxHops_def)
  from route_bounded [OF r assms(3)] len obtain x where
    "q_price cur = Fin x" "pow2 (- (301 * int (q_hops cur))) \<le> x" "x \<le> pow2 (301 * int (q_hops cur))" by auto
  from product_bounded [OF this len(2) pb] obtain y where
    "q_price cur * e_price e = Fin y" "pow2 (- (301 * int (Suc (q_hops cur)))) \<le> y" by blast
  moreover from this(2) have "0 < y" by (rule less_le_trans [OF pow2_pos])
  ultimately have "pos_fin (q_price cur * e_price e)" by (simp add: pos_fin_def)
  moreover have "\<not> (if e_weight e < q_weight cur then e_weight e else q_weight cur) \<le> 0"
    using route_weight_pos [OF r] e by (cases "q_weight cur") (auto simp: edge_ok_def pos_fin_iff zero_f64_def)
  ultimately show ?thesis using e by (simp add: valid_edge_def edge_ok_def)
qed

text \<open>
  A token is seen once it has a visit record. The queue is in order of hops, so a token that the
  search refuses to visit again was put into the queue with no more hops; hence, when an anchor is
  in reach of a seen token, it is in reach of a queued one (\<open>promise\<close>), until it is found.
\<close>

definition seen :: "search \<Rightarrow> string \<Rightarrow> bool" where
  "seen s u \<longleftrightarrow> s_visited s u \<noteq> \<lparr>v_weight = 0, v_hops = 0\<rparr>"

definition promise :: "GraphPricer \<Rightarrow> nat \<Rightarrow> search \<Rightarrow> bool" where
  "promise g k s \<longleftrightarrow> s_found s \<or>
     (\<exists>i \<in> set (s_queue s). \<exists>j \<le> k. stable_within g j (q_addr i) \<and> q_hops i + j \<le> g_maxHops g)"

definition bfs_inv :: "GraphPricer \<Rightarrow> string \<Rightarrow> nat \<Rightarrow> search \<Rightarrow> bool" where
  "bfs_inv g a L s \<longleftrightarrow> search_ok g a s \<and> sorted (map q_hops (s_queue s)) \<and>
     (\<forall>i \<in> set (s_queue s). L \<le> q_hops i \<and> q_hops i \<le> Suc L) \<and>
     (\<forall>u k. seen s u \<longrightarrow> stable_within g k u \<longrightarrow> Suc L + k \<le> g_maxHops g \<longrightarrow> promise g k s)"

lemma promise_mono: "promise g j s \<Longrightarrow> j \<le> k \<Longrightarrow> promise g k s"
  unfolding promise_def by (meson le_trans)

lemma relax_edge_effect:
  assumes "valid_edge cur e"
  shows "g_stables g b \<Longrightarrow> s_found (relax_edge g cur (b, e) s)"
    and "\<not> g_stables g b \<Longrightarrow> Suc (q_hops cur) < g_maxHops g \<Longrightarrow> seen (relax_edge g cur (b, e) s) b"
proof -
  define w where "w = (if e_weight e < q_weight cur then e_weight e else q_weight cur)"
  from assms have v: "\<not> (e_price e \<le> 0 \<or> is_nan (e_price e) \<or> is_inf (e_price e))"
    "\<not> (q_price cur * e_price e \<le> 0 \<or> is_nan (q_price cur * e_price e) \<or> is_inf (q_price cur * e_price e))"
    "\<not> w \<le> 0"
    unfolding valid_edge_def w_def by (metis pos_fin_guard)+
  note unf = relax_edge_def Let_def prod.case w_def [symmetric] if_not_P [OF v(1)] if_not_P [OF v(2)] if_not_P [OF v(3)]
  show "s_found (relax_edge g cur (b, e) s)" if "g_stables g b"
    unfolding unf using that by simp
  show "seen (relax_edge g cur (b, e) s) b" if b: "\<not> g_stables g b" "Suc (q_hops cur) < g_maxHops g"
  proof (cases "shouldVisit (s_visited s b) w (Suc (q_hops cur))")
    case True
    with b show ?thesis unfolding unf by (simp add: seen_def)
  next
    case False
    with v(3) have "s_visited s b \<noteq> \<lparr>v_weight = 0, v_hops = 0\<rparr>"
      by (auto simp: shouldVisit_def f64_eq_def zero_f64_def)
    with b False show ?thesis unfolding unf by (simp add: seen_def)
  qed
qed

lemma relax_edge_frame:
  "s_found s \<Longrightarrow> s_found (relax_edge g cur ne s)"
  "seen s u \<Longrightarrow> seen (relax_edge g cur ne s) u"
  "seen (relax_edge g cur ne s) u \<Longrightarrow> seen s u \<or>
     (\<exists>i \<in> set (s_queue (relax_edge g cur ne s)). q_addr i = u \<and> q_hops i = Suc (q_hops cur))"
proof -
  obtain b e where "ne = (b, e)" by (cases ne)
  then show "s_found s \<Longrightarrow> s_found (relax_edge g cur ne s)"
    "seen s u \<Longrightarrow> seen (relax_edge g cur ne s) u"
    "seen (relax_edge g cur ne s) u \<Longrightarrow> seen s u \<or>
     (\<exists>i \<in> set (s_queue (relax_edge g cur ne s)). q_addr i = u \<and> q_hops i = Suc (q_hops cur))"
    by (cases rule: relax_edge_cases [of g cur b e s]; auto simp: seen_def split: if_splits)+
qed

lemma relax_fold_frame:
  "s_found s \<Longrightarrow> s_found (fold (relax_edge g cur) es s)"
  "seen s u \<Longrightarrow> seen (fold (relax_edge g cur) es s) u"
  "seen (fold (relax_edge g cur) es s) u \<Longrightarrow> seen s u \<or>
     (\<exists>i \<in> set (s_queue (fold (relax_edge g cur) es s)). q_addr i = u \<and> q_hops i = Suc (q_hops cur))"
proof -
  show "s_found s \<Longrightarrow> s_found (fold (relax_edge g cur) es s)"
    by (induction es arbitrary: s) (auto intro: relax_edge_frame)
  show "seen s u \<Longrightarrow> seen (fold (relax_edge g cur) es s) u"
    by (induction es arbitrary: s) (auto intro: relax_edge_frame)
  show "seen (fold (relax_edge g cur) es s) u \<Longrightarrow> seen s u \<or>
     (\<exists>i \<in> set (s_queue (fold (relax_edge g cur) es s)). q_addr i = u \<and> q_hops i = Suc (q_hops cur))"
  proof (induction es arbitrary: s)
    case (Cons e es)
    obtain qs where "s_queue (fold (relax_edge g cur) es (relax_edge g cur e s)) = s_queue (relax_edge g cur e s) @ qs"
      using relax_fold_queue by blast
    with Cons.IH [of "relax_edge g cur e s"] Cons.prems relax_edge_frame(3) [of g cur e s u] show ?case by auto
  qed simp
qed

lemma relax_fold_effect:
  assumes "(b, e) \<in> set es" and "valid_edge cur e"
  shows "g_stables g b \<Longrightarrow> s_found (fold (relax_edge g cur) es s)"
    and "\<not> g_stables g b \<Longrightarrow> Suc (q_hops cur) < g_maxHops g \<Longrightarrow> seen (fold (relax_edge g cur) es s) b"
  using assms(1)
  by (induction es arbitrary: s)
    (auto simp: relax_edge_effect [OF assms(2)] intro: relax_fold_frame)

text \<open>One round of the search keeps the promise and the invariant.\<close>

definition bfs_round :: "GraphPricer \<Rightarrow> string \<Rightarrow> nat \<Rightarrow> search \<Rightarrow> search \<Rightarrow> queueItem \<Rightarrow> queueItem list \<Rightarrow>
    (string \<times> edge) list \<Rightarrow> bool" where
  "bfs_round g a L s s' cur rest es \<longleftrightarrow> bfs_inv g a L s \<and> s_queue s = cur # rest \<and>
     set es = set (edges_of g (q_addr cur)) \<and> (\<forall>(b, e) \<in> set es. valid_edge cur e) \<and>
     s' = fold (relax_edge g cur) es (s\<lparr>s_queue := rest\<rparr>)"

lemma bfs_round_facts:
  assumes round: "bfs_round g a L s s' cur rest es"
  shows "\<exists>qs. s_queue s' = rest @ qs \<and> (\<forall>i \<in> set qs. q_hops i = Suc (q_hops cur) \<and> q_hops i < g_maxHops g)"
    and "set rest \<subseteq> set (s_queue s')"
    and "item_ok g a cur" "L \<le> q_hops cur"
  using relax_fold_queue [of g cur es "s\<lparr>s_queue := rest\<rparr>"] round
  by (auto simp: bfs_round_def bfs_inv_def search_ok_def)

lemma bfs_round_seen:
  assumes round: "bfs_round g a L s s' cur rest es"
  shows "seen s' u \<Longrightarrow> seen s u \<or> (\<exists>i \<in> set (s_queue s'). q_addr i = u \<and> q_hops i = Suc (q_hops cur))"
  using relax_fold_frame(3) [of g cur es "s\<lparr>s_queue := rest\<rparr>" u] round
  by (simp add: bfs_round_def seen_def)

lemma promise_step:
  assumes round: "bfs_round g a L s s' cur rest es"
  shows "promise g k s \<Longrightarrow> promise g k s'"
proof (induction k rule: less_induct)
  case (less k)
  from round have inv: "bfs_inv g a L s" and queue: "s_queue s = cur # rest"
    and edges: "set es = set (edges_of g (q_addr cur))"
    and valid: "\<And>b e. (b, e) \<in> set es \<Longrightarrow> valid_edge cur e"
    and next_state: "s' = fold (relax_edge g cur) es (s\<lparr>s_queue := rest\<rparr>)" by (auto simp: bfs_round_def)
  note facts = bfs_round_facts [OF round]
  show ?case
  proof (cases "s_found s")
    case True
    then show ?thesis by (simp add: promise_def next_state relax_fold_frame(1))
  next
    case False
    with less.prems obtain i j where i: "i \<in> set (s_queue s)" "j \<le> k" "stable_within g j (q_addr i)"
      "q_hops i + j \<le> g_maxHops g" by (auto simp: promise_def)
    show ?thesis
    proof (cases "i \<in> set rest")
      case True
      with i facts(2) show ?thesis by (auto simp: promise_def)
    next
      case False
      with i(1) queue have ic: "i = cur" by simp
      have "\<not> g_stables g (q_addr cur)" using facts(3,4) by (simp add: item_ok_def)
      with i(3) ic obtain m b e where m: "j = Suc m" "(b, e) \<in> set es" "stable_within g m b"
        by (cases j) (auto simp: list_ex_iff edges)
      note eff = relax_fold_effect [OF m(2) valid [OF m(2)], of g "s\<lparr>s_queue := rest\<rparr>", folded next_state]
      show ?thesis
      proof (cases "g_stables g b")
        case True
        with eff(1) show ?thesis by (simp add: promise_def)
      next
        case nb: False
        with m(3) have "m \<noteq> 0" by (cases m) auto
        with m(1) i(4) ic nb eff(2) have "seen s' b" by auto
        from bfs_round_seen [OF round this] show ?thesis
        proof
          assume "seen s b"
          moreover have "Suc L + m \<le> g_maxHops g" using facts(4) m(1) i(4) ic by simp
          ultimately have "promise g m s" using inv m(3) by (simp add: bfs_inv_def)
          with less.IH [of m] m(1) i(2) promise_mono show ?thesis by auto
        next
          assume "\<exists>i \<in> set (s_queue s'). q_addr i = b \<and> q_hops i = Suc (q_hops cur)"
          with m i(2,4) ic show ?thesis by (fastforce simp: promise_def)
        qed
      qed
    qed
  qed
qed

lemma bfs_inv_step:
  assumes round: "bfs_round g a L s s' cur rest es"
  shows "bfs_inv g a (q_hops cur) s'"
proof -
  from round have inv: "bfs_inv g a L s" and queue: "s_queue s = cur # rest"
    and edges: "set es = set (edges_of g (q_addr cur))"
    and valid: "\<And>b e. (b, e) \<in> set es \<Longrightarrow> valid_edge cur e"
    and next_state: "s' = fold (relax_edge g cur) es (s\<lparr>s_queue := rest\<rparr>)" by (auto simp: bfs_round_def)
  note facts = bfs_round_facts [OF round]
  obtain qs where qs: "s_queue s' = rest @ qs" "\<forall>i \<in> set qs. q_hops i = Suc (q_hops cur) \<and> q_hops i < g_maxHops g"
    using facts(1) by blast
  have ok: "search_ok g a s'" unfolding next_state
    using inv queue edges facts(3,4) by (intro relax_fold_ok) (auto simp: bfs_inv_def search_ok_def)
  have rest: "sorted (map q_hops rest)" "\<forall>i \<in> set rest. q_hops cur \<le> q_hops i \<and> q_hops i \<le> Suc (q_hops cur)"
    using inv queue facts(4) by (auto simp: bfs_inv_def)
  have "sorted (map q_hops qs)" using qs(2) by (simp add: sorted_iff_nth_mono)
  with rest qs have srt: "sorted (map q_hops (s_queue s'))" by (auto simp: sorted_append)
  have "promise g k s'" if "seen s' u" "stable_within g k u" "Suc (q_hops cur) + k \<le> g_maxHops g" for u k
    using bfs_round_seen [OF round that(1)]
  proof
    assume "seen s u"
    with that facts(4) inv have "promise g k s" by (simp add: bfs_inv_def)
    then show ?thesis by (rule promise_step [OF round])
  next
    assume "\<exists>i \<in> set (s_queue s'). q_addr i = u \<and> q_hops i = Suc (q_hops cur)"
    then obtain i where "i \<in> set (s_queue s')" "q_addr i = u" "q_hops i = Suc (q_hops cur)" by blast
    with that show ?thesis unfolding promise_def by (metis le_refl)
  qed
  with ok srt rest qs show ?thesis by (auto simp: bfs_inv_def)
qed

lemma resolve_loop_complete:
  assumes "range_order ord" and "gp_inv g" and "prices_bounded g" and "bfs_inv g a L s" and "promise g k s"
  shows "s_found (resolve_loop g ord n s)"
  using assms
proof (induction g ord n s arbitrary: L rule: resolve_loop.induct)
  case (1 g ord n s)
  show ?case
  proof (cases "s_queue s")
    case Nil
    with "1.prems"(5) show ?thesis by (simp add: resolve_loop.simps [of g ord n s] promise_def)
  next
    case (Cons cur rest)
    define es where "es = (if edges_of g (q_addr cur) = [] then [] else ord n (edges_of g (q_addr cur)))"
    define s' where "s' = fold (relax_edge g cur) es (s\<lparr>s_queue := rest\<rparr>)"
    have es: "set es = set (edges_of g (q_addr cur))"
      using range_order_set [OF "1.prems"(1)] by (simp add: es_def)
    have "item_ok g a cur" using "1.prems"(4) Cons by (simp add: bfs_inv_def search_ok_def)
    then have "\<forall>(b, e) \<in> set es. valid_edge cur e"
      using item_valid_edge "1.prems"(2,3) es by blast
    with "1.prems"(4) Cons es have r: "bfs_round g a L s s' cur rest es" by (simp add: bfs_round_def s'_def)
    note step = bfs_inv_step [OF r] promise_step [OF r "1.prems"(5)]
    show ?thesis
    proof (cases "edges_of g (q_addr cur) = []")
      case True
      then have "resolve_loop g ord n s = resolve_loop g ord n s'"
        using Cons by (subst resolve_loop.simps) (simp add: s'_def es_def)
      moreover have "s' = s\<lparr>s_queue := rest\<rparr>" using True by (simp add: s'_def es_def)
      ultimately show ?thesis using "1.IH"(1) [OF Cons refl refl True "1.prems"(1-3)] step by simp
    next
      case False
      then have "resolve_loop g ord n s = resolve_loop g ord (Suc n) s'"
        using Cons by (subst resolve_loop.simps) (simp add: s'_def es_def)
      moreover have "s' = fold (relax_edge g cur) (ord n (edges_of g (q_addr cur))) (s\<lparr>s_queue := rest\<rparr>)"
        using False by (simp add: s'_def es_def)
      ultimately show ?thesis using "1.IH"(2) [OF Cons refl refl False "1.prems"(1-3)] step by simp
    qed
  qed
qed

lemma bfs_inv_start: "\<not> g_stables g a \<Longrightarrow> bfs_inv g a 0 (search_start a)"
  using search_start_ok [of g a]
  by (auto simp: bfs_inv_def search_start_def seen_def promise_def split: if_splits)

text \<open>The converse: a route that ends at an anchor shows that the anchor is in reach.\<close>

lemma stable_within_mono: "stable_within g k a \<Longrightarrow> k \<le> m \<Longrightarrow> stable_within g m a"
proof (induction g k a arbitrary: m rule: stable_within.induct)
  case (1 g a)
  then show ?case by (cases m) auto
next
  case (2 g k a)
  from 2(3) obtain n where m: "m = Suc n" "k \<le> n" by (cases m) auto
  from 2(1) m(2) have "stable_within g k (fst x) \<Longrightarrow> stable_within g n (fst x)" if "x \<in> set (edges_of g a)" for x
    using that by (cases x) auto
  with 2(2) show ?case unfolding m(1) stable_within.simps list_ex_iff by auto
qed

lemma route_reaches:
  "route g a path p w t \<Longrightarrow> stable_within g k (last path) \<Longrightarrow> stable_within g (length path - 1 + k) a"
proof (induction arbitrary: k rule: route.induct)
  case (route_step path p w t b e w' t')
  have "stable_within g (Suc k) (last path)"
    using route_step.hyps(3) route_step.prems by (auto simp: list_ex_iff intro!: bexI [of _ "(b, e)"])
  from route_step.IH [OF this] route_nonempty [OF route_step.hyps(1)]
  show ?case by (cases path) (simp_all del: stable_within.simps)
qed simp

lemma resolve_found_iff:
  assumes "range_order ord" and "gp_inv g" and "prices_bounded g" and "\<not> g_stables g a"
  shows "s_found (resolve_loop g ord 0 (search_start a)) \<longleftrightarrow> stable_within g defaultMaxHops a"
proof
  assume "s_found (resolve_loop g ord 0 (search_start a))"
  from resolve_sound [OF assms(1,4) this] obtain path p w t where
    r: "route g a path p w t" "g_stables g (last path)" "length path \<le> Suc (max 1 (g_maxHops g))"
    by (auto simp: best_ok_def)
  have "stable_within g (length path - 1 + 0) a" using route_reaches [OF r(1), of 0] r(2) by simp
  moreover have "length path - 1 + 0 \<le> defaultMaxHops"
    using r(3) assms(2) by (simp add: gp_inv_def defaultMaxHops_def)
  ultimately show "stable_within g defaultMaxHops a" by (rule stable_within_mono)
next
  assume "stable_within g defaultMaxHops a"
  then have "promise g defaultMaxHops (search_start a)"
    using assms(2) by (simp add: promise_def search_start_def gp_inv_def) blast
  then show "s_found (resolve_loop g ord 0 (search_start a))"
    using resolve_loop_complete [OF assms(1-3) bfs_inv_start [OF assms(4)]] by blast
qed

subsection \<open>Concrete graphs\<close>

lemma one_times_f64 [simp]: "f64_ok p \<Longrightarrow> 1 * p = p" for p :: f64
  by (cases p) (simp_all add: one_f64_def f64_ok_def)

definition in_order :: range_ord where
  "in_order n es = es"

lemma range_order_in_order [simp]: "range_order in_order"
  by (simp add: range_order_def in_order_def)

definition tok :: "address \<Rightarrow> string \<Rightarrow> PToken" where
  "tok a s = \<lparr>pt_Address = a, pt_Symbol = s, pt_Decimals = 18\<rparr>"

definition edge_of :: "rat \<Rightarrow> rat \<Rightarrow> time \<Rightarrow> edge" where
  "edge_of p w t = \<lparr>e_price = Fin p, e_weight = Fin w, e_updatedAt = t\<rparr>"

abbreviation node :: "address \<Rightarrow> string" where
  "node \<equiv> normalizeAddr plain_eth"

text \<open>USDC at address 1 is the anchor, WETH at 2, a token ABC at 3 with a thin pool against USDC and a
  deep one against WETH.\<close>

definition demo_graph :: GraphPricer where
  "demo_graph = \<lparr>g_edges = [node 3 \<mapsto> [(node 2, edge_of (1 / 2) 30 8), (node 1, edge_of 800 20 7)],
       node 2 \<mapsto> [(node 1, edge_of 2000 50 7)]],
     g_symbols = [node 1 \<mapsto> ''USDC'', node 2 \<mapsto> ''WETH'', node 3 \<mapsto> ''ABC''],
     g_stables = (\<lambda>_. False)(node 1 := True), g_maxHops = defaultMaxHops\<rparr>"

lemma node_eq: "node a = node b \<longleftrightarrow> a = b"
  using plain_eth_ok
  by (auto simp: normalizeAddr_def lower_hex_inj dest: lower_hex_nonempty [of _ a] lower_hex_nonempty [of _ b])

lemma node_Nil: "node a = [] \<longleftrightarrow> a = 0" "[] = node a \<longleftrightarrow> a = 0"
  using normalizeAddr_Nil [OF plain_eth_ok, of a] by auto

lemma f64_eval:
  "Fin x * Fin y = f64_of_rat (x * y)" "(0 :: f64) = Fin 0" "(1 :: f64) = Fin 1"
  "Fin x \<le> Fin y \<longleftrightarrow> x \<le> y" "Fin x < Fin y \<longleftrightarrow> x < y" "is_nan (Fin x) = False" "is_inf (Fin x) = False"
  "f64_eq (Fin x) (Fin y) \<longleftrightarrow> x = y"
  by (simp_all add: zero_f64_def one_f64_def is_nan_def is_inf_def f64_eq_def)

lemma demo_rounding: "f64_of_rat (1 / 2) = Fin (1 / 2)" "f64_of_rat 1000 = Fin 1000" "f64_of_rat 800 = Fin 800"
  by code_simp+

lemma demo_weights: "\<not> Fin 30 + equalWeightEpsilon < Fin 1" "Fin 20 + equalWeightEpsilon < Fin 30"
  "\<not> Fin 30 + equalWeightEpsilon < Fin 20" "\<not> \<bar>Fin 20 - Fin 30\<bar> \<le> equalWeightEpsilon"
  unfolding equalWeightEpsilon_def by code_simp+

lemma demo_graph_inv: "graph_inv plain_eth in_order demo_graph"
  by (simp add: graph_inv_def plain_eth_ok gp_inv_def demo_graph_def node_eq node_Nil edges_of_def edge_ok_def
      edge_of_def pos_fin_def del: fun_upd_apply) (simp add: node_eq node_Nil)

lemma demo_resolve: "ResolveUSD plain_eth in_order 9 (tok 3 []) demo_graph =
    (\<lparr>r_Price = Fin 1000, r_Route = [''ABC'', ''WETH'', ''USDC''], r_Weight = Fin 30, r_UpdatedAt = 7\<rparr>, True)"
  by (simp add: ResolveUSD_def demo_graph_def tok_def node_eq node_Nil search_start_def resolve_loop.simps Let_def
      edges_of_def in_order_def edge_of_def relax_edge_def defaultMaxHops_def symbolPath_def symbolUnsafe_def
      shouldVisit_def betterCandidate_def f64_eval max_float64_def zero_result_def demo_rounding demo_weights)

lemma graph_inv_new: "eth_ok E \<Longrightarrow> range_order ord \<Longrightarrow> graph_inv E ord (NewGraphPricer E ts)"
proof -
  assume "eth_ok E" "range_order ord"
  moreover have "gp_inv g \<Longrightarrow> gp_inv (fold (RegisterStable E) ts g)" for g
    by (induction ts arbitrary: g) (simp_all add: gp_inv_RegisterStable)
  ultimately show ?thesis
    by (simp add: graph_inv_def NewGraphPricer_def registerAnchors_def gp_inv_new)
qed

subsection \<open>Properties of the price graph\<close>

text \<open>C2. Soundness of \<open>ResolveUSD\<close>: a price that is reported is either that of an anchor, exactly one
  dollar with an unlimited weight, or the product of the edge prices along a route of at most
  \<open>maxHops\<close> edges from the token through tokens that are no anchors to an anchor, with the smallest
  edge weight on the route as its weight and the oldest update as its time; the route is reported by
  its symbols and the price is positive and finite.\<close>

theorem ResolveUSD_sound:
  assumes "graph_inv E ord g" and "ResolveUSD E ord now t g = (r, True)"
  shows "if g_stables g (normalizeAddr E (pt_Address t))
    then r = \<lparr>r_Price = 1, r_Route = [symbolUnsafe g (normalizeAddr E (pt_Address t))],
               r_Weight = max_float64, r_UpdatedAt = now\<rparr>
    else (\<exists>path. route g (normalizeAddr E (pt_Address t)) path (r_Price r) (r_Weight r) (r_UpdatedAt r) \<and>
      r_Route r = symbolPath g path \<and> g_stables g (last path) \<and> 2 \<le> length path \<and> length path \<le> 4) \<and>
      pos_fin (r_Price r)"
proof (cases "g_stables g (normalizeAddr E (pt_Address t))")
  case True
  with assms show ?thesis by (auto simp: ResolveUSD_def Let_def graph_inv_def gp_inv_def split: if_splits)
next
  case False
  with assms have "best_ok g (normalizeAddr E (pt_Address t)) r"
    using resolve_sound [OF _ False, of ord]
    by (auto simp: ResolveUSD_def Let_def graph_inv_def split: if_splits)
  with False assms(1) ResolveUSD_pos [OF assms] show ?thesis
    by (auto simp: best_ok_def graph_inv_def gp_inv_def defaultMaxHops_def)
qed

theorem ResolveUSD_sound_witness:
  "\<exists>path. route demo_graph (node 3) path (Fin 1000) (Fin 30) 7 \<and> length path \<le> 4"
proof -
  have "\<not> g_stables demo_graph (node 3)" by (simp add: demo_graph_def node_eq)
  then show ?thesis
    using ResolveUSD_sound [OF demo_graph_inv demo_resolve] by (auto simp: tok_def)
qed

text \<open>C3. Completeness of \<open>ResolveUSD\<close>: as long as the edge prices stay between \<open>2\<^sup>-\<^sup>3\<^sup>0\<^sup>0\<close> and \<open>2\<^sup>3\<^sup>0\<^sup>0\<close>, the
  search reports a price exactly when the token has an address and an anchor lies within three edges
  of it, whatever the order of the range loops: pruning by weight and by hops loses no route.\<close>

theorem ResolveUSD_complete:
  assumes "graph_inv E ord g" and "prices_bounded g"
  shows "snd (ResolveUSD E ord now t g) \<longleftrightarrow>
    pt_Address t \<noteq> 0 \<and> stable_within g defaultMaxHops (normalizeAddr E (pt_Address t))"
proof -
  have "stable_within g k a" if "g_stables g a" for k a using that by (cases k) auto
  moreover have "g_stables g (normalizeAddr E (pt_Address t)) \<Longrightarrow> pt_Address t \<noteq> 0"
    using assms(1) by (auto simp: graph_inv_def gp_inv_def normalizeAddr_def)
  ultimately show ?thesis
    using assms resolve_found_iff [of ord g "normalizeAddr E (pt_Address t)"]
    by (auto simp: ResolveUSD_def Let_def graph_inv_def normalizeAddr_Nil)
qed

lemma demo_bounded: "prices_bounded demo_graph"
proof -
  have "price_bounded (Fin (1 / 2))" "price_bounded (Fin 800)" "price_bounded (Fin 2000)"
    by (simp_all add: price_bounded_def) (simp_all add: pow2_def)
  then show ?thesis
    by (simp add: prices_bounded_def demo_graph_def edges_of_def edge_of_def node_eq)
qed

theorem ResolveUSD_complete_witness:
  "snd (ResolveUSD plain_eth in_order 9 (tok 3 []) demo_graph)
    \<and> \<not> snd (ResolveUSD plain_eth in_order 9 (tok 4 []) demo_graph)"
proof -
  have "stable_within demo_graph defaultMaxHops (node 3)" "\<not> stable_within demo_graph defaultMaxHops (node 4)"
    by (simp_all add: defaultMaxHops_def numeral_3_eq_3 demo_graph_def edges_of_def node_eq)
  then show ?thesis
    unfolding ResolveUSD_complete [OF demo_graph_inv demo_bounded] by (simp add: tok_def)
qed

text \<open>The comment on \<open>ResolveUSD\<close> promises the shortest route to a stable coin; the search prefers the
  heaviest one. Here the token has a direct edge to USDC at 800 dollars, and the price reported is the
  one of the two-edge route through WETH, 1000 dollars.\<close>

theorem ResolveUSD_not_shortest:
  "\<exists>r. ResolveUSD plain_eth in_order 9 (tok 3 ''ABC'') demo_graph = (r, True) \<and> r_Price r = Fin 1000 \<and>
     r_Route r = [''ABC'', ''WETH'', ''USDC''] \<and>
     map_of (edges_of demo_graph (node 3)) (node 1) = Some (edge_of 800 20 7) \<and> g_stables demo_graph (node 1)"
proof -
  have "ResolveUSD plain_eth in_order 9 (tok 3 ''ABC'') demo_graph = ResolveUSD plain_eth in_order 9 (tok 3 []) demo_graph"
    by (simp add: ResolveUSD_def tok_def)
  then show ?thesis unfolding demo_resolve by (simp add: demo_graph_def edges_of_def node_eq)
qed

text \<open>An edge is stored under its source and target and replaced only by a newer quote or by one
  that is heavier by more than \<open>equalWeightEpsilon\<close>; no other edge changes.\<close>

theorem setEdgeLocked_stores:
  "map_of (edges_of (setEdgeLocked u v p w ts g) a) b =
     (if a = u \<and> b = v \<and> (case map_of (edges_of g u) v of None \<Rightarrow> True
          | Some cur \<Rightarrow> e_updatedAt cur < ts \<or> \<not> w \<le> e_weight cur + equalWeightEpsilon)
      then Some \<lparr>e_price = p, e_weight = w, e_updatedAt = ts\<rparr> else map_of (edges_of g a) b)"
  by (auto simp: edges_of_setEdge split: option.splits)

theorem setEdgeLocked_stores_witness:
  "map_of (edges_of (setEdgeLocked ''a'' ''b'' (Fin 2) (Fin 3) 9 (setEdgeLocked ''a'' ''b'' (Fin 1) (Fin 8) 7 newGraphPricer)) ''a'') ''b'' =
     Some \<lparr>e_price = Fin 2, e_weight = Fin 3, e_updatedAt = 9\<rparr>"
  using setEdgeLocked_stores [of "''a''" "''b''" "Fin 2" "Fin 3" 9
      "setEdgeLocked ''a'' ''b'' (Fin 1) (Fin 8) 7 newGraphPricer" "''a''" "''b''"]
    setEdgeLocked_stores [of "''a''" "''b''" "Fin 1" "Fin 8" 7 newGraphPricer "''a''" "''b''"]
  by (simp add: edges_of_def newGraphPricer_def)

lemma edges_RegisterToken [simp]: "edges_of (RegisterToken E t g) a = edges_of g a"
  by (simp add: RegisterToken_def Let_def)

lemma normalizeAddr_eq: "eth_ok E \<Longrightarrow> normalizeAddr E a = normalizeAddr E b \<longleftrightarrow> a = b"
  by (metis lower_hex_inj lower_hex_nonempty normalizeAddr_def)

text \<open>C5. One quote against an anchor is what \<open>ResolveUSD\<close> then reports: price, weight, time and the
  two symbols of the route are exactly those of the quote.\<close>

theorem UpdatePair_ResolveUSD:
  assumes "eth_ok E" and "range_order ord" and "pt_Address t \<noteq> 0" and "pt_Address s \<noteq> 0"
    and "pt_Address t \<noteq> pt_Address s" and "pos_fin p" and "f64_ok p" and "pos_fin w" and "w < max_float64" and "ts \<noteq> 0"
  shows "ResolveUSD E ord now t (UpdatePair E now t s p w ts (NewGraphPricer E [s])) =
    (\<lparr>r_Price = p, r_Route = [token_label (normalizeAddr E (pt_Address t)) t, token_label (normalizeAddr E (pt_Address s)) s],
      r_Weight = w, r_UpdatedAt = ts\<rparr>, True)"
proof -
  define a where "a = normalizeAddr E (pt_Address t)"
  define b where "b = normalizeAddr E (pt_Address s)"
  have ab: "a \<noteq> []" "b \<noteq> []" "a \<noteq> b"
    using assms(1,3-5) by (simp_all add: a_def b_def normalizeAddr_Nil normalizeAddr_eq)
  define g where "g = UpdatePair E now t s p w ts (NewGraphPricer E [s])"
  have guard: "\<not> (p \<le> 0 \<or> is_inf p \<or> is_nan p)" "\<not> (w \<le> 0 \<or> is_nan w \<or> is_inf w)"
    "\<not> (p \<le> 0 \<or> is_nan p \<or> is_inf p)"
    using pos_finD [OF assms(6)] pos_finD [OF assms(8)] by auto
  note unf = g_def UpdatePair_def if_not_P [OF guard(1)] if_not_P [OF guard(2)] Let_def
    a_def [symmetric] b_def [symmetric]
  have edges: "edges_of g a = [(b, \<lparr>e_price = p, e_weight = w, e_updatedAt = ts\<rparr>)]"
    unfolding unf using ab assms(10)
    by (simp add: edges_of_setEdge NewGraphPricer_def registerAnchors_def RegisterStable_def
        newGraphPricer_def edges_of_def [of newGraphPricer] mput_def Let_def) (simp add: edges_of_def)
  have rest: "g_stables g = (\<lambda>_. False)(b := True)" "symbolUnsafe g a = token_label a t"
    "symbolUnsafe g b = token_label b s"
    unfolding unf using ab
    by (simp_all add: symbolUnsafe_def RegisterToken_def NewGraphPricer_def registerAnchors_def RegisterStable_def
        newGraphPricer_def Let_def a_def [symmetric] b_def [symmetric])
  have ord: "ord n [x] = [x]" for n x
  proof -
    have "mset (ord n [x]) = {#x#}" using assms(2) by (simp add: range_order_def)
    then show ?thesis by simp
  qed
  have "resolve_loop g ord 0 (search_start a) = (search_start a)\<lparr>s_queue := [], s_best := \<lparr>r_Price = p,
      r_Route = [token_label a t, token_label b s], r_Weight = w, r_UpdatedAt = ts\<rparr>, s_found := True\<rparr>"
    using guard assms(7,9) ab
    by (simp add: resolve_loop.simps search_start_def edges ord relax_edge_def Let_def rest symbolPath_def)
  with ab rest(1) show ?thesis by (simp add: ResolveUSD_def Let_def g_def [symmetric] a_def [symmetric] b_def [symmetric])
qed

theorem UpdatePair_ResolveUSD_witness:
  "r_Price (fst (ResolveUSD plain_eth in_order 9 (tok 2 ''weth'')
     (UpdatePair plain_eth 9 (tok 2 ''weth'') (tok 1 ''usdc'') (Fin 2000) (Fin 50) 7 (NewGraphPricer plain_eth [tok 1 ''usdc''])))) = Fin 2000"
proof -
  have "f64_ok (Fin 2000)" unfolding f64_ok_def by code_simp
  then show ?thesis
    by (subst UpdatePair_ResolveUSD [OF plain_eth_ok range_order_in_order])
      (simp_all add: tok_def pos_fin_def max_float64_def)
qed

subsection \<open>The anchors of a new pricer\<close>

lemma anchor_tokens_keys:
  "map_of (anchor_tokens E ts m) a \<noteq> None \<longleftrightarrow>
     map_of m a \<noteq> None \<or> a \<noteq> [] \<and> (\<exists>t \<in> set ts. normalizeAddr E (ti_Address t) = a)"
  by (induction E ts m rule: anchor_tokens.induct) (auto simp: Let_def)

lemma anchor_networks_keys:
  "map_of (anchor_networks E p nets m) a \<noteq> None \<longleftrightarrow> map_of m a \<noteq> None \<or>
     a \<noteq> [] \<and> (\<exists>n \<in> set nets. trim_space n \<noteq> [] \<and>
       (\<exists>t \<in> set (TokensByNetwork p n TokenTypeStable). normalizeAddr E (ti_Address t) = a))"
proof (induction E p nets m rule: anchor_networks.induct)
  case (2 E p raw rest m)
  have "TokensByNetwork p (trim_space raw) ty = TokensByNetwork p raw ty" for ty
    by (simp add: TokensByNetwork_def)
  with 2 show ?case
    by (cases "trim_space raw = []") (simp add: Let_def, simp add: Let_def anchor_tokens_keys del: not_None_eq, blast)
qed simp

text \<open>Every token is kept under its own address, and no address is kept twice.\<close>

definition keyed :: "eth_lib \<Rightarrow> (string, PToken) gomap \<Rightarrow> bool" where
  "keyed E m \<longleftrightarrow> distinct (map fst m) \<and> (\<forall>(a, t) \<in> set m. normalizeAddr E (pt_Address t) = a)"

lemma keyed_anchor_tokens: "keyed E m \<Longrightarrow> keyed E (anchor_tokens E ts m)"
proof (induction E ts m rule: anchor_tokens.induct)
  case (2 E token ts m)
  then have "keyed E (mput (normalizeAddr E (ti_Address token)) \<lparr>pt_Address = ti_Address token,
      pt_Symbol = ti_Symbol token, pt_Decimals = int (unat (ti_Decimals token))\<rparr> m)"
    by (auto simp: keyed_def set_mput split: if_splits)
  with 2 show ?case by (simp add: Let_def)
qed simp

lemma keyed_anchor_networks: "keyed E m \<Longrightarrow> keyed E (anchor_networks E p nets m)"
  by (induction E p nets m rule: anchor_networks.induct) (simp_all add: Let_def keyed_anchor_tokens)

lemma stables_registerAnchors:
  "g_stables (registerAnchors E ts g) a \<longleftrightarrow>
     g_stables g a \<or> a \<noteq> [] \<and> (\<exists>t \<in> set ts. normalizeAddr E (pt_Address t) = a)"
  unfolding registerAnchors_def
  by (induction ts arbitrary: g) (auto simp: RegisterStable_def Let_def)

lemma anchorsFromProvider_addrs:
  "(\<exists>t \<in> set (anchorsFromProvider E (Some p) nets). normalizeAddr E (pt_Address t) = a) \<longleftrightarrow>
     map_of (anchor_networks E p (if nets = [] then NetworkNames p else nets) []) a \<noteq> None"
proof -
  define m where "m = anchor_networks E p (if nets = [] then NetworkNames p else nets) []"
  have k: "keyed E m" unfolding m_def by (rule keyed_anchor_networks) (simp add: keyed_def)
  have "(\<exists>t \<in> snd ` set m. normalizeAddr E (pt_Address t) = a) \<longleftrightarrow> a \<in> fst ` set m"
    using k by (force simp: keyed_def)
  then show ?thesis
    by (simp add: anchorsFromProvider_def m_def [symmetric] Let_def map_of_eq_None_iff del: not_None_eq)
qed

lemma distinct_map_sort: "distinct (map f (sort_key k xs)) = distinct (map f xs)"
  by (simp add: distinct_map)


text \<open>C4. The life of a pricer: from the construction on, through every sequence of registrations and
  price updates, the graph keeps its invariant, and an anchor registered once is worth exactly one
  dollar at every later time.\<close>

theorem pricer_history:
  assumes "eth_ok E" and "range_order ord" and "g = NewGraphPricerFromAssets E provider nets fallback"
    and "pt_Address t \<noteq> 0"
  shows "graph_inv E ord (fold (run_op (graph_pricer E ord now)) ops g) \<and> (\<exists>r. ResolveUSD E ord now t
      (fold (run_op (graph_pricer E ord now)) later (RegisterStable E t (fold (run_op (graph_pricer E ord now)) ops g))) = (r, True)
      \<and> r_Price r = 1)"
proof -
  have "graph_inv E ord (registerAnchors E ts newGraphPricer)" for ts
    using graph_inv_new [OF assms(1,2)] by (simp add: NewGraphPricer_def)
  then have g: "graph_inv E ord g" by (simp add: assms(3) NewGraphPricerFromAssets_def Let_def)
  then have inv: "graph_inv E ord (fold (run_op (graph_pricer E ord now)) ops g)" by (rule graph.inv_run)
  with graph.anchor_run_price [OF graph_inv_RegisterStable [OF inv] gp_anchor_new [OF inv assms(4)], where ops = later and now = now]
  show ?thesis by (simp add: graph_pricer_def)
qed

theorem pricer_history_witness:
  "graph_inv plain_eth in_order (fold (run_op (graph_pricer plain_eth in_order 9))
     [OpPair (tok 3 ''abc'') (tok 1 ''usdc'') (Fin 2) (Fin 5) 7, OpToken (tok 4 ''x'')]
     (NewGraphPricerFromAssets plain_eth None [] [tok 1 ''usdc'']))"
  by (rule pricer_history [OF plain_eth_ok range_order_in_order refl, THEN conjunct1, of "tok 2 []"]) (simp add: tok_def)

definition demo_provider :: Provider where
  "demo_provider = NewProvider plain_eth [(''ethereum'', \<lparr>nc_Name = ''ethereum'', nc_Chain = 1,
     nc_Stable = [\<lparr>ti_Symbol = ''USDC'', ti_Address = 1, ti_Decimals = 6, ti_Type = TokenTypeStable, ti_ChainID = 1, ti_Wrapped = False\<rparr>],
     nc_Native = [\<lparr>ti_Symbol = ''WETH'', ti_Address = 2, ti_Decimals = 18, ti_Type = TokenTypeNative, ti_ChainID = 1, ti_Wrapped = True\<rparr>]\<rparr>)]"

lemma demo_stables: "TokensByNetwork demo_provider '' ethereum'' TokenTypeStable =
    [\<lparr>ti_Symbol = ''USDC'', ti_Address = 1, ti_Decimals = 6, ti_Type = TokenTypeStable, ti_ChainID = 1, ti_Wrapped = False\<rparr>]"
proof -
  have "trim_space '' ethereum'' = ''ethereum''" "trim_space ''ethereum'' = ''ethereum''" by code_simp+
  then show ?thesis
    by (simp add: demo_provider_def NewProvider_def add_catalog_def TokensByNetwork_def Let_def indexTokensLocked_def
        index_token_def empty_provider_def)
qed


end
