(* ===== verification/V3_Pools.thy ===== *)
theory V3_Pools
  imports V2_Pools Graph_Search Backoff
begin

text \<open>
  The Uniswap V3 connector (\<open>connect_uniswap_v3_all.go\<close>), first part: the pool file, the start-up of the
  globals, and the token metadata read from the chain. The globals of the file are one record. The node,
  \<open>hexutil\<close> of go-ethereum, files and the environment are parameters. The node is asked anew for every call and
  may answer differently each time: a load of a pool takes the answers to each of its calls, \<open>calls i to data\<close>
  for the one made at its \<open>i\<close>th call site (\<open>None\<close> for an error). A run-time panic is the error
  \<open>SliceOutOfRange\<close>.
\<close>

subsection \<open>The pool file\<close>

definition v3IntOrString_UnmarshalJSON :: "(string \<Rightarrow> string option) \<Rightarrow> (string \<Rightarrow> int option) \<Rightarrow> string \<Rightarrow> int option" where
  "v3IntOrString_UnmarshalJSON json_string json_int b =
     (let bb = trim_space b in
      if bb = [] then Some 0
      else if hd bb = CHR 0x22 then
        (case json_string bb of None \<Rightarrow> None
         | Some s0 \<Rightarrow> (let s = trim_space s0 in if s = [] then Some 0 else parse_int64 s))
      else json_int bb)"

record v3GeckoToken =
  j3_Address :: string
  j3_Symbol :: string
  j3_Decimals :: int

record v3GeckoPool =
  e3_Dex :: string
  e3_PairName :: string
  e3_PoolID :: string
  e3_PoolAddress :: string
  e3_Network :: string
  e3_Token0 :: v3GeckoToken
  e3_Token1 :: v3GeckoToken

record v3TokenMeta =
  t3_Address :: address
  t3_Symbol :: string
  t3_Dec :: "8 word"

datatype v3_error = V3CallFailed | V3BadHex | V3ShortAddress | V3ShortUint8 | V3ShortSymbol | SliceOutOfRange
  | V3PoolsPath | V3ReadFile | V3Decode | V3WsUrl | V3HttpUrl | V3NoPools | V3Abi | V3NilOut | V3Cancelled | V3Batch nat

record v3PoolMeta =
  p3_Addr :: address
  p3_PairName :: string
  p3_Token0 :: v3TokenMeta
  p3_Token1 :: v3TokenMeta
  p3_Loaded :: bool
  p3_Loading :: bool
  p3_LoadErr :: "v3_error option"
  p3_HasJSONMeta :: bool
  p3_Registered :: bool
  p3_Verified :: bool

definition v3TokenMetaFromJSON :: "eth_lib \<Rightarrow> v3GeckoToken \<Rightarrow> v3TokenMeta" where
  "v3TokenMetaFromJSON E t =
     (let addr = trim_space (j3_Address t); sy = trim_space (j3_Symbol t);
          dec = (if j3_Decimals t < 0 then 0 else j3_Decimals t);
          dec = (if dec > 255 then 255 else dec)
      in \<lparr>t3_Address = (if eth_IsHexAddress E addr then eth_HexToAddress E addr else 0),
          t3_Symbol = (if sy \<noteq> [] then to_upper sy else []), t3_Dec = word_of_int dec\<rparr>)"

definition v3DefaultSymbol :: "eth_lib \<Rightarrow> address \<Rightarrow> string" where
  "v3DefaultSymbol E addr =
     (let hex = upper_hex E addr in
      if length hex \<le> 6 then hex else take 3 hex @ drop (length hex - 3) hex)"

record V3Config =
  c3_Exchange :: string
  c3_WSURL :: string
  c3_HTTPURL :: string
  c3_PoolsPath :: string
  c3_DexFilter :: string
  c3_NetworkFilter :: string
  c3_BatchSize :: int
  c3_PingInterval :: int
  c3_StopOnAckError :: bool
  c3_LogAllEvents :: bool
  c3_DecodeSwapOnly :: bool
  c3_MaxMetaWorkers :: int
  c3_Registry :: "TokenRegistry option"

definition with_default_symbol :: "eth_lib \<Rightarrow> v3TokenMeta \<Rightarrow> v3TokenMeta" where
  "with_default_symbol E t = (if t3_Symbol t = [] then t\<lparr>t3_Symbol := v3DefaultSymbol E (t3_Address t)\<rparr> else t)"

text \<open>The filters of an entry and one pass of the loop.\<close>

definition v3_wanted :: "V3Config \<Rightarrow> v3GeckoPool \<Rightarrow> bool" where
  "v3_wanted cfg e \<longleftrightarrow>
     (let dexFilter = (if trim_space (c3_DexFilter cfg) = [] then ''uniswap_v3'' else trim_space (c3_DexFilter cfg));
          networkFilter = to_lower (trim_space (c3_NetworkFilter cfg))
      in equal_fold (e3_Dex e) dexFilter \<and> (networkFilter = [] \<or> contains (to_lower (e3_Network e)) networkFilter))"

definition v3_load_entry :: "eth_lib \<Rightarrow> V3Config \<Rightarrow> v3GeckoPool \<Rightarrow> (address, v3PoolMeta) gomap \<Rightarrow> (address, v3PoolMeta) gomap" where
  "v3_load_entry E cfg e pools =
     (let addrHex = (if e3_PoolID e = [] then e3_PoolAddress e else e3_PoolID e);
          addr = eth_HexToAddress E addrHex;
          token0 = v3TokenMetaFromJSON E (e3_Token0 e); token1 = v3TokenMetaFromJSON E (e3_Token1 e)
      in if \<not> v3_wanted cfg e then pools
         else if \<not> eth_IsHexAddress E addrHex then pools
         else if map_of pools addr \<noteq> None then pools
         else if t3_Address token0 = 0 \<or> t3_Address token1 = 0 then pools
         else mput addr \<lparr>p3_Addr = addr, p3_PairName = e3_PairName e, p3_Token0 = with_default_symbol E token0,
                p3_Token1 = with_default_symbol E token1, p3_Loaded = False, p3_Loading = False, p3_LoadErr = None,
                p3_HasJSONMeta = (t3_Dec token0 > 0 \<and> t3_Dec token1 > 0), p3_Registered = False, p3_Verified = False\<rparr> pools)"

definition v3LoadPools ::
    "eth_lib \<Rightarrow> (string \<Rightarrow> string) \<Rightarrow> (string \<Rightarrow> 'd option) \<Rightarrow> ('d \<Rightarrow> v3GeckoPool list option) \<Rightarrow> V3Config
     \<Rightarrow> (v3_error, (address, v3PoolMeta) gomap) result" where
  "v3LoadPools E getenv read_file decode cfg =
     (let path = trim_space (c3_PoolsPath cfg);
          path = (if path = [] then trim_space (getenv ''GECKO_POOLS_JSON'') else path)
      in if path = [] then Inl V3PoolsPath
         else case read_file path of None \<Rightarrow> Inl V3ReadFile
         | Some b \<Rightarrow> (case decode b of None \<Rightarrow> Inl V3Decode
            | Some entries \<Rightarrow> Inr (fold (v3_load_entry E cfg) entries [])))"

subsection \<open>Endpoints\<close>

definition v3ResolveWS :: "(string \<Rightarrow> string) \<Rightarrow> V3Config \<Rightarrow> (v3_error, string \<times> string) result" where
  "v3ResolveWS getenv cfg =
     (let ws = trim_space (c3_WSURL cfg); http = trim_space (c3_HTTPURL cfg);
          direct = trim_space (getenv ''ALCHEMY_WS_URL''); key = trim_space (getenv ''ALCHEMY_API_KEY'')
      in if ws = [] \<and> direct = [] \<and> key = [] then Inl V3WsUrl
         else let (ws, http) =
                (if ws \<noteq> [] then (ws, http)
                 else if direct \<noteq> [] then (direct, http)
                 else (''wss://eth-mainnet.g.alchemy.com/v2/'' @ key,
                       if http = [] then ''https://eth-mainnet.g.alchemy.com/v2/'' @ key else http));
              fromEnv = trim_space (getenv ''ALCHEMY_HTTP_URL'');
              http = (if http \<noteq> [] then http
                 else if fromEnv \<noteq> [] then fromEnv
                 else if has_prefix ws ''wss://'' then ''https://'' @ trim_prefix ws ''wss://'' else [])
          in if http = [] then Inl V3HttpUrl else Inr (ws, http))"

subsection \<open>The globals\<close>

record 'p v3Globals =
  g3_Pools :: "(address, v3PoolMeta) gomap"
  g3_BatchSize :: int
  g3_WSURL :: string
  g3_HTTPURL :: string
  g3_StopOnErrAck :: bool
  g3_LogAllEvents :: bool
  g3_DecodeSwapOnly :: bool
  g3_TokenCache :: "address \<rightharpoonup> v3TokenMeta"
  g3_Registry :: "TokenRegistry option"
  g3_WETHAddress :: address
  g3_StableLookup :: "string list"
  g3_WETHUSD :: "rat option"
  g3_WETHUSDStable :: string
  g3_MetaCap :: nat
  g3_MetaUsed :: nat
  g3_PingInterval :: int
  g3_Open :: bool
  g3_ExchangeName :: string
  g3_Pricer :: "'p option"
  g3_MessageCount :: "64 word"
  g3_ReconnectCount :: "64 word"
  g3_out :: "MarketData list"

definition v3FallbackStableSymbols :: "string list" where
  "v3FallbackStableSymbols = [''USDC'', ''USDT'', ''DAI'', ''TUSD'', ''FDUSD'']"

definition v3FallbackStableSet :: "string list" where
  "v3FallbackStableSet = filter (\<lambda>key. key \<noteq> []) (map (\<lambda>s. to_upper (trim_space s)) v3FallbackStableSymbols)"

definition v3FallbackWETHHex :: string where
  "v3FallbackWETHHex = ''0xC02aaA39b223FE8D0A0e5C4F27eAD9083C756Cc2''"

definition v3InitAssets :: "eth_lib \<Rightarrow> TokenRegistry option \<Rightarrow> 'p v3Globals \<Rightarrow> 'p v3Globals" where
  "v3InitAssets E reg0 g =
     (let reg = (case reg0 of None \<Rightarrow> NewTokenRegistry E None [] | Some r \<Rightarrow> r);
          keys = filter (\<lambda>key. key \<noteq> []) (map (\<lambda>m. to_upper (trim_space (tm_Symbol m))) (StableTokens (Some reg)));
          addr = (case WETHMeta reg of Some m \<Rightarrow> tm_Address m | None \<Rightarrow> 0);
          addr = (if addr = 0 then WETHAddress E (Some reg) else addr);
          addr = (if addr = 0 then eth_HexToAddress E v3FallbackWETHHex else addr)
      in g\<lparr>g3_Registry := Some reg, g3_StableLookup := v3FallbackStableSet @ keys, g3_WETHAddress := addr\<rparr>)"

definition v3IsStableSymbol :: "'p v3Globals \<Rightarrow> string \<Rightarrow> bool" where
  "v3IsStableSymbol g symbol \<longleftrightarrow>
     (let key = to_upper (trim_space symbol) in
      key \<noteq> [] \<and> ((case g3_Registry g of Some r \<Rightarrow> IsStableSymbol r key | None \<Rightarrow> False) \<or>
        key \<in> set (g3_StableLookup g) \<or> key \<in> set v3FallbackStableSet))"

subsection \<open>Token metadata from the chain\<close>

record hexutil =
  hx_Decode :: "string \<Rightarrow> nat list option"
  hx_Encode :: "nat list \<Rightarrow> string"

definition v3CallAddress :: "hexutil \<Rightarrow> eth_call \<Rightarrow> address \<Rightarrow> string \<Rightarrow> (v3_error, address) result" where
  "v3CallAddress H call contract selector =
     (case call contract (''0x'' @ selector) of None \<Rightarrow> Inl V3CallFailed
      | Some resp \<Rightarrow>
          if length resp < 66 then Inl V3ShortAddress
          else (case hx_Decode H resp of None \<Rightarrow> Inl V3BadHex
             | Some b \<Rightarrow> if length b < 32 then Inl V3ShortAddress
                 else Inr (word_of_int (set_bytes (take 20 (drop 12 b))))))"

definition v3CallUint8 :: "hexutil \<Rightarrow> eth_call \<Rightarrow> address \<Rightarrow> string \<Rightarrow> (v3_error, 8 word) result" where
  "v3CallUint8 H call contract selector =
     (case call contract (''0x'' @ selector) of None \<Rightarrow> Inl V3CallFailed
      | Some resp \<Rightarrow> (case hx_Decode H resp of None \<Rightarrow> Inl V3BadHex
         | Some b \<Rightarrow> if length b < 32 then Inl V3ShortUint8 else Inr (word_of_nat (b ! 31))))"

definition isASCII :: "nat list \<Rightarrow> bool" where
  "isASCII b \<longleftrightarrow> list_all (\<lambda>c. \<not> (c < 32 \<or> c > 126)) b"

definition bytes_string :: "nat list \<Rightarrow> string" where
  "bytes_string b = map char_of b"

text \<open>The second attempt: a name of 32 bytes.\<close>

definition symbol_bytes32 :: "hexutil \<Rightarrow> string option \<Rightarrow> (v3_error, string) result" where
  "symbol_bytes32 H resp2 =
     (case resp2 of None \<Rightarrow> Inl V3CallFailed
      | Some r \<Rightarrow> (case hx_Decode H r of None \<Rightarrow> Inl V3BadHex
         | Some b2 \<Rightarrow>
             if length b2 < 32 then Inl V3ShortSymbol
             else (let trimmed = rev (dropWhile (\<lambda>c. c = 0) (rev (take 32 b2))) in
               if trimmed = [] then Inr []
               else if isASCII trimmed then Inr (bytes_string trimmed) else Inr (hx_Encode H trimmed))))"

text \<open>The answer of \<open>symbol()\<close>, which may be asked a second time (\<open>again\<close>). The length word is read by
  \<open>big.Int.Uint64\<close>, that is its low 64 bits (the package leaves longer numbers undefined and takes the lowest word),
  converted to \<open>int\<close> and added to 64 with wrap-around; the slice \<open>b[64:64+int(l)]\<close> panics when its end is below 64.\<close>

definition v3CallSymbol :: "hexutil \<Rightarrow> eth_call \<Rightarrow> eth_call \<Rightarrow> address \<Rightarrow> (v3_error, string) result" where
  "v3CallSymbol H call again contract =
     (let resp = call contract ''0x95d89b41''; fallback = symbol_bytes32 H (again contract ''0x95d89b41'') in
      case Option.bind resp (hx_Decode H) of None \<Rightarrow> fallback
      | Some b \<Rightarrow>
          if length b < 96 then fallback
          else let l = (word_of_int (set_bytes (take 32 (drop 32 b))) :: 64 word); stop = sint (64 + l) in
          if stop > int (length b) then fallback
          else if stop < 64 then Inl SliceOutOfRange
          else let raw = take (nat stop - 64) (drop 64 b) in
          if isASCII raw then Inr (trim_space (bytes_string raw)) else fallback)"

text \<open>The calls of a load, by call site: \<open>token0()\<close>, \<open>token1()\<close>, then for each token \<open>decimals()\<close> and \<open>symbol()\<close>
  once or twice.\<close>

type_synonym v3_calls = "nat \<Rightarrow> eth_call"

definition v3FetchTokenMeta ::
    "eth_lib \<Rightarrow> hexutil \<Rightarrow> v3_calls \<Rightarrow> address \<Rightarrow> v3TokenMeta \<Rightarrow> (address \<rightharpoonup> v3TokenMeta)
     \<Rightarrow> (v3_error, v3TokenMeta \<times> (address \<rightharpoonup> v3TokenMeta)) result" where
  "v3FetchTokenMeta E H calls addr hint cache =
     (let meta = \<lparr>t3_Address = addr, t3_Symbol = to_upper (trim_space (t3_Symbol hint)), t3_Dec = t3_Dec hint\<rparr>;
          meta = (if t3_Address hint \<noteq> addr then meta\<lparr>t3_Symbol := [], t3_Dec := 0\<rparr> else meta);
          meta = (case cache addr of None \<Rightarrow> meta
            | Some cached \<Rightarrow> meta\<lparr>t3_Symbol := (if t3_Symbol meta = [] then t3_Symbol cached else t3_Symbol meta),
                 t3_Dec := (if t3_Dec meta = 0 then t3_Dec cached else t3_Dec meta)\<rparr>);
          meta = (if t3_Dec meta = 0 then
                    (case v3CallUint8 H (calls 0) addr ''313ce567'' of Inr dec \<Rightarrow> meta\<lparr>t3_Dec := dec\<rparr> | Inl e \<Rightarrow> meta)
                  else meta);
          sy = (if t3_Symbol meta = [] then v3CallSymbol H (calls 1) (calls 2) addr else Inr (t3_Symbol meta))
      in if sy = Inl SliceOutOfRange then Inl SliceOutOfRange
         else let symbol = (case sy of Inr s \<Rightarrow> if t3_Symbol meta = [] then to_upper (trim_space s) else s | Inl e \<Rightarrow> []);
                  meta = meta\<lparr>t3_Symbol := (if symbol = [] then v3DefaultSymbol E addr else symbol)\<rparr>
              in Inr (meta, cache(addr \<mapsto> meta)))"

definition v3RegisterToken :: "'p Pricer \<Rightarrow> v3TokenMeta \<Rightarrow> 'p v3Globals \<Rightarrow> 'p v3Globals" where
  "v3RegisterToken P meta g =
     (if t3_Address meta = 0 then g
      else case g3_Pricer g of None \<Rightarrow> g
      | Some p \<Rightarrow>
          (let info = \<lparr>pt_Address = t3_Address meta, pt_Symbol = t3_Symbol meta, pt_Decimals = uint (t3_Dec meta)\<rparr>;
               p = pr_RegisterToken P info p
           in g\<lparr>g3_Pricer := Some (if v3IsStableSymbol g (t3_Symbol meta) then pr_RegisterStable P info p else p)\<rparr>))"

text \<open>The result: the error, if any, the pool's metadata and the globals.\<close>

definition v3EnsurePoolMeta ::
    "eth_lib \<Rightarrow> 'p Pricer \<Rightarrow> hexutil \<Rightarrow> v3_calls \<Rightarrow> v3PoolMeta \<Rightarrow> 'p v3Globals \<Rightarrow> v3_error option \<times> v3PoolMeta \<times> 'p v3Globals" where
  "v3EnsurePoolMeta E P H calls pm g =
     (if p3_Loading pm then (None, pm, g)
      else case v3CallAddress H (calls 0) (p3_Addr pm) ''0dfe1681'' of Inl e \<Rightarrow> (Some e, pm, g)
      | Inr t0 \<Rightarrow> (case v3CallAddress H (calls 1) (p3_Addr pm) ''d21220a7'' of Inl e \<Rightarrow> (Some e, pm, g)
         | Inr t1 \<Rightarrow> (case v3FetchTokenMeta E H (\<lambda>i. calls (i + 2)) t0 (p3_Token0 pm) (g3_TokenCache g) of Inl e \<Rightarrow> (Some e, pm, g)
            | Inr (tm0, cache) \<Rightarrow> (case v3FetchTokenMeta E H (\<lambda>i. calls (i + 5)) t1 (p3_Token1 pm) cache of
                 Inl e \<Rightarrow> (Some e, pm, g\<lparr>g3_TokenCache := cache\<rparr>)
               | Inr (tm1, cache) \<Rightarrow>
                   (None, pm\<lparr>p3_Token0 := tm0, p3_Token1 := tm1,
                      p3_HasJSONMeta := (p3_HasJSONMeta pm \<or> t3_Dec tm0 > 0 \<and> t3_Dec tm1 > 0)\<rparr>,
                    v3RegisterToken P tm1 (v3RegisterToken P tm0 (g\<lparr>g3_TokenCache := cache\<rparr>)))))))"

subsection \<open>Lemmas\<close>

text \<open>The sum \<open>64 + int(l)\<close> in 64-bit arithmetic: below 64 exactly for the lengths from \<open>2\<^sup>6\<^sup>3 - 64\<close> on.\<close>

lemma slice_end_wraps: "sint (64 + word_of_int n :: 64 word) < 64 \<longleftrightarrow> 2 ^ 63 - 64 \<le> n mod 2 ^ 64"
proof -
  define m where "m = n mod 2 ^ 64"
  have m: "0 \<le> m" "m < 2 ^ 64" by (simp_all add: m_def)
  have "(word_of_int n :: 64 word) = word_of_int m" by (simp add: m_def word_of_int_eq_iff take_bit_eq_mod)
  then have "(64 + word_of_int n :: 64 word) = word_of_int (64 + m)" by (metis of_int_add of_int_numeral)
  then have "sint (64 + word_of_int n :: 64 word) = (64 + m + 2 ^ 63) mod 2 ^ 64 - 2 ^ 63" by (simp only: int_word_sint) simp
  also have "\<dots> < 64 \<longleftrightarrow> 2 ^ 63 - 64 \<le> m"
  proof (cases "64 + m + 2 ^ 63 < 2 ^ 64")
    case True
    then show ?thesis using m by simp
  next
    case False
    then have "(64 + m + 2 ^ 63) mod 2 ^ 64 = (64 + m + 2 ^ 63 - 2 ^ 64) mod 2 ^ 64" by (metis minus_mod_self2)
    also have "\<dots> = 64 + m + 2 ^ 63 - 2 ^ 64" using m False by (intro mod_pos_pos_trivial) simp_all
    finally show ?thesis using m False by simp
  qed
  finally show ?thesis by (simp add: m_def)
qed


text \<open>What the loader promises of a pool.\<close>

definition pool3_fresh :: "V3Config \<Rightarrow> v3GeckoPool list \<Rightarrow> address \<Rightarrow> v3PoolMeta \<Rightarrow> bool" where
  "pool3_fresh cfg entries a pm \<longleftrightarrow> p3_Addr pm = a \<and> t3_Address (p3_Token0 pm) \<noteq> 0 \<and> t3_Address (p3_Token1 pm) \<noteq> 0 \<and>
     p3_HasJSONMeta pm = (t3_Dec (p3_Token0 pm) > 0 \<and> t3_Dec (p3_Token1 pm) > 0) \<and>
     \<not> p3_Loaded pm \<and> \<not> p3_Verified pm \<and> \<not> p3_Registered pm \<and> \<not> p3_Loading pm \<and>
     (\<exists>e \<in> set entries. v3_wanted cfg e \<and> e3_PairName e = p3_PairName pm)"

lemma with_default_symbol_same [simp]:
  "t3_Address (with_default_symbol E t) = t3_Address t" "t3_Dec (with_default_symbol E t) = t3_Dec t"
  by (simp_all add: with_default_symbol_def)

lemma v3_load_entry_fresh:
  assumes "distinct (map fst pools)" and "\<forall>a pm. map_of pools a = Some pm \<longrightarrow> pool3_fresh cfg all a pm" and "e \<in> set all"
  shows "distinct (map fst (v3_load_entry E cfg e pools)) \<and>
    (\<forall>a pm. map_of (v3_load_entry E cfg e pools) a = Some pm \<longrightarrow> pool3_fresh cfg all a pm)"
proof -
  define addr where "addr = eth_HexToAddress E (if e3_PoolID e = [] then e3_PoolAddress e else e3_PoolID e)"
  define t0 where "t0 = v3TokenMetaFromJSON E (e3_Token0 e)"
  define t1 where "t1 = v3TokenMetaFromJSON E (e3_Token1 e)"
  define pm0 where "pm0 = \<lparr>p3_Addr = addr, p3_PairName = e3_PairName e, p3_Token0 = with_default_symbol E t0,
    p3_Token1 = with_default_symbol E t1, p3_Loaded = False, p3_Loading = False, p3_LoadErr = None,
    p3_HasJSONMeta = (t3_Dec t0 > 0 \<and> t3_Dec t1 > 0), p3_Registered = False, p3_Verified = False\<rparr>"
  have "v3_load_entry E cfg e pools = pools \<or>
      v3_load_entry E cfg e pools = mput addr pm0 pools \<and> v3_wanted cfg e \<and> t3_Address t0 \<noteq> 0 \<and> t3_Address t1 \<noteq> 0"
    unfolding v3_load_entry_def Let_def addr_def [symmetric] t0_def [symmetric] t1_def [symmetric] pm0_def [symmetric] by metis
  moreover have "pool3_fresh cfg all addr pm0" if "v3_wanted cfg e" "t3_Address t0 \<noteq> 0" "t3_Address t1 \<noteq> 0"
    using that assms(3) by (auto simp: pool3_fresh_def pm0_def)
  ultimately show ?thesis
  proof (elim disjE conjE)
    assume u: "v3_load_entry E cfg e pools = mput addr pm0 pools" "v3_wanted cfg e" "t3_Address t0 \<noteq> 0" "t3_Address t1 \<noteq> 0"
    with \<open>\<lbrakk>v3_wanted cfg e; t3_Address t0 \<noteq> 0; t3_Address t1 \<noteq> 0\<rbrakk> \<Longrightarrow> pool3_fresh cfg all addr pm0\<close>
    have "pool3_fresh cfg all addr pm0" by blast
    with assms(2) show ?thesis unfolding u(1) map_of_mput using distinct_mput [OF assms(1)] by (metis fun_upd_apply option.inject)
  qed (use assms(1,2) in \<open>simp only: simp_thms\<close>)
qed

lemma v3_load_fold_fresh:
  assumes "distinct (map fst pools)" and "\<forall>a pm. map_of pools a = Some pm \<longrightarrow> pool3_fresh cfg all a pm" and "set entries \<subseteq> set all"
  shows "distinct (map fst (fold (v3_load_entry E cfg) entries pools)) \<and>
    (\<forall>a pm. map_of (fold (v3_load_entry E cfg) entries pools) a = Some pm \<longrightarrow> pool3_fresh cfg all a pm)"
  using assms
proof (induction entries arbitrary: pools)
  case (Cons e entries)
  have "e \<in> set all" "set entries \<subseteq> set all" using Cons.prems(3) by simp_all
  note step = v3_load_entry_fresh [OF Cons.prems(1,2) this(1), of E]
  show ?case unfolding fold_simps using Cons.IH [OF conjunct1 [OF step] conjunct2 [OF step] \<open>set entries \<subseteq> set all\<close>] .
qed simp

text \<open>The pools of a file: one per address, each from an entry that passes the filters, with two token
  addresses, marked as having metadata exactly when the file gives decimals for both tokens, and with
  nothing verified against the chain yet.\<close>

theorem v3LoadPools_ok:
  assumes "v3LoadPools E getenv read_file decode cfg = Inr pools"
  shows "distinct (map fst pools) \<and> (\<exists>path data entries. read_file path = Some data \<and> decode data = Some entries \<and>
    (\<forall>a pm. map_of pools a = Some pm \<longrightarrow> pool3_fresh cfg entries a pm))"
proof -
  obtain path data entries where "read_file path = Some data" "decode data = Some entries" "pools = fold (v3_load_entry E cfg) entries []"
    using assms by (auto simp: v3LoadPools_def Let_def split: if_splits option.splits)
  moreover have "distinct (map fst []) \<and> (\<forall>a pm. map_of [] a = Some pm \<longrightarrow> pool3_fresh cfg entries a pm)" by simp
  ultimately show ?thesis using v3_load_fold_fresh [of "[]" cfg entries entries E] by blast
qed

definition demo_cfg3 :: V3Config where
  "demo_cfg3 = \<lparr>c3_Exchange = [], c3_WSURL = ''wss://node'', c3_HTTPURL = [], c3_PoolsPath = ''pools.json'', c3_DexFilter = [],
     c3_NetworkFilter = [], c3_BatchSize = 0, c3_PingInterval = 0, c3_StopOnAckError = False, c3_LogAllEvents = False,
     c3_DecodeSwapOnly = True, c3_MaxMetaWorkers = 0, c3_Registry = None\<rparr>"

text \<open>A file of two entries of which only one is a V3 pool.\<close>

definition demo_entry3 :: "string \<Rightarrow> v3GeckoPool" where
  "demo_entry3 dex = \<lparr>e3_Dex = dex, e3_PairName = ''ABC / USDC'', e3_PoolID = ''0x0000000000000000000000000000000000000009'',
     e3_PoolAddress = [], e3_Network = ''eth'',
     e3_Token0 = \<lparr>j3_Address = ''0x0000000000000000000000000000000000000005'', j3_Symbol = ''abc'', j3_Decimals = 18\<rparr>,
     e3_Token1 = \<lparr>j3_Address = ''0x0000000000000000000000000000000000000007'', j3_Symbol = ''USDC'', j3_Decimals = 6\<rparr>\<rparr>"

theorem v3LoadPools_ok_witness:
  "\<exists>pools. v3LoadPools plain_eth (\<lambda>_. []) (\<lambda>p. if p = ''pools.json'' then Some () else None)
      (\<lambda>_. Some [demo_entry3 ''uniswap_v2'', demo_entry3 ''uniswap_v3'']) demo_cfg3 = Inr pools \<and> distinct (map fst pools)"
proof -
  have "trim_space ''pools.json'' = ''pools.json''" by code_simp
  then obtain pools where "v3LoadPools plain_eth (\<lambda>_. []) (\<lambda>p. if p = ''pools.json'' then Some () else None)
      (\<lambda>_. Some [demo_entry3 ''uniswap_v2'', demo_entry3 ''uniswap_v3'']) demo_cfg3 = Inr pools"
    by (simp add: v3LoadPools_def demo_cfg3_def Let_def)
  with v3LoadPools_ok [OF this] show ?thesis by blast
qed

end
