(* ===== verification/Uniswap_V2.thy ===== *)
theory Uniswap_V2
  imports V2_Pools Graph_Search Backoff
begin

text \<open>
  The Uniswap V2 connector (\<open>v2_connector.go\<close>): from a Sync log to the price of the pool, the filter of
  small changes, the messages it sends and the quotes it gives to the pricer, and the connection loop.
  The pricer is any implementation of the interface \<open>pricing.Pricer\<close>, \<open>None\<close> for a nil one. What is sent
  on the shared channel is collected in order. The clock is read once per frame. Frames arrive with what
  decoding them as an acknowledgement and as a notification gives.
\<close>

subsection \<open>Prices and reserves\<close>

record V2Config =
  v2_WSURL :: string
  v2_HTTPURL :: string
  v2_Exchange :: string
  v2_Pools :: "PoolConfig list"
  v2_SubscribeBatchSize :: int
  v2_PingInterval :: int

record poolState =
  ps_meta :: PoolConfig
  ps_lastPrice :: "rat option"
  ps_gotFirst :: bool

record poolSnapshot =
  sn_Price :: "rat option"
  sn_Reserve0 :: "int option"
  sn_Reserve1 :: "int option"

definition tenPow :: "int \<Rightarrow> int" where
  "tenPow dec = 10 ^ nat dec"

definition ratio :: "int \<Rightarrow> int \<Rightarrow> int \<Rightarrow> int \<Rightarrow> rat option" where
  "ratio num numDec den denDec =
     (if den = 0 then None
      else Some ((of_int num / of_int (tenPow numDec)) / (of_int den / of_int (tenPow denDec))))"

datatype v2_error = InvalidSyncPayload | InvalidHex | SubscribeError int string | SubscribeBatch int
  | NoPools | NilDialer | EmptyEndpoint

definition computeSnapshot :: "PoolConfig \<Rightarrow> string \<Rightarrow> (v2_error, poolSnapshot option) result" where
  "computeSnapshot pool rawData =
     (let data = trim_prefix rawData ''0x'' in
      if length data < 64 * 2 then Inl InvalidSyncPayload
      else (case hex_decode data of None \<Rightarrow> Inl InvalidHex
        | Some payload \<Rightarrow>
            (let r0 = set_bytes (take 32 payload); r1 = set_bytes (take 32 (drop 32 payload)) in
             if r0 = 0 \<or> r1 = 0 then Inr None
             else (let price = (if pc_BaseIsToken0 pool
                      then ratio r1 (tm_Decimals (pc_Token1 pool)) r0 (tm_Decimals (pc_Token0 pool))
                      else ratio r0 (tm_Decimals (pc_Token0 pool)) r1 (tm_Decimals (pc_Token1 pool)))
               in Inr (Some \<lparr>sn_Price = price, sn_Reserve0 = Some r0, sn_Reserve1 = Some r1\<rparr>)))))"

definition invert :: "rat option \<Rightarrow> rat option" where
  "invert r = (case r of None \<Rightarrow> None | Some x \<Rightarrow> if x = 0 then None else Some (1 / x))"

definition ratToFloat :: "rat option \<Rightarrow> f64 option" where
  "ratToFloat r = (case r of None \<Rightarrow> None
     | Some x \<Rightarrow> (let f = rat_float64 x in if is_nan f \<or> is_inf f then None else Some f))"

definition reserveToFloat :: "int option \<Rightarrow> int \<Rightarrow> f64" where
  "reserveToFloat reserve decimals =
     (case reserve of None \<Rightarrow> 0
      | Some r \<Rightarrow>
          (let a = \<bar>r\<bar> in
           if a = 0 then 0
           else let f = round_prec 256 (of_int a);
                    f = (if decimals > 0 then round_prec 256 (f / round_prec 256 (of_int (tenPow decimals))) else f);
                    val = f64_of_rat f
                in if is_nan val \<or> is_inf val then 0 else val))"

definition least_weight :: f64 where
  "least_weight = f64_of_rat (1 / 10 ^ 9)"

definition reserveWeight :: "poolSnapshot option \<Rightarrow> PoolConfig \<Rightarrow> f64" where
  "reserveWeight snap meta =
     (case snap of None \<Rightarrow> least_weight
      | Some s \<Rightarrow>
          (let r0 = reserveToFloat (sn_Reserve0 s) (tm_Decimals (pc_Token0 meta));
               r1 = reserveToFloat (sn_Reserve1 s) (tm_Decimals (pc_Token1 meta));
               weight = f64_max r0 r1
           in if weight \<le> 0 then least_weight else weight))"

text \<open>The filter: a price that is equal to the last one or within a ten-thousandth of it is dropped.\<close>

definition shouldDrop :: "poolState \<Rightarrow> rat \<Rightarrow> bool \<times> poolState" where
  "shouldDrop state price =
     (case ps_lastPrice state of None \<Rightarrow> (False, state\<lparr>ps_lastPrice := Some price\<rparr>)
      | Some prev \<Rightarrow>
          (let delta = price - prev in
           if delta = 0 then (True, state)
           else let threshold = prev / 10000 in
           if \<bar>delta\<bar> < threshold then (True, state)
           else (False, state\<lparr>ps_lastPrice := Some price\<rparr>)))"

subsection \<open>Messages\<close>

record 'p Connector =
  cn_cfg :: V2Config
  cn_pricer :: "'p option"
  cn_pools :: "(address, poolState) gomap"
  cn_out :: "MarketData list"

definition exchangeName :: "'p Connector \<Rightarrow> string" where
  "exchangeName c = (if trim_space (v2_Exchange (cn_cfg c)) \<noteq> [] then v2_Exchange (cn_cfg c) else ''uniswap_v2'')"

definition emitFloat :: "time \<Rightarrow> string \<Rightarrow> f64 \<Rightarrow> 'p Connector \<Rightarrow> bool \<times> 'p Connector" where
  "emitFloat now symbol value c =
     (if value \<le> 0 \<or> is_nan value \<or> is_inf value then (False, c)
      else (True, c\<lparr>cn_out := cn_out c @
        [\<lparr>md_Exchange = exchangeName c, md_Symbol = symbol, md_Price = value, md_Timestamp = unix_milli now\<rparr>]\<rparr>))"

definition emitPrice :: "time \<Rightarrow> string \<Rightarrow> rat option \<Rightarrow> 'p Connector \<Rightarrow> bool \<times> 'p Connector" where
  "emitPrice now symbol value c =
     (case ratToFloat value of None \<Rightarrow> (False, c) | Some val \<Rightarrow> emitFloat now symbol val c)"

definition token_info :: "TokenMeta \<Rightarrow> PToken" where
  "token_info m = \<lparr>pt_Address = tm_Address m, pt_Symbol = tm_Symbol m, pt_Decimals = tm_Decimals m\<rparr>"

definition registerToken :: "'p Pricer \<Rightarrow> TokenMeta \<Rightarrow> 'p \<Rightarrow> 'p" where
  "registerToken P m p =
     (if tm_Address m = 0 then p
      else let p = pr_RegisterToken P (token_info m) p in
        if tm_IsStable m then pr_RegisterStable P (token_info m) p else p)"

definition registerPoolTokens :: "'p Pricer \<Rightarrow> PoolConfig \<Rightarrow> 'p Connector \<Rightarrow> 'p Connector" where
  "registerPoolTokens P pool c =
     (case cn_pricer c of None \<Rightarrow> c
      | Some p \<Rightarrow> c\<lparr>cn_pricer := Some (registerToken P (pc_Token1 pool) (registerToken P (pc_Token0 pool) p))\<rparr>)"

definition emitUSD :: "eth_lib \<Rightarrow> 'p Pricer \<Rightarrow> time \<Rightarrow> PToken \<Rightarrow> 'p Connector \<Rightarrow> 'p Connector" where
  "emitUSD E P now info c =
     (case cn_pricer c of None \<Rightarrow> c
      | Some p \<Rightarrow>
          (let (res, ok) = pr_ResolveUSD P info p in
           if \<not> ok \<or> r_Price res \<le> 0 \<or> is_nan (r_Price res) \<or> is_inf (r_Price res) then c
           else let symbol = to_upper (trim_space (pt_Symbol info));
                    symbol = (if symbol = [] then upper_hex E (pt_Address info) else symbol)
                in snd (emitFloat now (symbol @ ''USD'') (r_Price res) c)))"

text \<open>The condition \<open>ok && val > 0\<close> on a converted price.\<close>

definition usable_price :: "rat option \<Rightarrow> f64 option" where
  "usable_price r = (case ratToFloat r of None \<Rightarrow> None | Some val \<Rightarrow> if val > 0 then Some val else None)"

definition updatePricing ::
    "eth_lib \<Rightarrow> 'p Pricer \<Rightarrow> time \<Rightarrow> PoolConfig \<Rightarrow> poolSnapshot \<Rightarrow> 'p Connector \<Rightarrow> 'p Connector" where
  "updatePricing E P now meta snap c =
     (case (sn_Price snap, cn_pricer c) of
        (Some price, Some p) \<Rightarrow>
          (let info0 = token_info (pc_Token0 meta); info1 = token_info (pc_Token1 meta);
               price1Per0 = (if pc_BaseIsToken0 meta then Some price else invert (Some price));
               price0Per1 = (if pc_BaseIsToken0 meta then invert (Some price) else Some price);
               weight = reserveWeight (Some snap) meta;
               usd = (\<lambda>c. emitUSD E P now info1 (emitUSD E P now info0 c))
           in case usable_price price1Per0 of
                Some val \<Rightarrow> usd (c\<lparr>cn_pricer := Some (pr_UpdatePair P info0 info1 val weight now p)\<rparr>)
              | None \<Rightarrow> (case usable_price price0Per1 of
                    Some val \<Rightarrow> usd (c\<lparr>cn_pricer := Some (pr_UpdatePair P info1 info0 val weight now p)\<rparr>)
                  | None \<Rightarrow> c))
      | _ \<Rightarrow> c)"

definition pair_symbol :: "PoolConfig \<Rightarrow> string" where
  "pair_symbol meta = (let pair = to_upper (trim_space (pc_CanonicalPair meta)) in
     if pair = [] then to_upper (baseSymbol meta @ quoteSymbol meta) else pair)"

definition publish ::
    "eth_lib \<Rightarrow> 'p Pricer \<Rightarrow> time \<Rightarrow> poolState \<Rightarrow> poolSnapshot \<Rightarrow> 'p Connector \<Rightarrow> poolState \<times> 'p Connector" where
  "publish E P now state snap c =
     (if sn_Price snap = None then (state, c)
      else let meta = ps_meta state;
               (emitted, c) = emitPrice now (pair_symbol meta) (sn_Price snap) c;
               c = updatePricing E P now meta snap c
           in (if emitted \<and> \<not> ps_gotFirst state then state\<lparr>ps_gotFirst := True\<rparr> else state, c))"

subsection \<open>Frames\<close>

record subAck =
  sa_Result :: string
  sa_Error :: "(int \<times> string) option"

record logEvent =
  le_Address :: string
  le_Data :: string
  le_Topics :: "string list"
  le_Removed :: bool

record subNote =
  sn_Method :: string
  sn_Result :: logEvent

record v2_frame =
  vf_ack :: "subAck option"
  vf_note :: "subNote option"

definition syncTopic :: string where
  "syncTopic = ''0x1c411e9a96e071241c2f21f7726b17ae89e3cab4c78be50e062b03a9fffbbad1''"

definition tryAck :: "subAck option \<Rightarrow> subAck option" where
  "tryAck raw = (case raw of None \<Rightarrow> None
     | Some ack \<Rightarrow> if sa_Result ack = [] \<and> sa_Error ack = None then None else Some ack)"

definition tryNote :: "subNote option \<Rightarrow> subNote option" where
  "tryNote raw = (case raw of None \<Rightarrow> None
     | Some note \<Rightarrow>
         if \<not> equal_fold (sn_Method note) ''eth_subscription'' then None
         else (case le_Topics (sn_Result note) of [] \<Rightarrow> None
           | topic # _ \<Rightarrow>
               if \<not> equal_fold topic syncTopic then None
               else if le_Removed (sn_Result note) then None else Some note))"

definition handleRaw ::
    "eth_lib \<Rightarrow> 'p Pricer \<Rightarrow> time \<Rightarrow> v2_frame \<Rightarrow> 'p Connector \<Rightarrow> (v2_error, unit) result \<times> 'p Connector" where
  "handleRaw E P now raw c =
     (case tryAck (vf_ack raw) of
        Some ack \<Rightarrow> (case sa_Error ack of Some (code, msg) \<Rightarrow> (Inl (SubscribeError code msg), c) | None \<Rightarrow> (Inr (), c))
      | None \<Rightarrow> (case tryNote (vf_note raw) of None \<Rightarrow> (Inr (), c)
          | Some note \<Rightarrow>
              (let poolAddr = eth_HexToAddress E (le_Address (sn_Result note)) in
               case map_of (cn_pools c) poolAddr of None \<Rightarrow> (Inr (), c)
               | Some state \<Rightarrow> (case computeSnapshot (ps_meta state) (le_Data (sn_Result note)) of
                     Inl e \<Rightarrow> (Inl e, c)
                   | Inr None \<Rightarrow> (Inr (), c)
                   | Inr (Some snapshot) \<Rightarrow> (case sn_Price snapshot of None \<Rightarrow> (Inr (), c)
                       | Some price \<Rightarrow>
                           (let (dropped, state) = shouldDrop state price in
                            if dropped then (Inr (), c)
                            else let (state, c) = publish E P now state snapshot c
                              in (Inr (), c\<lparr>cn_pools := mput poolAddr state (cn_pools c)\<rparr>)))))))"

subsection \<open>The connection loop\<close>

definition nextBackoff :: "int \<Rightarrow> int \<Rightarrow> int" where
  "nextBackoff cur limit = (let nxt = cur * 2 in if nxt > limit then limit else if nxt < second then second else nxt)"

text \<open>A request of \<open>eth_subscribe\<close>: its number and its addresses.\<close>

type_synonym rpcRequest = "int \<times> string list"

fun subscribe_batches :: "nat \<Rightarrow> int \<Rightarrow> string list \<Rightarrow> rpcRequest list" where
  "subscribe_batches bsz i [] = []"
| "subscribe_batches bsz i (a # as) =
     (i, take (Suc bsz) (a # as)) # subscribe_batches bsz (i + 1) (drop (Suc bsz) (a # as))"

definition batch_size :: "V2Config \<Rightarrow> int" where
  "batch_size cfg = (if v2_SubscribeBatchSize cfg \<le> 0 then 150 else v2_SubscribeBatchSize cfg)"

text \<open>\<open>addresses\<close> lists the pools' addresses in the order of the range; \<open>writes i\<close> says whether the write of
  request \<open>i\<close> succeeds. The result is the first failed request, if any, and the requests written.\<close>

definition subscribeAll :: "(int \<Rightarrow> bool) \<Rightarrow> string list \<Rightarrow> V2Config \<Rightarrow> (v2_error, unit) result \<times> rpcRequest list" where
  "subscribeAll writes addresses cfg =
     (let reqs = subscribe_batches (nat (batch_size cfg) - 1) 1 addresses;
          sent = takeWhile (\<lambda>r. writes (fst r)) reqs
      in if length sent = length reqs then (Inr (), sent) else (Inl (SubscribeBatch (fst (reqs ! length sent))), sent))"

text \<open>What the inner select receives.\<close>

datatype v2_event = EvCancelled | EvReadError | EvErrsClosed | EvMsg time v2_frame | EvMessagesClosed

datatype session_end = Pending | Cancelled | Disconnected

fun session :: "eth_lib \<Rightarrow> 'p Pricer \<Rightarrow> v2_event list \<Rightarrow> 'p Connector \<Rightarrow> session_end \<times> 'p Connector" where
  "session E P [] c = (Pending, c)"
| "session E P (EvCancelled # es) c = (Cancelled, c)"
| "session E P (EvReadError # es) c = (Disconnected, c)"
| "session E P (EvErrsClosed # es) c = session E P es c"
| "session E P (EvMsg now raw # es) c = session E P es (snd (handleRaw E P now raw c))"
| "session E P (EvMessagesClosed # es) c = (Disconnected, c)"

text \<open>One pass of the outer loop: was the context cancelled before it, does dialling succeed, which writes
  succeed, the order of the range over the pools, the events of the session.\<close>

record v2_round =
  rd_cancelled :: bool
  rd_dial :: bool
  rd_writes :: "int \<Rightarrow> bool"
  rd_addresses :: "string list"
  rd_events :: "v2_event list"

definition dial :: "bool \<Rightarrow> V2Config \<Rightarrow> bool" where
  "dial ok cfg \<longleftrightarrow> trim_space (v2_WSURL cfg) \<noteq> [] \<and> ok"

datatype run_action = Sleep int | Sent rpcRequest

text \<open>The actions of the loop, whether \<open>Run\<close> has returned, and the connector.\<close>

fun rounds :: "eth_lib \<Rightarrow> 'p Pricer \<Rightarrow> v2_round list \<Rightarrow> int \<Rightarrow> 'p Connector \<Rightarrow> run_action list \<times> bool \<times> 'p Connector" where
  "rounds E P [] backoff c = ([], False, c)"
| "rounds E P (r # rs) backoff c =
     (if rd_cancelled r then ([], True, c)
      else if \<not> dial (rd_dial r) (cn_cfg c) then
        (let (acts, ret, c) = rounds E P rs (nextBackoff backoff (15 * second)) c in (Sleep backoff # acts, ret, c))
      else case subscribeAll (rd_writes r) (rd_addresses r) (cn_cfg c) of
        (Inl e, sent) \<Rightarrow>
          (let (acts, ret, c) = rounds E P rs (nextBackoff backoff (15 * second)) c
           in (map Sent sent @ Sleep backoff # acts, ret, c))
      | (Inr _, sent) \<Rightarrow>
          (case session E P (rd_events r) c of
             (Pending, c) \<Rightarrow> (map Sent sent, False, c)
           | (Cancelled, c) \<Rightarrow> (map Sent sent, True, c)
           | (Disconnected, c) \<Rightarrow>
               (let (acts, ret, c) = rounds E P rs (nextBackoff second (15 * second)) c
                in (map Sent sent @ Sleep second # acts, ret, c))))"

definition start_pools :: "'p Pricer \<Rightarrow> PoolConfig list \<Rightarrow> 'p Connector \<Rightarrow> 'p Connector" where
  "start_pools P pools c =
     fold (\<lambda>pool c. registerPoolTokens P pool
        (c\<lparr>cn_pools := mput (pc_Address pool) \<lparr>ps_meta = pool, ps_lastPrice = None, ps_gotFirst = False\<rparr> (cn_pools c)\<rparr>))
       pools (c\<lparr>cn_pools := []\<rparr>)"

definition Run ::
    "eth_lib \<Rightarrow> 'p Pricer \<Rightarrow> (string \<Rightarrow> eth_call option) \<Rightarrow> bool \<Rightarrow> v2_round list \<Rightarrow> 'p Connector
     \<Rightarrow> (v2_error, run_action list \<times> bool \<times> 'p Connector) result" where
  "Run E P rpc_dial has_dialer rs c =
     (if v2_Pools (cn_cfg c) = [] then Inl NoPools
      else if \<not> has_dialer then Inl NilDialer
      else let pools = v2_Pools (cn_cfg c);
               c = (case AdjustPoolsOrdering rpc_dial (v2_HTTPURL (cn_cfg c)) pools of
                      Inl e \<Rightarrow> c | Inr adjusted \<Rightarrow> c\<lparr>cn_cfg := (cn_cfg c)\<lparr>v2_Pools := adjusted\<rparr>\<rparr>)
           in Inr (rounds E P rs second (start_pools P (v2_Pools (cn_cfg c)) c)))"

definition NewConnector :: "V2Config \<Rightarrow> 'p option \<Rightarrow> 'p Connector" where
  "NewConnector cfg pricer = \<lparr>cn_cfg = cfg, cn_pricer = pricer, cn_pools = [], cn_out = []\<rparr>"

subsection \<open>Lemmas: prices\<close>

text \<open>The data of a Sync log: two numbers of 32 bytes.\<close>

definition sync_data :: "int \<Rightarrow> int \<Rightarrow> string" where
  "sync_data r0 r1 = ''0x'' @ hex_digits 64 r0 @ hex_digits 64 r1"

definition token_amount :: "int \<Rightarrow> int \<Rightarrow> rat" where
  "token_amount raw dec = of_int raw / of_int (tenPow dec)"

lemma tenPow_pos [simp]: "0 < tenPow d"
  by (simp add: tenPow_def)

lemma sync_decode:
  assumes "0 \<le> r0" "r0 < 2 ^ 256" "0 \<le> r1" "r1 < 2 ^ 256"
  shows "\<exists>a b. hex_decode (trim_prefix (sync_data r0 r1) ''0x'') = Some (a @ b) \<and> length a = 32 \<and> length b = 32 \<and>
    set_bytes a = r0 \<and> set_bytes b = r1"
proof -
  obtain a where a: "hex_decode (hex_digits 64 r0) = Some a" "length a = 32" "set_bytes a = r0"
    using hex_decode_digits [of r0 32] assms by auto
  obtain b where b: "hex_decode (hex_digits 64 r1) = Some b" "length b = 32" "set_bytes b = r1"
    using hex_decode_digits [of r1 32] assms by auto
  have "trim_prefix (sync_data r0 r1) ''0x'' = hex_digits 64 r0 @ hex_digits 64 r1"
    unfolding sync_data_def by (rule trim_prefix_append)
  with a b show ?thesis by (intro exI [of _ a] exI [of _ b]) (simp add: hex_decode_append)
qed

lemma computeSnapshot_sync:
  assumes "0 < r0" "r0 < 2 ^ 256" "0 < r1" "r1 < 2 ^ 256"
  shows "computeSnapshot p (sync_data r0 r1) = Inr (Some \<lparr>
     sn_Price = Some (if pc_BaseIsToken0 p
       then token_amount r1 (tm_Decimals (pc_Token1 p)) / token_amount r0 (tm_Decimals (pc_Token0 p))
       else token_amount r0 (tm_Decimals (pc_Token0 p)) / token_amount r1 (tm_Decimals (pc_Token1 p))),
     sn_Reserve0 = Some r0, sn_Reserve1 = Some r1\<rparr>)"
proof -
  obtain a b where d: "hex_decode (trim_prefix (sync_data r0 r1) ''0x'') = Some (a @ b)" "length a = 32" "length b = 32"
    "set_bytes a = r0" "set_bytes b = r1" using sync_decode [of r0 r1] assms by auto
  then have "length (trim_prefix (sync_data r0 r1) ''0x'') = 128" using hex_decode_length by fastforce
  with d assms show ?thesis by (simp add: computeSnapshot_def ratio_def token_amount_def Let_def)
qed

text \<open>C31. The price of a Sync log with reserves that are not zero is the amount of the quote token per base
  token, each reserve scaled by its own decimals; it is positive; and it does not depend on the order of the
  tokens: the swapped pool with the swapped reserves has the same price.\<close>

theorem computeSnapshot_price:
  assumes "0 < r0" "r0 < 2 ^ 256" "0 < r1" "r1 < 2 ^ 256"
    and "base = (if pc_BaseIsToken0 p then r0 else r1)" and "quote = (if pc_BaseIsToken0 p then r1 else r0)"
  shows "\<exists>s s' v. computeSnapshot p (sync_data r0 r1) = Inr (Some s) \<and>
    computeSnapshot (swapPoolTokens p) (sync_data r1 r0) = Inr (Some s') \<and>
    sn_Price s = Some v \<and> sn_Price s' = Some v \<and> 0 < v \<and>
    v = token_amount quote (tm_Decimals (pool_quote p)) / token_amount base (tm_Decimals (pool_base p))"
proof -
  have "0 < token_amount r d" if "0 < r" for r d using that by (simp add: token_amount_def)
  with assms show ?thesis
    by (simp add: computeSnapshot_sync pool_base_def pool_quote_def)
qed

theorem computeSnapshot_price_witness:
  "\<exists>s. computeSnapshot (make_pool 9 ''x'' (demo_meta 7 ''USDC'' 6) (demo_meta 5 ''ABC'' 18) False)
      (sync_data 3000000 2000000000000000000) = Inr (Some s) \<and> sn_Price s = Some (3 / 2)"
proof -
  let ?p = "make_pool 9 ''x'' (demo_meta 7 ''USDC'' 6) (demo_meta 5 ''ABC'' 18) False"
  have d: "tm_Decimals (pool_quote ?p) = 6" "tm_Decimals (pool_base ?p) = 18" "\<not> pc_BaseIsToken0 ?p"
    by (simp_all add: pool_base_def pool_quote_def demo_meta_def)
  have "token_amount 3000000 6 / token_amount 2000000000000000000 18 = 3 / 2" by code_simp
  with computeSnapshot_price [of 3000000 2000000000000000000 2000000000000000000 ?p 3000000] d
  show ?thesis by auto
qed

subsection \<open>Lemmas: the filter\<close>

lemma shouldDrop_cases:
  "shouldDrop st price = (True, st) \<and> (\<exists>l. ps_lastPrice st = Some l \<and> (price = l \<or> \<bar>price - l\<bar> < l / 10000))
   \<or> shouldDrop st price = (False, st\<lparr>ps_lastPrice := Some price\<rparr>) \<and>
     (\<forall>l. ps_lastPrice st = Some l \<longrightarrow> price \<noteq> l \<and> l / 10000 \<le> \<bar>price - l\<bar>)"
  by (auto simp: shouldDrop_def Let_def split: option.split)

text \<open>The prices a pool lets through, in order.\<close>

fun passed :: "poolState \<Rightarrow> rat list \<Rightarrow> rat list" where
  "passed st [] = []"
| "passed st (p # ps) = (case shouldDrop st p of (dropped, st') \<Rightarrow> if dropped then passed st' ps else p # passed st' ps)"

lemma passed_follows:
  assumes "ps_lastPrice st = Some l" and "0 < l" and "\<forall>p \<in> set prices. 0 < p"
  shows "\<bar>last (l # prices) - last (l # passed st prices)\<bar> < last (l # passed st prices) / 10000 \<and>
    successively (\<lambda>a b. a / 10000 \<le> \<bar>b - a\<bar>) (l # passed st prices)"
  using assms
proof (induction prices arbitrary: st l)
  case (Cons p prices)
  from shouldDrop_cases [of st p] show ?case
  proof (elim disjE conjE)
    assume d: "shouldDrop st p = (True, st)" "\<exists>l. ps_lastPrice st = Some l \<and> (p = l \<or> \<bar>p - l\<bar> < l / 10000)"
    show ?thesis
    proof (cases prices)
      case Nil
      with d Cons.prems show ?thesis by auto
    next
      case (Cons q qs)
      with d Cons.IH [OF Cons.prems(1,2)] Cons.prems(3) show ?thesis by simp
    qed
  next
    assume d: "shouldDrop st p = (False, st\<lparr>ps_lastPrice := Some p\<rparr>)"
      "\<forall>l. ps_lastPrice st = Some l \<longrightarrow> p \<noteq> l \<and> l / 10000 \<le> \<bar>p - l\<bar>"
    with Cons.IH [of "st\<lparr>ps_lastPrice := Some p\<rparr>" p] Cons.prems show ?thesis by simp
  qed
qed simp

text \<open>C32. The filter of small changes on a pool that has sent nothing yet: of any sequence of positive prices the
  first is let through, the newest price never differs from the last one let through by a ten-thousandth of
  that one or more, and each price let through differs from the one before by at least a ten-thousandth of it.\<close>

theorem shouldDrop_tracks:
  assumes "ps_lastPrice st = None" and "\<forall>p \<in> set (p0 # prices). 0 < p"
  shows "\<exists>later. passed st (p0 # prices) = p0 # later \<and> set later \<subseteq> set prices \<and>
    \<bar>last (p0 # prices) - last (p0 # later)\<bar> < last (p0 # later) / 10000 \<and>
    successively (\<lambda>a b. a / 10000 \<le> \<bar>b - a\<bar>) (p0 # later)"
proof -
  have "set (passed s ps) \<subseteq> set ps" for s ps
  proof (induction ps arbitrary: s)
    case (Cons p ps)
    obtain d s' where "shouldDrop s p = (d, s')" by (cases "shouldDrop s p")
    with Cons [of s'] show ?case by auto
  qed simp
  moreover have "passed st (p0 # prices) = p0 # passed (st\<lparr>ps_lastPrice := Some p0\<rparr>) prices"
    using assms(1) by (simp add: shouldDrop_def)
  ultimately show ?thesis using passed_follows [of "st\<lparr>ps_lastPrice := Some p0\<rparr>" p0 prices] assms(2) by auto
qed

text \<open>Small steps add up until one is let through.\<close>

theorem shouldDrop_tracks_witness:
  "\<exists>later. passed \<lparr>ps_meta = make_pool 9 ''x'' (demo_meta 7 ''USDC'' 6) (demo_meta 5 ''ABC'' 18) False, ps_lastPrice = None, ps_gotFirst = False\<rparr>
      [1, 100006 / 100000, 100012 / 100000, 100013 / 100000] = 1 # later \<and> later = [100012 / 100000] \<and>
      successively (\<lambda>a b. a / 10000 \<le> \<bar>b - a\<bar>) (1 # later)"
proof -
  let ?st = "\<lparr>ps_meta = make_pool 9 ''x'' (demo_meta 7 ''USDC'' 6) (demo_meta 5 ''ABC'' 18) False, ps_lastPrice = None, ps_gotFirst = False\<rparr>"
  let ?ps = "[100006 / 100000, 100012 / 100000, 100013 / 100000] :: rat list"
  have "\<forall>p \<in> set (1 # ?ps). 0 < p" by simp
  then obtain later where "passed ?st (1 # ?ps) = 1 # later" "successively (\<lambda>a b. a / 10000 \<le> \<bar>b - a\<bar>) (1 # later)"
    using shouldDrop_tracks [of ?st 1 ?ps] by auto
  moreover have "passed ?st (1 # ?ps) = [1, 100012 / 100000]" by (simp add: shouldDrop_def)
  ultimately show ?thesis by simp
qed

subsection \<open>Lemmas: what a step may do to the connector\<close>

text \<open>Every pool has a symbol under which its price is sent.\<close>

definition named_pools :: "'p Connector \<Rightarrow> bool" where
  "named_pools c \<longleftrightarrow> (\<forall>a st. map_of (cn_pools c) a = Some st \<longrightarrow> pair_symbol (ps_meta st) \<noteq> [])"

text \<open>The configuration and the pools' metadata stay, the pricer keeps its invariant, and what is sent is
  usable and bears the connector's name.\<close>

definition step_ok :: "('p \<Rightarrow> bool) \<Rightarrow> 'p Connector \<Rightarrow> 'p Connector \<Rightarrow> bool" where
  "step_ok I c c' \<longleftrightarrow> cn_cfg c' = cn_cfg c \<and>
     (pred_option I (cn_pricer c) \<and> named_pools c \<longrightarrow> pred_option I (cn_pricer c') \<and>
        (\<exists>sent. cn_out c' = cn_out c @ sent \<and> (\<forall>m \<in> set sent. md_ok m \<and> md_Exchange m = exchangeName c))) \<and>
     (\<forall>a. map_option ps_meta (map_of (cn_pools c') a) = map_option ps_meta (map_of (cn_pools c) a))"

lemma step_ok_refl [simp, intro]: "step_ok I c c"
  by (simp add: step_ok_def)

lemma named_pools_eq:
  "named_pools d \<longleftrightarrow> (\<forall>x. pred_option (\<lambda>p. pair_symbol p \<noteq> []) (map_option ps_meta (map_of (cn_pools d) x)))"
  by (auto simp: named_pools_def pred_option_def)

lemma named_pools_step: "step_ok I a b \<Longrightarrow> named_pools b = named_pools a"
  by (simp add: step_ok_def named_pools_eq)

lemma step_ok_trans: "step_ok I a b \<Longrightarrow> step_ok I b c \<Longrightarrow> step_ok I a c"
  using named_pools_step [of I a b] by (auto simp: step_ok_def exchangeName_def)

lemma exchangeName_ne [simp]: "exchangeName c \<noteq> []"
  by (auto simp: exchangeName_def)

lemma step_ok_emitFloat: "(named_pools c \<Longrightarrow> s \<noteq> []) \<Longrightarrow> step_ok I c (snd (emitFloat now s v c))"
  using pos_fin_guardI [of v] by (auto simp: step_ok_def emitFloat_def md_ok_def)

lemma step_ok_emitPrice: "(named_pools c \<Longrightarrow> s \<noteq> []) \<Longrightarrow> step_ok I c (snd (emitPrice now s v c))"
  by (simp add: emitPrice_def step_ok_emitFloat split: option.split)

lemma step_ok_pricer:
  "cn_pricer c = Some p \<Longrightarrow> (I p \<Longrightarrow> I p') \<Longrightarrow> step_ok I c (c\<lparr>cn_pricer := Some p'\<rparr>)"
  by (auto simp: step_ok_def)

lemma step_ok_pools:
  "map_option ps_meta (map_of (cn_pools c) a) = Some (ps_meta st) \<Longrightarrow> step_ok I c (c\<lparr>cn_pools := mput a st (cn_pools c)\<rparr>)"
  by (auto simp: step_ok_def)

lemma step_ok_emitUSD: "step_ok I c (emitUSD E P now i c)"
  by (auto simp: emitUSD_def Let_def step_ok_emitFloat split: option.split prod.split)

lemma usable_price_pos: "usable_price r = Some v \<Longrightarrow> pos_fin v"
  by (cases v) (auto simp: usable_price_def ratToFloat_def pos_fin_def zero_f64_def is_nan_def is_inf_def Let_def
    split: option.splits if_splits)

lemma updatePricing_cases:
  obtains (same) "updatePricing E P now meta snap c = c"
  | (quote) p a b v w where "cn_pricer c = Some p" "pos_fin v"
      "updatePricing E P now meta snap c = emitUSD E P now (token_info (pc_Token1 meta))
         (emitUSD E P now (token_info (pc_Token0 meta)) (c\<lparr>cn_pricer := Some (pr_UpdatePair P a b v w now p)\<rparr>))"
proof (cases "cn_pricer c = None \<or> sn_Price snap = None")
  case True
  then show thesis by (intro same) (auto simp: updatePricing_def split: option.split)
next
  case False
  then obtain p price where p: "cn_pricer c = Some p" "sn_Price snap = Some price" by auto
  define r where "r = (if pc_BaseIsToken0 meta then Some price else invert (Some price))"
  define r' where "r' = (if pc_BaseIsToken0 meta then invert (Some price) else Some price)"
  note unf = updatePricing_def Let_def r_def [symmetric] r'_def [symmetric] p
  show thesis
  proof (cases "usable_price r")
    case (Some v)
    then show thesis using p usable_price_pos by (intro quote [of p v]) (simp_all add: unf)
  next
    case none: None
    show thesis
    proof (cases "usable_price r'")
      case (Some v)
      then show thesis using p none usable_price_pos by (intro quote [of p v]) (simp_all add: unf)
    next
      case None
      then show thesis using none by (intro same) (simp add: unf)
    qed
  qed
qed

lemma handleRaw_cases:
  obtains (ignored) "snd (handleRaw E P now raw c) = c"
  | (published) a st st' st'' snap c' where "map_of (cn_pools c) a = Some st" "ps_meta st' = ps_meta st"
      "publish E P now st' snap c = (st'', c')"
      "snd (handleRaw E P now raw c) = c'\<lparr>cn_pools := mput a st'' (cn_pools c')\<rparr>"
proof (cases "tryAck (vf_ack raw)")
  case (Some ack)
  then show thesis by (intro ignored) (simp add: handleRaw_def split: option.split)
next
  case ack: None
  show thesis
  proof (cases "tryNote (vf_note raw)")
    case None
    with ack show thesis by (intro ignored) (simp add: handleRaw_def)
  next
    case nt': (Some nt)
    define a where "a = eth_HexToAddress E (le_Address (sn_Result nt))"
    note unf = handleRaw_def ack nt' Let_def a_def [symmetric]
    show thesis
    proof (cases "map_of (cn_pools c) a")
      case None
      then show thesis by (intro ignored) (simp add: unf)
    next
      case st: (Some st)
      show thesis
      proof (cases "\<exists>snap v. computeSnapshot (ps_meta st) (le_Data (sn_Result nt)) = Inr (Some snap) \<and> sn_Price snap = Some v")
        case False
        then show thesis by (intro ignored) (auto simp: unf st split: option.split sum.split)
      next
        case True
        then obtain snap v where s: "computeSnapshot (ps_meta st) (le_Data (sn_Result nt)) = Inr (Some snap)" "sn_Price snap = Some v"
          by blast
        obtain d st' where d: "shouldDrop st v = (d, st')" by (cases "shouldDrop st v")
        obtain st'' c' where p: "publish E P now st' snap c = (st'', c')" by (cases "publish E P now st' snap c")
        from d have "ps_meta st' = ps_meta st" using shouldDrop_cases [of st v] by auto
        then show thesis
          using p st by (cases d) (auto intro: ignored published simp: unf s d)
      qed
    qed
  qed
qed

context usd_pricer
begin

lemma step_ok_updatePricing: "step_ok inv c (updatePricing E P now meta snap c)"
proof (rule updatePricing_cases [of E P now meta snap c])
  fix p a b v w
  assume p: "cn_pricer c = Some p" and u: "updatePricing E P now meta snap c =
    emitUSD E P now (token_info (pc_Token1 meta))
      (emitUSD E P now (token_info (pc_Token0 meta)) (c\<lparr>cn_pricer := Some (pr_UpdatePair P a b v w now p)\<rparr>))"
  have "step_ok inv c (c\<lparr>cn_pricer := Some (pr_UpdatePair P a b v w now p)\<rparr>)"
    using p inv_UpdatePair by (rule step_ok_pricer)
  then show ?thesis unfolding u by (blast intro: step_ok_trans step_ok_emitUSD)
qed simp

lemma step_ok_publish:
  assumes "named_pools c \<Longrightarrow> pair_symbol (ps_meta st) \<noteq> []"
  shows "step_ok inv c (snd (publish E P now st snap c)) \<and> ps_meta (fst (publish E P now st snap c)) = ps_meta st"
proof (cases "sn_Price snap")
  case (Some v)
  obtain b c1 where e: "emitPrice now (pair_symbol (ps_meta st)) (Some v) c = (b, c1)"
    by (cases "emitPrice now (pair_symbol (ps_meta st)) (Some v) c")
  have "step_ok inv c c1" using step_ok_emitPrice [of c "pair_symbol (ps_meta st)" inv now "Some v"] assms e by simp
  with Some e show ?thesis
    by (auto simp: publish_def Let_def intro: step_ok_trans step_ok_updatePricing)
qed (simp add: publish_def)

lemma step_ok_handleRaw: "step_ok inv c (snd (handleRaw E P now raw c))"
proof (rule handleRaw_cases [of E P now raw c])
  fix a st st' st'' snap c'
  assume a: "map_of (cn_pools c) a = Some st" "ps_meta st' = ps_meta st" and p: "publish E P now st' snap c = (st'', c')"
    and r: "snd (handleRaw E P now raw c) = c'\<lparr>cn_pools := mput a st'' (cn_pools c')\<rparr>"
  have "named_pools c \<Longrightarrow> pair_symbol (ps_meta st') \<noteq> []" using a by (simp add: named_pools_def)
  from step_ok_publish [of c st' E now snap, OF this] p have c': "step_ok inv c c'" "ps_meta st'' = ps_meta st'" by simp_all
  from c'(1) have "map_option ps_meta (map_of (cn_pools c') a) = Some (ps_meta st'')"
    using a c'(2) by (simp add: step_ok_def)
  then have "step_ok inv c' (c'\<lparr>cn_pools := mput a st'' (cn_pools c')\<rparr>)" by (rule step_ok_pools)
  with c'(1) show ?thesis unfolding r by (rule step_ok_trans)
qed simp

lemma step_ok_session: "step_ok inv c (snd (session E P es c))"
proof (induction es arbitrary: c)
  case (Cons e es)
  show ?case
  proof (cases e)
    case (EvMsg now raw)
    then show ?thesis
      using step_ok_trans [OF step_ok_handleRaw [of c E now raw] Cons.IH] by simp
  qed (simp_all add: Cons.IH)
qed simp

lemma step_ok_rounds: "step_ok inv c (snd (snd (rounds E P rs b c)))"
proof (induction rs arbitrary: b c)
  case (Cons r rs)
  obtain e c' where s: "session E P (rd_events r) c = (e, c')" by (cases "session E P (rd_events r) c")
  have "step_ok inv c c'" using step_ok_session [of c E "rd_events r"] s by simp
  then have "step_ok inv c (snd (snd (rounds E P rs b' c')))" for b' using Cons.IH step_ok_trans by blast
  with \<open>step_ok inv c c'\<close> Cons.IH show ?case
    by (auto simp: s split: prod.split sum.split session_end.split) (metis snd_conv)+
qed simp

lemma inv_registerToken: "inv p \<Longrightarrow> inv (registerToken P m p)"
  by (simp add: registerToken_def Let_def inv_ops)

lemma start_pools_inv:
  assumes "pred_option inv (cn_pricer c)"
  shows "pred_option inv (cn_pricer (start_pools P ps c)) \<and> cn_out (start_pools P ps c) = cn_out c \<and>
    cn_cfg (start_pools P ps c) = cn_cfg c"
  unfolding start_pools_def
proof (rule fold_invariant [where Q = "\<lambda>_. True" and
      P = "\<lambda>d. pred_option inv (cn_pricer d) \<and> cn_out d = cn_out c \<and> cn_cfg d = cn_cfg c"])
  fix p and d :: "'p Connector" assume "pred_option inv (cn_pricer d) \<and> cn_out d = cn_out c \<and> cn_cfg d = cn_cfg c"
  then show "pred_option inv (cn_pricer (registerPoolTokens P p
        (d\<lparr>cn_pools := mput (pc_Address p) \<lparr>ps_meta = p, ps_lastPrice = None, ps_gotFirst = False\<rparr> (cn_pools d)\<rparr>))) \<and>
      cn_out (registerPoolTokens P p (d\<lparr>cn_pools := mput (pc_Address p) \<lparr>ps_meta = p, ps_lastPrice = None, ps_gotFirst = False\<rparr> (cn_pools d)\<rparr>)) = cn_out c \<and>
      cn_cfg (registerPoolTokens P p (d\<lparr>cn_pools := mput (pc_Address p) \<lparr>ps_meta = p, ps_lastPrice = None, ps_gotFirst = False\<rparr> (cn_pools d)\<rparr>)) = cn_cfg c"
    by (auto simp: registerPoolTokens_def inv_registerToken split: option.splits)
qed (use assms in simp_all)

end

subsection \<open>Properties of the connector\<close>

definition v2_delay :: "int \<Rightarrow> bool" where
  "v2_delay d \<longleftrightarrow> d \<in> {second, 2 * second, 4 * second, 8 * second, 15 * second}"

interpretation v2: backoff_policy "\<lambda>d. nextBackoff d (15 * second)" v2_delay second "15 * second"
  by unfold_locales (auto simp: nextBackoff_def v2_delay_def second_def)

lemma rounds_delays:
  "v2_delay b \<Longrightarrow> Sleep d \<in> set (fst (rounds E P rs b c)) \<Longrightarrow> v2_delay d"
proof (induction rs arbitrary: b c)
  case (Cons r rs)
  have "v2_delay (nextBackoff b (15 * second))" "v2_delay (nextBackoff second (15 * second))" "v2_delay second"
    using v2.closed [OF Cons.prems(1)] v2.closed [OF v2.first_valid] v2.first_valid by simp_all
  with Cons show ?case
    by (auto split: if_splits prod.splits sum.splits session_end.splits) (metis fst_conv)+
qed simp

text \<open>The pools of a run have symbols when the configured pools have canonical pairs; the correction of the order
  keeps the canonical pairs.\<close>

lemma pair_symbol_named: "trim_space (pc_CanonicalPair p) \<noteq> [] \<Longrightarrow> pair_symbol p \<noteq> []"
  by (simp add: pair_symbol_def Let_def)

lemma AdjustPools_named:
  assumes "\<forall>p \<in> set ps. trim_space (pc_CanonicalPair p) \<noteq> []" and "AdjustPoolsOrdering rpc url ps = Inr ps'"
  shows "\<forall>p \<in> set ps'. trim_space (pc_CanonicalPair p) \<noteq> []"
proof -
  have "\<forall>p \<in> set ps. pc_CanonicalPair p \<noteq> []" using assms(1) by (metis trim_space_Nil)
  then have "list_all2 (pool_corrected call) ps (adjust_pools call ps Map.empty)" for call
    by (intro adjust_pools_ok) (simp_all add: cache_ok_def)
  then have "list_all2 (\<lambda>p p'. pc_CanonicalPair p' = pc_CanonicalPair p) ps (adjust_pools call ps Map.empty)" for call
    by (rule list_all2_mono) (simp add: pool_corrected_def)
  then have "\<forall>p \<in> set (adjust_pools call ps Map.empty). trim_space (pc_CanonicalPair p) \<noteq> []" for call
    using assms(1) unfolding list_all2_conv_all_nth all_set_conv_all_nth by metis
  with assms show ?thesis by (auto simp: AdjustPoolsOrdering_def Let_def split: if_splits option.splits)
qed

lemma start_pools_named:
  assumes "\<forall>p \<in> set ps. trim_space (pc_CanonicalPair p) \<noteq> []" shows "named_pools (start_pools P ps c)"
  unfolding start_pools_def
proof (rule fold_invariant [where Q = "\<lambda>p. trim_space (pc_CanonicalPair p) \<noteq> []" and P = named_pools])
  fix p :: PoolConfig and d :: "'a Connector" assume "named_pools d" "trim_space (pc_CanonicalPair p) \<noteq> []"
  then show "named_pools (registerPoolTokens P p
      (d\<lparr>cn_pools := mput (pc_Address p) \<lparr>ps_meta = p, ps_lastPrice = None, ps_gotFirst = False\<rparr> (cn_pools d)\<rparr>))"
    by (auto simp: named_pools_def registerPoolTokens_def map_of_mput pair_symbol_named split: if_splits option.splits)
qed (use assms in \<open>simp_all add: named_pools_def\<close>)

text \<open>C6. A whole run of the connector with the graph pricer, over configured pools that have a canonical pair, as
  those of the loader do: whatever the node answers and the sockets deliver, every message sent has the
  connector's exchange name, a nonempty symbol and a positive finite price, the pricer keeps its invariant, and
  every pause between two connections is one of 1, 2, 4, 8 and 15 seconds.\<close>

theorem V2_Run_safe:
  assumes "eth_ok E" and "range_order ord" and "c = NewConnector cfg (Some (NewGraphPricerFromAssets E provider nets fallback))"
    and "\<forall>p \<in> set (v2_Pools cfg). trim_space (pc_CanonicalPair p) \<noteq> []"
    and "Run E (graph_pricer E ord now) rpc has_dialer rs c = Inr (acts, returned, c')"
  shows "list_all (\<lambda>m. md_Symbol m \<noteq> [] \<and> pos_fin (md_Price m) \<and> md_Exchange m = exchangeName c \<and> md_Exchange m \<noteq> []) (cn_out c') \<and>
    pred_option (graph_inv E ord) (cn_pricer c') \<and>
    (\<forall>d. Sleep d \<in> set acts \<longrightarrow> d \<in> {second, 2 * second, 4 * second, 8 * second, 15 * second})"
proof -
  define c1 where "c1 = (case AdjustPoolsOrdering rpc (v2_HTTPURL (cn_cfg c)) (v2_Pools (cn_cfg c)) of
      Inl e \<Rightarrow> c | Inr adjusted \<Rightarrow> c\<lparr>cn_cfg := (cn_cfg c)\<lparr>v2_Pools := adjusted\<rparr>\<rparr>)"
  define c2 where "c2 = start_pools (graph_pricer E ord now) (v2_Pools (cn_cfg c1)) c1"
  have run: "rounds E (graph_pricer E ord now) rs second c2 = (acts, returned, c')"
    using assms(5) by (simp add: Run_def c1_def [symmetric] c2_def [symmetric] Let_def split: if_splits)
  have "graph_inv E ord (registerAnchors E ts newGraphPricer)" for ts
    using graph_inv_new [OF assms(1,2)] by (simp add: NewGraphPricer_def)
  then have "pred_option (graph_inv E ord) (cn_pricer c1)" and c1: "cn_out c1 = []" "exchangeName c1 = exchangeName c"
    by (auto simp: c1_def assms(3) NewConnector_def NewGraphPricerFromAssets_def Let_def exchangeName_def split: sum.split)
  then have c2: "pred_option (graph_inv E ord) (cn_pricer c2)" "cn_out c2 = []" "exchangeName c2 = exchangeName c"
    using graph.start_pools_inv [of E ord c1 now "v2_Pools (cn_cfg c1)"] by (auto simp: c2_def exchangeName_def)
  have "\<forall>p \<in> set (v2_Pools (cn_cfg c1)). trim_space (pc_CanonicalPair p) \<noteq> []"
    using assms(4) AdjustPools_named [OF assms(4)] by (auto simp: c1_def assms(3) NewConnector_def split: sum.split)
  then have "named_pools c2" unfolding c2_def by (rule start_pools_named)
  moreover have "step_ok (graph_inv E ord) c2 c'" using graph.step_ok_rounds [of E ord c2 E now rs second] by (simp add: run)
  ultimately show ?thesis
    using c2 rounds_delays [OF v2.first_valid, of _ E "graph_pricer E ord now" rs c2]
    by (auto simp: step_ok_def run v2_delay_def list_all_iff md_ok_def)
qed

lemma subscribe_batches_ok:
  "concat (map snd (subscribe_batches n i as)) = as \<and>
   map fst (subscribe_batches n i as) = [i..i + int (length (subscribe_batches n i as)) - 1] \<and>
   (\<forall>r \<in> set (subscribe_batches n i as). snd r \<noteq> [] \<and> length (snd r) \<le> Suc n)"
proof (induction n i as rule: subscribe_batches.induct)
  case (2 n i a as)
  then show ?case by (simp add: upto_rec1)
qed simp

text \<open>A subscription that succeeds covers the pools: its requests are numbered from 1, no request is empty or
  larger than the batch size, and together they name every address exactly in the order of the range.\<close>

theorem subscribeAll_covers:
  assumes "subscribeAll writes addresses cfg = (Inr (), sent)"
  shows "concat (map snd sent) = addresses \<and> map fst sent = [1..int (length sent)] \<and>
    list_all (\<lambda>r. snd r \<noteq> [] \<and> int (length (snd r)) \<le> batch_size cfg \<and> writes (fst r)) sent"
proof -
  define reqs where "reqs = subscribe_batches (nat (batch_size cfg) - 1) 1 addresses"
  have s: "sent = takeWhile (\<lambda>r. writes (fst r)) reqs" "length sent = length reqs"
    using assms unfolding subscribeAll_def reqs_def [symmetric] Let_def by (auto split: if_splits)
  then have "sent = reqs" by (metis length_takeWhile_le order_refl take_all takeWhile_eq_take)
  moreover have "\<forall>r \<in> set sent. writes (fst r)" unfolding s(1) by (auto dest: set_takeWhileD)
  moreover have "0 < batch_size cfg" by (simp add: batch_size_def)
  then have "int n \<le> batch_size cfg" if "n \<le> Suc (nat (batch_size cfg) - 1)" for n using that by linarith
  ultimately show ?thesis
    using subscribe_batches_ok [of "nat (batch_size cfg) - 1" 1 addresses]
    unfolding reqs_def [symmetric] list_all_iff by auto
qed

lemma out_emitUSD: "\<exists>sent. cn_out (emitUSD E P now i c) = cn_out c @ sent"
  by (auto simp: emitUSD_def emitFloat_def Let_def split: option.split prod.split)

lemma out_updatePricing: "\<exists>sent. cn_out (updatePricing E P now meta snap c) = cn_out c @ sent"
proof (cases rule: updatePricing_cases [of E P now meta snap c])
  case (quote p a b v w)
  let ?c = "c\<lparr>cn_pricer := Some (pr_UpdatePair P a b v w now p)\<rparr>"
  show ?thesis
    using quote(3) out_emitUSD [of E P now "token_info (pc_Token0 meta)" ?c]
      out_emitUSD [of E P now "token_info (pc_Token1 meta)" "emitUSD E P now (token_info (pc_Token0 meta)) ?c"]
    by auto
qed simp

lemma pools_emitUSD [simp]: "cn_pools (emitUSD E P now i c) = cn_pools c"
  by (auto simp: emitUSD_def emitFloat_def Let_def split: option.split prod.split)

lemma pools_updatePricing [simp]: "cn_pools (updatePricing E P now meta snap c) = cn_pools c"
  by (cases rule: updatePricing_cases [of E P now meta snap c]) simp_all

definition sync_frame :: "string \<Rightarrow> string \<Rightarrow> v2_frame" where
  "sync_frame addr data = \<lparr>vf_ack = None, vf_note = Some \<lparr>sn_Method = ''eth_subscription'',
     sn_Result = \<lparr>le_Address = addr, le_Data = data, le_Topics = [syncTopic], le_Removed = False\<rparr>\<rparr>\<rparr>"

lemma try_sync: "tryAck (vf_ack (sync_frame addr data)) = None" "tryNote (vf_note (sync_frame addr data)) = vf_note (sync_frame addr data)"
  by (simp_all add: sync_frame_def tryAck_def tryNote_def equal_fold_def)

text \<open>C10. The first Sync log of a known pool, with a price in the range of normal numbers: the first message sent
  is the pool's pair with a price within a factor of \<open>2\<^sup>-\<^sup>5\<^sup>2\<close> of the exact ratio of the scaled reserves, the
  exact ratio is remembered, and the same log once more sends nothing.\<close>

theorem handleRaw_first_sync:
  assumes "map_of (cn_pools c) (eth_HexToAddress E addr) = Some st" and "ps_lastPrice st = None"
    and "0 < r0" "r0 < 2 ^ 256" "0 < r1" "r1 < 2 ^ 256" and "p = ps_meta st"
    and "v = (if pc_BaseIsToken0 p
       then token_amount r1 (tm_Decimals (pc_Token1 p)) / token_amount r0 (tm_Decimals (pc_Token0 p))
       else token_amount r0 (tm_Decimals (pc_Token0 p)) / token_amount r1 (tm_Decimals (pc_Token1 p)))"
    and "pow2 (- 1021) \<le> v" and "v < pow2 1022"
  shows "\<exists>c' y sent. handleRaw E P now (sync_frame addr (sync_data r0 r1)) c = (Inr (), c') \<and>
    cn_out c' = cn_out c @ \<lparr>md_Exchange = exchangeName c, md_Symbol = pair_symbol p, md_Price = Fin y,
       md_Timestamp = unix_milli now\<rparr> # sent \<and> \<bar>y - v\<bar> \<le> pow2 (- 52) * v \<and>
    map_option ps_lastPrice (map_of (cn_pools c') (eth_HexToAddress E addr)) = Some (Some v) \<and>
    (\<forall>later. handleRaw E P later (sync_frame addr (sync_data r0 r1)) c' = (Inr (), c'))"
proof -
  define a where "a = eth_HexToAddress E addr"
  define snap where "snap = \<lparr>sn_Price = Some v, sn_Reserve0 = Some r0, sn_Reserve1 = Some r1\<rparr>"
  have s: "computeSnapshot p (sync_data r0 r1) = Inr (Some snap)"
    using computeSnapshot_sync [OF assms(3-6), of p] by (simp add: snap_def assms(8))
  obtain y where y: "rat_float64 v = Fin y" "0 < y" "\<bar>y - v\<bar> \<le> pow2 (- 52) * v"
    using rat_float64_finite [OF assms(9,10)] by blast
  define md where "md = \<lparr>md_Exchange = exchangeName c, md_Symbol = pair_symbol p, md_Price = Fin y, md_Timestamp = unix_milli now\<rparr>"
  have emit: "emitPrice now (pair_symbol p) (Some v) c = (True, c\<lparr>cn_out := cn_out c @ [md]\<rparr>)"
    using y(1,2) by (simp add: emitPrice_def ratToFloat_def emitFloat_def md_def zero_f64_def is_nan_def is_inf_def)
  define c1 where "c1 = updatePricing E P now p snap (c\<lparr>cn_out := cn_out c @ [md]\<rparr>)"
  obtain sent where sent: "cn_out c1 = cn_out c @ md # sent"
    using out_updatePricing [of E P now p snap "c\<lparr>cn_out := cn_out c @ [md]\<rparr>"] by (auto simp: c1_def)
  define st2 where "st2 = (if ps_gotFirst st then st\<lparr>ps_lastPrice := Some v\<rparr> else st\<lparr>ps_lastPrice := Some v, ps_gotFirst := True\<rparr>)"
  have st2: "ps_lastPrice st2 = Some v" "ps_meta st2 = p" using assms(7) by (simp_all add: st2_def)
  define c2 where "c2 = c1\<lparr>cn_pools := mput a st2 (cn_pools c1)\<rparr>"
  obtain nt where nt: "vf_note (sync_frame addr (sync_data r0 r1)) = Some nt" "eth_HexToAddress E (le_Address (sn_Result nt)) = a"
      "le_Data (sn_Result nt) = sync_data r0 r1" by (simp add: sync_frame_def a_def)
  have tn: "tryNote (Some nt) = Some nt" using try_sync(2) [of addr "sync_data r0 r1"] by (simp add: nt)
  have price: "sn_Price snap = Some v" by (simp add: snap_def)
  have "publish E P now (st\<lparr>ps_lastPrice := Some v\<rparr>) snap c = (st2, c1)"
    using emit price by (simp add: publish_def assms(7) [symmetric] c1_def st2_def Let_def)
  then have h: "handleRaw E P now (sync_frame addr (sync_data r0 r1)) c = (Inr (), c2)"
    using assms(1,2) by (simp add: handleRaw_def try_sync nt tn s price a_def [symmetric] assms(7) [symmetric] shouldDrop_def c2_def)
  have "handleRaw E P later (sync_frame addr (sync_data r0 r1)) c2 = (Inr (), c2)" for later
    using st2 by (simp add: handleRaw_def try_sync nt tn s price shouldDrop_def c2_def)
  with h sent y(3) st2 show ?thesis
    by (intro exI [of _ c2] exI [of _ y] exI [of _ sent]) (simp add: c2_def md_def a_def)
qed

definition demo_v2 :: "GraphPricer Connector" where
  "demo_v2 = NewConnector \<lparr>v2_WSURL = ''ws://node'', v2_HTTPURL = [], v2_Exchange = [],
     v2_Pools = [make_pool 9 ''x'' (demo_meta 7 ''USDC'' 6) (demo_meta 5 ''ABC'' 18) False],
     v2_SubscribeBatchSize = 0, v2_PingInterval = 0\<rparr> (Some (NewGraphPricerFromAssets plain_eth None [] []))"

definition demo_round :: v2_round where
  "demo_round = \<lparr>rd_cancelled = False, rd_dial = False, rd_writes = (\<lambda>_. True), rd_addresses = [], rd_events = []\<rparr>"

theorem V2_Run_safe_witness:
  "\<exists>acts ret c'. Run plain_eth (graph_pricer plain_eth in_order 9) (\<lambda>_. None) True [demo_round, demo_round] demo_v2 = Inr (acts, ret, c') \<and>
     Sleep (2 * second) \<in> set acts \<and> pred_option (graph_inv plain_eth in_order) (cn_pricer c')"
proof -
  define r where "r = rounds plain_eth (graph_pricer plain_eth in_order 9) [demo_round, demo_round] second
    (start_pools (graph_pricer plain_eth in_order 9) (v2_Pools (cn_cfg demo_v2)) demo_v2)"
  have "Run plain_eth (graph_pricer plain_eth in_order 9) (\<lambda>_. None) True [demo_round, demo_round] demo_v2 = Inr (fst r, fst (snd r), snd (snd r))"
    by (simp add: Run_def demo_v2_def NewConnector_def AdjustPoolsOrdering_def r_def Let_def del: rounds.simps)
  note this V2_Run_safe [OF plain_eth_ok range_order_in_order demo_v2_def _ this]
  moreover have "trim_space ''ABCUSDC'' \<noteq> []" by code_simp
  moreover have "Sleep (2 * second) \<in> set (fst r)"
    by (simp add: r_def demo_round_def dial_def nextBackoff_def second_def split_def Let_def)
  ultimately show ?thesis
    by (intro exI [of _ "fst r"] exI [of _ "fst (snd r)"] exI [of _ "snd (snd r)"]) (simp add: make_pool_def NormalizePair_def demo_meta_def)
qed

theorem subscribeAll_covers_witness:
  "\<exists>sent. subscribeAll (\<lambda>_. True) [''0x1'', ''0x2'', ''0x3''] ((cn_cfg demo_v2)\<lparr>v2_SubscribeBatchSize := 2\<rparr>) = (Inr (), sent) \<and>
     map fst sent = [1..int (length sent)] \<and> concat (map snd sent) = [''0x1'', ''0x2'', ''0x3'']"
proof -
  have "subscribeAll (\<lambda>_. True) [''0x1'', ''0x2'', ''0x3''] ((cn_cfg demo_v2)\<lparr>v2_SubscribeBatchSize := 2\<rparr>) =
      (Inr (), [(1, [''0x1'', ''0x2'']), (2, [''0x3''])])"
    by (simp add: subscribeAll_def batch_size_def numeral_2_eq_2)
  from this subscribeAll_covers [OF this] show ?thesis by blast
qed

theorem handleRaw_first_sync_witness:
  "\<exists>c' y sent. handleRaw plain_eth (graph_pricer plain_eth in_order 9) 7 (sync_frame ''0x9'' (sync_data 3000000 2000000000000000000))
      (demo_v2\<lparr>cn_pools := [(9, \<lparr>ps_meta = make_pool 9 ''x'' (demo_meta 7 ''USDC'' 6) (demo_meta 5 ''ABC'' 18) False,
         ps_lastPrice = None, ps_gotFirst = False\<rparr>)]\<rparr>) = (Inr (), c') \<and>
     md_Price (hd (cn_out c')) = Fin y \<and> \<bar>y - 3 / 2\<bar> \<le> pow2 (- 52) * (3 / 2)"
proof -
  let ?st = "\<lparr>ps_meta = make_pool 9 ''x'' (demo_meta 7 ''USDC'' 6) (demo_meta 5 ''ABC'' 18) False, ps_lastPrice = None, ps_gotFirst = False\<rparr>"
  let ?c = "demo_v2\<lparr>cn_pools := [(9, ?st)]\<rparr>"
  have a: "map_of (cn_pools ?c) (eth_HexToAddress plain_eth ''0x9'') = Some ?st"
  proof -
    have "hex_read 0 (trim_prefix ''0x9'' ''0x'') = 9" by code_simp
    then show ?thesis by (simp add: plain_eth_def)
  qed
  have v: "token_amount 3000000 6 / token_amount 2000000000000000000 18 = 3 / 2" by code_simp
  have b: "pow2 (- 1021) \<le> 3 / 2" "3 / 2 < pow2 1022" by (simp_all add: pow2_def)
  from handleRaw_first_sync [OF a _ _ _ _ _ refl refl, of 3000000 2000000000000000000 "graph_pricer plain_eth in_order 9" 7] v b
  obtain c' y sent where h: "handleRaw plain_eth (graph_pricer plain_eth in_order 9) 7
      (sync_frame ''0x9'' (sync_data 3000000 2000000000000000000)) ?c = (Inr (), c')"
    "cn_out c' = cn_out ?c @ \<lparr>md_Exchange = exchangeName ?c, md_Symbol = pair_symbol (ps_meta ?st), md_Price = Fin y,
       md_Timestamp = unix_milli 7\<rparr> # sent" "\<bar>y - 3 / 2\<bar> \<le> pow2 (- 52) * (3 / 2)"
    by (auto simp: demo_meta_def)
  have "cn_out ?c = []" by (simp add: demo_v2_def NewConnector_def)
  with h show ?thesis by (intro exI conjI) auto
qed

end
