(* ===== verification/Uniswap_V3.thy ===== *)
theory Uniswap_V3
  imports V3_Pools Uniswap_V2
begin

text \<open>
  The Uniswap V3 connector (\<open>connect_uniswap_v3_all.go\<close>), second part: Swap logs, prices, messages, the
  derivation of dollar prices that is logged, and the connection loop. A frame is handled to the end before
  the next one, so the semaphore of the metadata fetches has at most one holder.
\<close>

subsection \<open>Decoding and prices\<close>

definition v3DecodeInt256 :: "nat list \<Rightarrow> int" where
  "v3DecodeInt256 b =
     (case b of [] \<Rightarrow> 0
      | b0 # _ \<Rightarrow> (let v = set_bytes b in if b0 \<ge> 128 then v - 2 ^ (8 * length b) else v))"

definition v3Invert :: "rat option \<Rightarrow> rat option" where
  "v3Invert r = (case r of None \<Rightarrow> None | Some x \<Rightarrow> if x = 0 then None else Some (1 / x))"

definition v3PriceFromSqrt :: "int \<Rightarrow> rat option" where
  "v3PriceFromSqrt s = (if s = 0 then None else Some (of_int (s * s) / 2 ^ 192))"

definition v3Pow10 :: "8 word \<Rightarrow> int" where
  "v3Pow10 dec = 10 ^ unat dec"

definition v3DecimalAdjust :: "8 word \<Rightarrow> 8 word \<Rightarrow> rat" where
  "v3DecimalAdjust dec0 dec1 = of_int (v3Pow10 dec0) / of_int (v3Pow10 dec1)"

definition v3RatToFloat :: "rat option \<Rightarrow> f64 option" where
  "v3RatToFloat r =
     (case r of None \<Rightarrow> None
      | Some x \<Rightarrow> (let val = rat_float64 x in if val \<le> 0 \<or> is_nan val \<or> is_inf val then None else Some val))"

definition v3AmountToFloat :: "int option \<Rightarrow> 8 word \<Rightarrow> f64" where
  "v3AmountToFloat amount dec =
     (case amount of None \<Rightarrow> 0
      | Some n \<Rightarrow>
          (let a = \<bar>n\<bar> in
           if a = 0 then 0
           else let f = round_prec 256 (of_int a);
                    f = (if dec > 0 then round_prec 256 (f / round_prec 256 (of_int (v3Pow10 dec))) else f);
                    val = f64_of_rat f
                in if is_nan val \<or> is_inf val then 0 else val))"

definition v3CalcWeight :: "int option \<Rightarrow> int option \<Rightarrow> 8 word \<Rightarrow> 8 word \<Rightarrow> f64" where
  "v3CalcWeight amount0 amount1 dec0 dec1 =
     (let weight = f64_max (v3AmountToFloat amount0 dec0) (v3AmountToFloat amount1 dec1)
      in if weight \<le> 0 then f64_of_rat (1 / 10 ^ 9) else weight)"

subsection \<open>Messages\<close>

definition v3_send :: "time \<Rightarrow> string \<Rightarrow> f64 \<Rightarrow> 'p v3Globals \<Rightarrow> 'p v3Globals" where
  "v3_send ts symbol price g = g\<lparr>g3_out := g3_out g @
     [\<lparr>md_Exchange = g3_ExchangeName g, md_Symbol = symbol, md_Price = price, md_Timestamp = unix_milli ts\<rparr>]\<rparr>"

definition v3Publish :: "time \<Rightarrow> string \<Rightarrow> rat option \<Rightarrow> 'p v3Globals \<Rightarrow> 'p v3Globals" where
  "v3Publish now symbol value g =
     (case value of None \<Rightarrow> g
      | Some v \<Rightarrow>
          (let f = rat_float64 v in
           if f \<le> 0 \<or> is_inf f \<or> is_nan f then g
           else if \<not> g3_Open g then g
           else v3_send now (to_upper (trim_space symbol)) f (g\<lparr>g3_MessageCount := g3_MessageCount g + 1\<rparr>)))"

definition v3EmitPair :: "time \<Rightarrow> string \<Rightarrow> string \<Rightarrow> rat option \<Rightarrow> 'p v3Globals \<Rightarrow> 'p v3Globals" where
  "v3EmitPair now base0 quote0 value g =
     (if value = None then g
      else let base = to_upper (trim_space base0); quote = to_upper (trim_space quote0)
           in if base = [] \<or> quote = [] then g else v3Publish now (base @ quote) value g)"

definition v3EmitUSDWithPricer :: "eth_lib \<Rightarrow> 'p Pricer \<Rightarrow> PToken \<Rightarrow> time \<Rightarrow> 'p v3Globals \<Rightarrow> 'p v3Globals" where
  "v3EmitUSDWithPricer E P info ts g =
     (case g3_Pricer g of None \<Rightarrow> g
      | Some p \<Rightarrow>
          (let (res, ok) = pr_ResolveUSD P info p in
           if \<not> ok \<or> r_Price res \<le> 0 \<or> is_nan (r_Price res) \<or> is_inf (r_Price res) then g
           else let symbol = to_upper (trim_space (pt_Symbol info));
                    symbol = (if symbol = [] then upper_hex E (pt_Address info) else symbol)
                in if \<not> g3_Open g then g else v3_send ts (symbol @ ''USD'') (r_Price res) g))"

definition v3_info :: "v3TokenMeta \<Rightarrow> PToken" where
  "v3_info m = \<lparr>pt_Address = t3_Address m, pt_Symbol = t3_Symbol m, pt_Decimals = uint (t3_Dec m)\<rparr>"

definition v3UpdatePricing ::
    "eth_lib \<Rightarrow> 'p Pricer \<Rightarrow> time \<Rightarrow> v3PoolMeta \<Rightarrow> rat option \<Rightarrow> rat option \<Rightarrow> int option \<Rightarrow> int option \<Rightarrow> 'p v3Globals \<Rightarrow> 'p v3Globals" where
  "v3UpdatePricing E P now pm price1Per0 price0Per1 amount0 amount1 g =
     (if \<not> p3_Loaded pm \<and> \<not> p3_HasJSONMeta pm then g
      else case g3_Pricer g of None \<Rightarrow> g
      | Some p \<Rightarrow>
          (let info0 = v3_info (p3_Token0 pm); info1 = v3_info (p3_Token1 pm);
               weight = v3CalcWeight amount0 amount1 (t3_Dec (p3_Token0 pm)) (t3_Dec (p3_Token1 pm));
               usd = (\<lambda>g. v3EmitUSDWithPricer E P info1 now (v3EmitUSDWithPricer E P info0 now g))
           in case v3RatToFloat price1Per0 of
                Some val \<Rightarrow> usd (g\<lparr>g3_Pricer := Some (pr_UpdatePair P info0 info1 val weight now p)\<rparr>)
              | None \<Rightarrow> (case v3RatToFloat price0Per1 of
                    Some val \<Rightarrow> usd (g\<lparr>g3_Pricer := Some (pr_UpdatePair P info1 info0 val weight now p)\<rparr>)
                  | None \<Rightarrow> g)))"

subsection \<open>Dollar prices for the log\<close>

definition v3Priority :: "string \<Rightarrow> int" where
  "v3Priority s = (if s = ''USDC'' then 3 else if s = ''USDT'' then 2 else if s = ''DAI'' then 1 else 0)"

text \<open>\<open>new(big.Float).SetRat(r)\<close> without a precision: exact for an integer, else rounded to the longer of the
  lengths of numerator and denominator, at least 64 bits.\<close>

definition bit_length :: "int \<Rightarrow> nat" where
  "bit_length n = (if n = 0 then 0 else nat (ilog2 (of_int \<bar>n\<bar>) + 1))"

definition v3SanityWETH :: "rat \<Rightarrow> bool" where
  "v3SanityWETH r =
     (let (num, den) = quotient_of r;
          z = (if den = 1 then r else round_prec (max 64 (max (bit_length num) (bit_length den))) r);
          f = f64_of_rat z
      in \<not> (f < Fin 300 \<or> Fin 100000 < f))"

definition v3MaybeSetWETHUSD :: "rat option \<Rightarrow> string \<Rightarrow> 'p v3Globals \<Rightarrow> 'p v3Globals" where
  "v3MaybeSetWETHUSD stablePerWeth stableSym0 g =
     (case stablePerWeth of None \<Rightarrow> g
      | Some r \<Rightarrow>
          if r \<le> 0 then g
          else let stableSym = to_upper (trim_space stableSym0) in
          if \<not> v3IsStableSymbol g stableSym then g
          else if \<not> v3SanityWETH r then g
          else if g3_WETHUSD g \<noteq> None \<and> v3Priority stableSym \<le> v3Priority (g3_WETHUSDStable g) then g
          else g\<lparr>g3_WETHUSD := Some r, g3_WETHUSDStable := stableSym\<rparr>)"

definition appendIfMissing :: "string list \<Rightarrow> string \<Rightarrow> string list" where
  "appendIfMissing sl val = (if val \<in> set sl then sl else sl @ [val])"

record baInfo =
  ba_sym :: string
  ba_usd :: "rat option"
  ba_stable :: string

text \<open>The product of two optional rationals; \<open>big.Rat.Mul\<close> panics on nil, which the guards exclude.\<close>

definition times_opt :: "rat option \<Rightarrow> rat option \<Rightarrow> rat option" where
  "times_opt a b = (case (a, b) of (Some x, Some y) \<Rightarrow> Some (x * y) | _ \<Rightarrow> None)"

text \<open>The update of the WETH price: whether one was tried, and the globals.\<close>

definition derive_weth :: "v3PoolMeta \<Rightarrow> rat option \<Rightarrow> rat option \<Rightarrow> 'p v3Globals \<Rightarrow> bool \<times> 'p v3Globals" where
  "derive_weth pm price1Per0 price0Per1 g =
     (let sym0 = to_upper (t3_Symbol (p3_Token0 pm)); sym1 = to_upper (t3_Symbol (p3_Token1 pm)) in
      if t3_Address (p3_Token0 pm) = g3_WETHAddress g \<and> v3IsStableSymbol g sym1 \<and> price0Per1 \<noteq> None
      then (True, v3MaybeSetWETHUSD (v3Invert price0Per1) sym1 g)
      else if t3_Address (p3_Token1 pm) = g3_WETHAddress g \<and> v3IsStableSymbol g sym0 \<and> price1Per0 \<noteq> None
      then (True, v3MaybeSetWETHUSD (v3Invert price1Per0) sym0 g)
      else (False, g))"

text \<open>The parts of the line and the base asset: a token against a stable, then against WETH, then two stables.
  \<open>fmt\<close> is \<open>v3Format\<close> with its precision.\<close>

definition derive_parts ::
    "(rat option \<Rightarrow> string) \<Rightarrow> v3PoolMeta \<Rightarrow> rat option \<Rightarrow> rat option \<Rightarrow> 'p v3Globals \<Rightarrow> string list \<times> baInfo option" where
  "derive_parts fmt pm price1Per0 price0Per1 g =
     (let sym0 = to_upper (t3_Symbol (p3_Token0 pm)); sym1 = to_upper (t3_Symbol (p3_Token1 pm));
          line = (\<lambda>sy usd st. sy @ ''USD='' @ fmt usd @ '' '' @ st);
          stable0 = v3IsStableSymbol g sym0; stable1 = v3IsStableSymbol g sym1;
          wethUSD = g3_WETHUSD g; wethStable = g3_WETHUSDStable g;
          (parts, ba) =
            (if stable0 \<and> \<not> stable1 \<and> v3Invert price1Per0 \<noteq> None
             then ([line sym1 (v3Invert price1Per0) sym0], Some \<lparr>ba_sym = sym1, ba_usd = v3Invert price1Per0, ba_stable = sym0\<rparr>)
             else if stable1 \<and> \<not> stable0 \<and> v3Invert price0Per1 \<noteq> None
             then ([line sym0 (v3Invert price0Per1) sym1], Some \<lparr>ba_sym = sym0, ba_usd = v3Invert price0Per1, ba_stable = sym1\<rparr>)
             else ([], None));
          via = (\<lambda>sy usd. (appendIfMissing parts (line sy usd wethStable),
                   if ba = None then Some \<lparr>ba_sym = sy, ba_usd = usd, ba_stable = wethStable\<rparr> else ba));
          (parts, ba) =
            (if wethUSD = None then (parts, ba)
             else if t3_Address (p3_Token0 pm) = g3_WETHAddress g \<and> \<not> stable1 \<and> price1Per0 \<noteq> None
             then via sym1 (times_opt (v3Invert price1Per0) wethUSD)
             else if t3_Address (p3_Token1 pm) = g3_WETHAddress g \<and> \<not> stable0 \<and> price0Per1 \<noteq> None
             then via sym0 (times_opt (v3Invert price0Per1) wethUSD)
             else (parts, ba))
      in if stable0 \<and> stable1 \<and> ba = None
         then (appendIfMissing parts (sym0 @ ''USD=1.000000 '' @ sym0), Some \<lparr>ba_sym = sym0, ba_usd = Some 1, ba_stable = sym0\<rparr>)
         else (parts, ba))"

definition v3DeriveUSD ::
    "(rat option \<Rightarrow> string) \<Rightarrow> v3PoolMeta \<Rightarrow> rat option \<Rightarrow> rat option \<Rightarrow> 'p v3Globals \<Rightarrow> string \<times> 'p v3Globals" where
  "v3DeriveUSD fmt pm price1Per0 price0Per1 g =
     (if \<not> p3_Loaded pm \<and> \<not> p3_HasJSONMeta pm then ([], g)
      else let (updated, g) = derive_weth pm price1Per0 price0Per1 g;
               (parts, ba) = derive_parts fmt pm price1Per0 price0Per1 g;
               parts = (if updated \<and> g3_WETHUSD g \<noteq> None
                 then (''WETHUSD='' @ fmt (g3_WETHUSD g) @ '' '' @ g3_WETHUSDStable g) # parts else parts);
               parts = (case ba of Some b \<Rightarrow> if ba_usd b \<noteq> None
                   then parts @ [''BA='' @ ba_sym b @ '' BAUSD='' @ fmt (ba_usd b) @ '' '' @ ba_stable b] else parts
                 | None \<Rightarrow> parts)
           in (join_with '' '' parts, g))"

subsection \<open>Swap logs\<close>

record v3LogItem =
  l3_Address :: string
  l3_Data :: string
  l3_Topics :: "string list"
  l3_Removed :: bool

text \<open>How the handling of a frame ends: normally, by \<open>util.Fatalf\<close>, or by a run-time panic.\<close>

datatype v3_outcome = Handled | FatalExit | Panicked

definition v3TryAcquireMetaSlot :: "'p v3Globals \<Rightarrow> bool \<times> 'p v3Globals" where
  "v3TryAcquireMetaSlot g =
     (if g3_MetaUsed g < g3_MetaCap g then (True, g\<lparr>g3_MetaUsed := g3_MetaUsed g + 1\<rparr>) else (False, g))"

definition v3ReleaseMetaSlot :: "'p v3Globals \<Rightarrow> 'p v3Globals" where
  "v3ReleaseMetaSlot g = g\<lparr>g3_MetaUsed := g3_MetaUsed g - 1\<rparr>"

text \<open>The lazy fetch of the metadata: whether it panics, the pool, the globals.\<close>

definition v3_fetch_meta ::
    "eth_lib \<Rightarrow> 'p Pricer \<Rightarrow> hexutil \<Rightarrow> v3_calls \<Rightarrow> v3PoolMeta \<Rightarrow> 'p v3Globals \<Rightarrow> bool \<times> v3PoolMeta \<times> 'p v3Globals" where
  "v3_fetch_meta E P H calls pm g =
     (if p3_Verified pm then (False, pm, g)
      else case v3TryAcquireMetaSlot g of
        (False, g) \<Rightarrow> (False, pm, g)
      | (True, g) \<Rightarrow> (case v3EnsurePoolMeta E P H calls pm g of
          (Some e, pm, g) \<Rightarrow> (e = SliceOutOfRange, pm\<lparr>p3_LoadErr := Some e\<rparr>, v3ReleaseMetaSlot g)
        | (None, pm, g) \<Rightarrow> (False, pm\<lparr>p3_Loaded := True, p3_Verified := True\<rparr>, v3ReleaseMetaSlot g)))"

definition v3_register_pool :: "'p Pricer \<Rightarrow> v3PoolMeta \<Rightarrow> 'p v3Globals \<Rightarrow> v3PoolMeta \<times> 'p v3Globals" where
  "v3_register_pool P pm g =
     (if (p3_HasJSONMeta pm \<or> p3_Loaded pm) \<and> \<not> p3_Registered pm
      then (pm\<lparr>p3_Registered := True\<rparr>, v3RegisterToken P (p3_Token1 pm) (v3RegisterToken P (p3_Token0 pm) g))
      else (pm, g))"

definition v3_prices :: "v3PoolMeta \<Rightarrow> rat \<Rightarrow> rat option \<times> rat option" where
  "v3_prices pm rawPrice =
     (if (p3_Loaded pm \<or> p3_HasJSONMeta pm) \<and> t3_Dec (p3_Token0 pm) > 0 \<and> t3_Dec (p3_Token1 pm) > 0
      then let price1Per0 = Some (rawPrice * v3DecimalAdjust (t3_Dec (p3_Token0 pm)) (t3_Dec (p3_Token1 pm)))
           in (price1Per0, v3Invert price1Per0)
      else (Some rawPrice, v3Invert (Some rawPrice)))"

text \<open>The part after the decoding of the data.\<close>

definition v3_swap ::
    "eth_lib \<Rightarrow> 'p Pricer \<Rightarrow> hexutil \<Rightarrow> v3_calls \<Rightarrow> (rat option \<Rightarrow> string) \<Rightarrow> time \<Rightarrow> address \<Rightarrow> v3PoolMeta \<Rightarrow> rat \<Rightarrow> int \<Rightarrow> int
     \<Rightarrow> 'p v3Globals \<Rightarrow> v3_outcome \<times> 'p v3Globals" where
  "v3_swap E P H calls fmt now addr pm rawPrice amount0 amount1 g =
     (case v3_fetch_meta E P H calls pm g of
        (True, pm, g) \<Rightarrow> (Panicked, g)
      | (False, pm, g) \<Rightarrow>
          (let (pm, g) = v3_register_pool P pm g;
               (price1Per0, price0Per1) = v3_prices pm rawPrice;
               (usdLines, g) = v3DeriveUSD fmt pm price1Per0 price0Per1 g;
               g = v3EmitPair now (t3_Symbol (p3_Token0 pm)) (t3_Symbol (p3_Token1 pm)) price1Per0 g;
               g = v3EmitPair now (t3_Symbol (p3_Token1 pm)) (t3_Symbol (p3_Token0 pm)) price0Per1 g;
               g = v3UpdatePricing E P now pm price1Per0 price0Per1 (Some amount0) (Some amount1) g
           in (Handled, g\<lparr>g3_Pools := mput addr pm (g3_Pools g)\<rparr>)))"

definition v3HandleSwap ::
    "eth_lib \<Rightarrow> 'p Pricer \<Rightarrow> hexutil \<Rightarrow> v3_calls \<Rightarrow> (rat option \<Rightarrow> string) \<Rightarrow> time \<Rightarrow> address \<Rightarrow> v3PoolMeta \<Rightarrow> v3LogItem
     \<Rightarrow> 'p v3Globals \<Rightarrow> v3_outcome \<times> 'p v3Globals" where
  "v3HandleSwap E P H calls fmt now addr pm l g =
     (if length (l3_Data l) < 2 then (Handled, g)
      else case hx_Decode H (l3_Data l) of None \<Rightarrow> (Handled, g)
      | Some b \<Rightarrow>
          if length b < 32 * 5 then (Handled, g)
          else (case v3PriceFromSqrt (set_bytes (take 32 (drop 64 b))) of None \<Rightarrow> (Handled, g)
             | Some rawPrice \<Rightarrow> v3_swap E P H calls fmt now addr pm rawPrice
                 (v3DecodeInt256 (take 32 b)) (v3DecodeInt256 (take 32 (drop 32 b))) g))"

definition v3SwapSig :: "eth_lib \<Rightarrow> hash" where
  "v3SwapSig E = eth_HexToHash E ''0xc42079f94a6350d7e6235f29174924f928cc2ac818eb64fed8004e115fbcca67''"

definition v3Process ::
    "eth_lib \<Rightarrow> 'p Pricer \<Rightarrow> hexutil \<Rightarrow> v3_calls \<Rightarrow> (rat option \<Rightarrow> string) \<Rightarrow> time \<Rightarrow> v3LogItem \<Rightarrow> 'p v3Globals \<Rightarrow> v3_outcome \<times> 'p v3Globals" where
  "v3Process E P H calls fmt now l g =
     (if l3_Removed l then (Handled, g)
      else case l3_Topics l of [] \<Rightarrow> (Handled, g)
      | topic # _ \<Rightarrow>
          (let sig = eth_HexToHash E topic; addr = eth_HexToAddress E (l3_Address l) in
           if g3_DecodeSwapOnly g \<and> sig \<noteq> v3SwapSig E then (Handled, g)
           else case map_of (g3_Pools g) addr of None \<Rightarrow> (Handled, g)
           | Some pm \<Rightarrow> if sig = v3SwapSig E then v3HandleSwap E P H calls fmt now addr pm l g else (Handled, g)))"

subsection \<open>Frames\<close>

record v3SubAck =
  a3_Result :: string
  a3_Error :: "(int \<times> string) option"

record v3SubNote =
  n3_Method :: string
  n3_Result :: v3LogItem

record v3_frame =
  f3_ack :: "v3SubAck option"
  f3_note :: "v3SubNote option"

definition v3TryAck :: "v3SubAck option \<Rightarrow> v3SubAck option" where
  "v3TryAck raw = (case raw of None \<Rightarrow> None | Some a \<Rightarrow> if a3_Result a = [] \<and> a3_Error a = None then None else Some a)"

definition v3TryNote :: "v3SubNote option \<Rightarrow> v3SubNote option" where
  "v3TryNote raw = (case raw of None \<Rightarrow> None | Some n \<Rightarrow> if \<not> equal_fold (n3_Method n) ''eth_subscription'' then None else Some n)"

definition v3Handle ::
    "eth_lib \<Rightarrow> 'p Pricer \<Rightarrow> hexutil \<Rightarrow> v3_calls \<Rightarrow> (rat option \<Rightarrow> string) \<Rightarrow> time \<Rightarrow> v3_frame \<Rightarrow> 'p v3Globals \<Rightarrow> v3_outcome \<times> 'p v3Globals" where
  "v3Handle E P H calls fmt now raw g =
     (case v3TryAck (f3_ack raw) of
        Some ack \<Rightarrow> (if a3_Error ack \<noteq> None \<and> g3_StopOnErrAck g then FatalExit else Handled, g)
      | None \<Rightarrow> (case v3TryNote (f3_note raw) of None \<Rightarrow> (Handled, g)
          | Some n \<Rightarrow> v3Process E P H calls fmt now (n3_Result n) g))"

subsection \<open>The connection loop\<close>

definition v3ReconnectBase :: int where "v3ReconnectBase = 2 * second"
definition v3ReconnectMax :: int where "v3ReconnectMax = 30 * second"

definition v3NextBackoff :: "int \<Rightarrow> int" where
  "v3NextBackoff cur = (let n = cur * 2 in if n > v3ReconnectMax then v3ReconnectMax else n)"

text \<open>The batches, each with its number, until a write fails; \<open>writes i\<close> says whether request \<open>i\<close> is written.\<close>

definition v3SubscribeAll :: "eth_lib \<Rightarrow> (int \<Rightarrow> bool) \<Rightarrow> 'p v3Globals \<Rightarrow> v3_error option \<times> rpcRequest list" where
  "v3SubscribeAll E writes g =
     (let addresses = sort (map (\<lambda>(a, _). eth_Hex E a) (g3_Pools g));
          reqs = subscribe_batches (nat (g3_BatchSize g) - 1) 1 addresses;
          sent = takeWhile (\<lambda>r. writes (fst r)) reqs
      in (if length sent = length reqs then None else Some (V3Batch (length sent)), sent))"

text \<open>A frame comes with the node as it is while the frame is handled: its answers by URL and call site.\<close>

datatype v3_event = Y3Cancelled | Y3Msg time "string \<Rightarrow> v3_calls" v3_frame | Y3MsgsClosed | Y3Err

datatype v3_end = V3Waiting | V3Returned v3_error | V3Dead v3_outcome

text \<open>The inner loop: \<open>Inl\<close> when \<open>v3RunLoop\<close> goes no further, \<open>Inr ()\<close> when it reconnects.\<close>

fun v3_session ::
    "eth_lib \<Rightarrow> 'p Pricer \<Rightarrow> hexutil \<Rightarrow> (rat option \<Rightarrow> string) \<Rightarrow> v3_event list \<Rightarrow> 'p v3Globals
     \<Rightarrow> (v3_end, unit) result \<times> 'p v3Globals" where
  "v3_session E P H fmt [] g = (Inl V3Waiting, g)"
| "v3_session E P H fmt (Y3Cancelled # es) g = (Inl (V3Returned V3Cancelled), g)"
| "v3_session E P H fmt (Y3MsgsClosed # es) g = (Inr (), g)"
| "v3_session E P H fmt (Y3Err # es) g = (Inr (), g)"
| "v3_session E P H fmt (Y3Msg now ask raw # es) g =
     (case v3Handle E P H (ask (g3_HTTPURL g)) fmt now raw g of
        (Handled, g) \<Rightarrow> v3_session E P H fmt es g
      | (out, g) \<Rightarrow> (Inl (V3Dead out), g))"

record v3_round =
  r3_cancelled :: bool
  r3_dial :: bool
  r3_writes :: "int \<Rightarrow> bool"
  r3_events :: "v3_event list"
  r3_slept :: bool

fun v3RunLoop ::
    "eth_lib \<Rightarrow> 'p Pricer \<Rightarrow> hexutil \<Rightarrow> (rat option \<Rightarrow> string) \<Rightarrow> v3_round list \<Rightarrow> int \<Rightarrow> 'p v3Globals
     \<Rightarrow> run_action list \<times> v3_end \<times> 'p v3Globals" where
  "v3RunLoop E P H fmt [] backoff g = ([], V3Waiting, g)"
| "v3RunLoop E P H fmt (r # rs) backoff g =
     (if r3_cancelled r then ([], V3Returned V3Cancelled, g)
      else let (failed, sent) = (if r3_dial r then v3SubscribeAll E (r3_writes r) g else (Some V3CallFailed, [])) in
      if failed \<noteq> None then
        (let backoff = v3NextBackoff backoff in
         if \<not> r3_slept r then (map Sent sent @ [Sleep backoff], V3Returned V3Cancelled, g)
         else case v3RunLoop E P H fmt rs backoff g of (acts, e, g') \<Rightarrow> (map Sent sent @ Sleep backoff # acts, e, g'))
      else case v3_session E P H fmt (r3_events r) g of
        (Inl e, g) \<Rightarrow> (map Sent sent, e, g)
      | (Inr _, g) \<Rightarrow>
          if \<not> r3_slept r then (map Sent sent @ [Sleep v3ReconnectBase], V3Returned V3Cancelled, g)
          else (case v3RunLoop E P H fmt rs (v3NextBackoff v3ReconnectBase) (g\<lparr>g3_ReconnectCount := g3_ReconnectCount g + 1\<rparr>) of
            (acts, e, g') \<Rightarrow> (map Sent sent @ Sleep v3ReconnectBase # acts, e, g')))"

text \<open>The assignments of \<open>v3Run\<close> before the loop, and the deferred ones after it.\<close>

definition v3_start :: "V3Config \<Rightarrow> 'p option \<Rightarrow> 'p v3Globals \<Rightarrow> 'p v3Globals" where
  "v3_start cfg pricer g =
     (let name = trim_space (c3_Exchange cfg); name = (if name = [] then ''uniswap_v3'' else name)
      in g\<lparr>g3_Open := True, g3_Pricer := pricer, g3_MessageCount := 0, g3_ReconnectCount := 0, g3_ExchangeName := to_lower name,
           g3_BatchSize := (if c3_BatchSize cfg \<le> 0 then 150 else c3_BatchSize cfg),
           g3_MetaCap := (if c3_MaxMetaWorkers cfg > 0 then nat (c3_MaxMetaWorkers cfg) else 8), g3_MetaUsed := 0,
           g3_PingInterval := (if c3_PingInterval cfg > 0 then c3_PingInterval cfg else 25 * second),
           g3_StopOnErrAck := c3_StopOnAckError cfg, g3_LogAllEvents := c3_LogAllEvents cfg,
           g3_DecodeSwapOnly := c3_DecodeSwapOnly cfg, g3_TokenCache := Map.empty, g3_WETHUSD := None, g3_WETHUSDStable := []\<rparr>)"

definition v3_stop :: "'p v3Globals \<Rightarrow> 'p v3Globals" where
  "v3_stop g = g\<lparr>g3_Open := False, g3_Pricer := None\<rparr>"

definition v3Run ::
    "eth_lib \<Rightarrow> 'p Pricer \<Rightarrow> hexutil \<Rightarrow> (rat option \<Rightarrow> string) \<Rightarrow> (string \<Rightarrow> string) \<Rightarrow> (string \<Rightarrow> 'd option)
     \<Rightarrow> ('d \<Rightarrow> v3GeckoPool list option) \<Rightarrow> bool \<Rightarrow> bool \<Rightarrow> V3Config \<Rightarrow> 'p option \<Rightarrow> v3_round list \<Rightarrow> 'p v3Globals
     \<Rightarrow> run_action list \<times> v3_end \<times> 'p v3Globals" where
  "v3Run E P H fmt getenv read_file decode has_out abi_ok cfg pricer rs g =
     (if \<not> has_out then ([], V3Returned V3NilOut, g)
      else if \<not> abi_ok then ([], V3Returned V3Abi, g)
      else case v3ResolveWS getenv cfg of Inl e \<Rightarrow> ([], V3Returned e, g)
      | Inr (ws, http) \<Rightarrow>
          (let g = g\<lparr>g3_WSURL := ws, g3_HTTPURL := http\<rparr> in
           case v3LoadPools E getenv read_file decode cfg of Inl e \<Rightarrow> ([], V3Returned e, g)
           | Inr pools \<Rightarrow>
               (let g = g\<lparr>g3_Pools := pools\<rparr> in
                if pools = [] then ([], V3Returned V3NoPools, g)
                else case v3RunLoop E P H fmt rs v3ReconnectBase (v3_start cfg pricer (v3InitAssets E (c3_Registry cfg) g)) of
                  (acts, V3Returned e, g) \<Rightarrow> (acts, V3Returned e, v3_stop g)
                | (acts, e, g) \<Rightarrow> (acts, e, g))))"

subsection \<open>Lemmas: what a frame may do to the globals\<close>

text \<open>Settings stay, the pricer keeps its invariant, what is sent is usable and bears the connector's name, a WETH price
  of the highest priority stays, and the slot of the metadata fetch is free again.\<close>

definition v3_step :: "('p \<Rightarrow> bool) \<Rightarrow> 'p v3Globals \<Rightarrow> 'p v3Globals \<Rightarrow> bool" where
  "v3_step I g g' \<longleftrightarrow> g3_ExchangeName g' = g3_ExchangeName g \<and> g3_MetaUsed g' = g3_MetaUsed g \<and> g3_MetaCap g' = g3_MetaCap g \<and>
     g3_BatchSize g' = g3_BatchSize g \<and> g3_StopOnErrAck g' = g3_StopOnErrAck g \<and> g3_HTTPURL g' = g3_HTTPURL g \<and>
     (g3_WETHUSD g \<noteq> None \<and> v3Priority (g3_WETHUSDStable g) = 3 \<longrightarrow>
        g3_WETHUSD g' = g3_WETHUSD g \<and> g3_WETHUSDStable g' = g3_WETHUSDStable g) \<and>
     (g3_ExchangeName g \<noteq> [] \<and> pred_option I (g3_Pricer g) \<longrightarrow> pred_option I (g3_Pricer g') \<and>
        (\<exists>sent. g3_out g' = g3_out g @ sent \<and> (\<forall>m \<in> set sent. md_ok m \<and> md_Exchange m = g3_ExchangeName g)))"

lemma v3_step_refl [simp, intro]: "v3_step I g g"
  by (simp add: v3_step_def)

lemma v3_step_trans [trans]: "v3_step I a b \<Longrightarrow> v3_step I b c \<Longrightarrow> v3_step I a c"
  by (auto simp: v3_step_def)

lemma v3_step_send: "pos_fin v \<Longrightarrow> symbol \<noteq> [] \<Longrightarrow> v3_step I g (v3_send ts symbol v g)"
  by (simp add: v3_step_def v3_send_def md_ok_def)

lemma v3_step_counts: "v3_step I g (g\<lparr>g3_MessageCount := n\<rparr>)" "v3_step I g (g\<lparr>g3_ReconnectCount := n\<rparr>)"
  "v3_step I g (g\<lparr>g3_Pools := ps\<rparr>)" "v3_step I g (g\<lparr>g3_TokenCache := c\<rparr>)"
  by (simp_all add: v3_step_def)

lemma v3_step_pricer: "g3_Pricer g = Some p \<Longrightarrow> (I p \<Longrightarrow> I p') \<Longrightarrow> v3_step I g (g\<lparr>g3_Pricer := Some p'\<rparr>)"
  by (simp add: v3_step_def)

definition upper_trim :: "string \<Rightarrow> string" where
  "upper_trim s = to_upper (trim_space s)"

lemma trimmed_append: "trimmed a \<Longrightarrow> trimmed b \<Longrightarrow> a \<noteq> [] \<Longrightarrow> b \<noteq> [] \<Longrightarrow> trimmed (a @ b)"
  by (simp add: trimmed_def)

lemma upper_trim_pair:
  "upper_trim a \<noteq> [] \<Longrightarrow> upper_trim b \<noteq> [] \<Longrightarrow> upper_trim (upper_trim a @ upper_trim b) = upper_trim a @ upper_trim b"
proof -
  assume ne: "upper_trim a \<noteq> []" "upper_trim b \<noteq> []"
  have t: "trimmed (upper_trim s)" for s by (metis trimmed_trim trim_to_upper upper_trim_def)
  from trimmed_fix [OF trimmed_append [OF t t ne]] show ?thesis
    by (simp add: upper_trim_def to_upper_append trim_to_upper)
qed

lemma v3_step_Publish: "upper_trim symbol \<noteq> [] \<Longrightarrow> v3_step I g (v3Publish now symbol v g)"
proof (cases v)
  case (Some x)
  assume "upper_trim symbol \<noteq> []"
  then have "pos_fin (rat_float64 x) \<Longrightarrow> v3_step I g (v3_send now (upper_trim symbol) (rat_float64 x) (g\<lparr>g3_MessageCount := n\<rparr>))" for n
    using v3_step_trans [OF v3_step_counts(1) v3_step_send] by blast
  then show ?thesis using Some pos_fin_guardI [of "rat_float64 x"] by (simp add: v3Publish_def upper_trim_def Let_def)
qed (simp add: v3Publish_def)

lemma v3_step_EmitPair: "v3_step I g (v3EmitPair now b q v g)"
  using upper_trim_pair [of b q] v3_step_Publish [of "upper_trim b @ upper_trim q" I g now v]
  by (simp add: v3EmitPair_def upper_trim_def [symmetric] Let_def)

lemma v3_step_EmitUSD: "v3_step I g (v3EmitUSDWithPricer E P info ts g)"
  using pos_fin_guardI
  by (auto simp: v3EmitUSDWithPricer_def Let_def intro: v3_step_send split: option.split prod.split)

lemma v3Priority_le: "v3Priority s \<le> 3"
  by (simp add: v3Priority_def)

lemma v3_step_MaybeSet: "v3_step I g (v3MaybeSetWETHUSD r s g)"
  using v3Priority_le [of "to_upper (trim_space s)"] by (auto simp: v3_step_def v3MaybeSetWETHUSD_def Let_def split: option.split)

lemma DeriveUSD_globals: "snd (v3DeriveUSD fmt pm a b g) = snd (derive_weth pm a b g) \<or> snd (v3DeriveUSD fmt pm a b g) = g"
  by (simp add: v3DeriveUSD_def Let_def split: prod.split)

lemma v3_step_DeriveUSD: "v3_step I g (snd (v3DeriveUSD fmt pm a b g))"
proof -
  have "v3_step I g (snd (derive_weth pm a b g))" by (simp add: derive_weth_def Let_def v3_step_MaybeSet)
  with DeriveUSD_globals [of fmt pm a b g] show ?thesis by auto
qed

lemma v3FetchTokenMeta_panics: "v3FetchTokenMeta E H calls a hint cache = Inl e \<Longrightarrow> e = SliceOutOfRange"
  by (auto simp: v3FetchTokenMeta_def Let_def split: if_splits)

context usd_pricer
begin

lemma v3_step_Register: "v3_step inv g (v3RegisterToken P m g)"
  by (auto simp: v3RegisterToken_def Let_def inv_ops intro: v3_step_pricer split: option.split)

lemma v3_step_UpdatePricing: "v3_step inv g (v3UpdatePricing E P now pm a b x y g)"
proof -
  have "v3_step inv g (v3EmitUSDWithPricer E P i now (v3EmitUSDWithPricer E P j now
      (g\<lparr>g3_Pricer := Some (pr_UpdatePair P s t v w now p)\<rparr>)))" if "g3_Pricer g = Some p" for p i j s t v w
  proof -
    have "v3_step inv g (g\<lparr>g3_Pricer := Some (pr_UpdatePair P s t v w now p)\<rparr>)" using that inv_UpdatePair by (rule v3_step_pricer)
    from v3_step_trans [OF v3_step_trans [OF this v3_step_EmitUSD] v3_step_EmitUSD] show ?thesis .
  qed
  then show ?thesis by (auto simp: v3UpdatePricing_def Let_def split: option.split)
qed

lemma v3_step_Ensure: "v3EnsurePoolMeta E P H calls pm g = (e, pm', g') \<Longrightarrow> v3_step inv g g'"
proof -
  assume en: "v3EnsurePoolMeta E P H calls pm g = (e, pm', g')"
  have "v3_step inv g (v3RegisterToken P t (v3RegisterToken P s (g\<lparr>g3_TokenCache := c\<rparr>)))" for t s c
    using v3_step_trans [OF v3_step_trans [OF v3_step_counts(4) v3_step_Register] v3_step_Register] .
  moreover have "g' = g \<or> (\<exists>c. g' = g\<lparr>g3_TokenCache := c\<rparr>) \<or> (\<exists>t s c. g' = v3RegisterToken P t (v3RegisterToken P s (g\<lparr>g3_TokenCache := c\<rparr>)))"
    using en unfolding v3EnsurePoolMeta_def by (fastforce split: if_splits sum.splits prod.splits)
  ultimately show ?thesis using v3_step_counts(4) by auto
qed

lemma v3_step_fetch: "v3_fetch_meta E P H calls pm g = (e, pm', g') \<Longrightarrow> v3_step inv g g'"
proof -
  have slot: "v3_step inv g (v3ReleaseMetaSlot g1)" if "v3_step inv (g\<lparr>g3_MetaUsed := g3_MetaUsed g + 1\<rparr>) g1" for g1
    using that by (simp add: v3_step_def v3ReleaseMetaSlot_def)
  assume f: "v3_fetch_meta E P H calls pm g = (e, pm', g')"
  show ?thesis
  proof (cases "p3_Verified pm \<or> \<not> g3_MetaUsed g < g3_MetaCap g")
    case True
    with f show ?thesis by (auto simp: v3_fetch_meta_def v3TryAcquireMetaSlot_def split: if_splits)
  next
    case False
    obtain e1 pm1 g1 where en: "v3EnsurePoolMeta E P H calls pm (g\<lparr>g3_MetaUsed := g3_MetaUsed g + 1\<rparr>) = (e1, pm1, g1)" by (metis surj_pair)
    with f False have "g' = v3ReleaseMetaSlot g1" by (cases e1) (simp_all add: v3_fetch_meta_def v3TryAcquireMetaSlot_def)
    with slot [OF v3_step_Ensure [OF en]] show ?thesis by simp
  qed
qed

lemma v3_step_swap: "v3_step inv g (snd (v3_swap E P H calls fmt now addr pm raw x y g))"
proof -
  obtain pan pm1 g1 where f: "v3_fetch_meta E P H calls pm g = (pan, pm1, g1)" by (metis surj_pair)
  obtain pm2 g2 where r: "v3_register_pool P pm1 g1 = (pm2, g2)" by fastforce
  obtain p q where pr: "v3_prices pm2 raw = (p, q)" by fastforce
  obtain u g3 where d: "v3DeriveUSD fmt pm2 p q g2 = (u, g3)" by fastforce
  have 1: "v3_step inv g g1" using v3_step_fetch [OF f] .
  have "v3_step inv g1 g2" using r v3_step_trans [OF v3_step_Register v3_step_Register] by (auto simp: v3_register_pool_def split: if_splits)
  moreover have "v3_step inv g2 g3" using v3_step_DeriveUSD [of inv g2 fmt pm2 p q] d by simp
  ultimately have 2: "v3_step inv g1 g3" by (rule v3_step_trans)
  show ?thesis
  proof (cases pan)
    case True
    with f 1 show ?thesis by (simp add: v3_swap_def)
  next
    case False
    have "v3_step inv g3 (v3UpdatePricing E P now pm2 p q (Some x) (Some y)
        (v3EmitPair now (t3_Symbol (p3_Token1 pm2)) (t3_Symbol (p3_Token0 pm2)) q
          (v3EmitPair now (t3_Symbol (p3_Token0 pm2)) (t3_Symbol (p3_Token1 pm2)) p g3)))"
      by (blast intro: v3_step_trans v3_step_EmitPair v3_step_UpdatePricing)
    with v3_step_trans [OF 1 2] show ?thesis using False
      by (auto simp: v3_swap_def f r pr d Let_def intro: v3_step_trans v3_step_counts(3))
  qed
qed

lemma v3_step_Handle: "v3_step inv g (snd (v3Handle E P H calls fmt now raw g))"
  by (auto simp: v3Handle_def v3Process_def v3HandleSwap_def Let_def v3_step_swap split: option.split list.split)

lemma v3_step_session: "v3_step inv g (snd (v3_session E P H fmt es g))"
proof (induction es arbitrary: g)
  case (Cons e es)
  show ?case
  proof (cases e)
    case (Y3Msg now ask raw)
    obtain out g' where h: "v3Handle E P H (ask (g3_HTTPURL g)) fmt now raw g = (out, g')" by fastforce
    then have "v3_step inv g g'" using v3_step_Handle [of g E H "ask (g3_HTTPURL g)" fmt now raw] by simp
    with Cons.IH [of g'] show ?thesis by (auto simp: Y3Msg h intro: v3_step_trans split: v3_outcome.split)
  qed simp_all
qed simp

lemma v3_step_RunLoop: "v3_step inv g (snd (snd (v3RunLoop E P H fmt rs b g)))"
proof (induction rs arbitrary: b g)
  case (Cons r rs)
  obtain e g' where s: "v3_session E P H fmt (r3_events r) g = (e, g')" by fastforce
  then have 1: "v3_step inv g g'" using v3_step_session [of g E H fmt "r3_events r"] by simp
  have 2: "v3_step inv g (snd (snd (v3RunLoop E P H fmt rs b' (g'\<lparr>g3_ReconnectCount := n\<rparr>))))" for b' n
    using v3_step_trans [OF v3_step_trans [OF 1 v3_step_counts(2)] Cons.IH] .
  obtain fl sent where f: "(if r3_dial r then v3SubscribeAll E (r3_writes r) g else (Some V3CallFailed, [])) = (fl, sent)" by fastforce
  from 1 2 Cons.IH show ?case
    by (auto simp: s f Let_def split: prod.split sum.split) (metis snd_conv)+
qed simp

end

subsection \<open>Lemmas: how a run can die\<close>

definition symbol_crash :: "hexutil \<Rightarrow> v3_calls \<Rightarrow> bool" where
  "symbol_crash H calls \<longleftrightarrow> (\<exists>i a. v3CallSymbol H (calls i) (calls (Suc i)) a = Inl SliceOutOfRange)"

lemma FetchTokenMeta_crash: "v3FetchTokenMeta E H (\<lambda>i. calls (i + n)) a hint cache = Inl e \<Longrightarrow> symbol_crash H calls"
proof -
  assume "v3FetchTokenMeta E H (\<lambda>i. calls (i + n)) a hint cache = Inl e"
  then have "v3CallSymbol H (calls (Suc n)) (calls (Suc (Suc n))) a = Inl SliceOutOfRange"
    by (auto simp: v3FetchTokenMeta_def Let_def split: if_splits)
  then show ?thesis unfolding symbol_crash_def by blast
qed

lemma CallAddress_error: "v3CallAddress H call a sel = Inl e \<Longrightarrow> e \<noteq> SliceOutOfRange"
  by (auto simp: v3CallAddress_def split: option.splits if_splits)

lemma fetch_crash: "v3_fetch_meta E P H calls pm g = (True, pm', g') \<Longrightarrow> symbol_crash H calls"
  by (auto simp del: add_2_eq_Suc' simp: v3_fetch_meta_def v3EnsurePoolMeta_def dest: FetchTokenMeta_crash CallAddress_error
      split: if_splits prod.splits option.splits sum.splits bool.splits)

lemma swap_crash: "v3_swap E P H calls fmt now addr pm raw x y g = (out, g') \<Longrightarrow> out \<noteq> Handled \<Longrightarrow> out = Panicked \<and> symbol_crash H calls"
  by (auto simp: v3_swap_def Let_def dest: fetch_crash split: prod.splits bool.splits)

text \<open>An acknowledgement that carries an error, and why a frame may end the process.\<close>

definition refused :: "v3_frame \<Rightarrow> bool" where
  "refused raw \<longleftrightarrow> (\<exists>ack. f3_ack raw = Some ack \<and> a3_Error ack \<noteq> None)"

definition fatal_frame :: "hexutil \<Rightarrow> bool \<Rightarrow> v3_calls \<Rightarrow> v3_frame \<Rightarrow> v3_outcome \<Rightarrow> bool" where
  "fatal_frame H stop calls raw out \<longleftrightarrow>
     out = FatalExit \<and> stop \<and> refused raw \<or> out = Panicked \<and> \<not> refused raw \<and> symbol_crash H calls"

lemma Handle_crash:
  "v3Handle E P H calls fmt now raw g = (out, g') \<Longrightarrow> out \<noteq> Handled \<Longrightarrow> fatal_frame H (g3_StopOnErrAck g) calls raw out"
  by (auto simp: v3Handle_def v3Process_def v3HandleSwap_def v3TryAck_def fatal_frame_def refused_def Let_def dest: swap_crash
      split: option.splits list.splits if_splits)

lemma Handle_refused: "refused raw \<Longrightarrow> v3Handle E P H calls fmt now raw g = (if g3_StopOnErrAck g then FatalExit else Handled, g)"
  by (auto simp: v3Handle_def v3TryAck_def refused_def)

definition death_ok :: "hexutil \<Rightarrow> string \<Rightarrow> bool \<Rightarrow> v3_event list \<Rightarrow> v3_end \<Rightarrow> bool" where
  "death_ok H url stop es e \<longleftrightarrow> (\<forall>out. e = V3Dead out \<longrightarrow>
     (\<exists>now ask raw. Y3Msg now ask raw \<in> set es \<and> fatal_frame H stop (ask url) raw out))"

lemma death_ok_mono: "death_ok H url stop es e \<Longrightarrow> set es \<subseteq> set es' \<Longrightarrow> death_ok H url stop es' e"
  unfolding death_ok_def by blast

context usd_pricer
begin

lemma session_death:
  "v3_session E P H fmt es g = (Inl e, g') \<Longrightarrow> death_ok H (g3_HTTPURL g) (g3_StopOnErrAck g) es e"
proof (induction es arbitrary: g)
  case (Cons ev es)
  show ?case
  proof (cases ev)
    case (Y3Msg now ask raw)
    obtain out g1 where h: "v3Handle E P H (ask (g3_HTTPURL g)) fmt now raw g = (out, g1)" by fastforce
    have "g3_StopOnErrAck g1 = g3_StopOnErrAck g" "g3_HTTPURL g1 = g3_HTTPURL g"
      using v3_step_Handle [of g E H "ask (g3_HTTPURL g)" fmt now raw] h by (simp_all add: v3_step_def)
    then have "death_ok H (g3_HTTPURL g) (g3_StopOnErrAck g) es e" if "out = Handled"
      using Cons.prems Cons.IH [of g1] that by (simp add: Y3Msg h)
    moreover have "e = V3Dead out" if "out \<noteq> Handled" using Cons.prems that by (cases out) (simp_all add: Y3Msg h)
    moreover have "death_ok H (g3_HTTPURL g) (g3_StopOnErrAck g) (ev # es) (V3Dead out)" if "out \<noteq> Handled"
      using Handle_crash [OF h that] unfolding death_ok_def Y3Msg by (metis list.set_intros(1) v3_end.inject(2))
    ultimately show ?thesis
      using death_ok_mono [of H _ _ es e "ev # es"] by (cases "out = Handled") (simp_all add: subset_insertI)
  qed (use Cons.prems in \<open>auto simp: death_ok_def\<close>)
qed (simp add: death_ok_def)

lemma RunLoop_death:
  "v3RunLoop E P H fmt rs b g = (acts, e, g') \<Longrightarrow> death_ok H (g3_HTTPURL g) (g3_StopOnErrAck g) (concat (map r3_events rs)) e"
proof (induction rs arbitrary: b g acts)
  case (Cons r rs)
  obtain res g1 where s: "v3_session E P H fmt (r3_events r) g = (res, g1)" by fastforce
  then have kept: "g3_StopOnErrAck (g1\<lparr>g3_ReconnectCount := n\<rparr>) = g3_StopOnErrAck g"
      "g3_HTTPURL (g1\<lparr>g3_ReconnectCount := n\<rparr>) = g3_HTTPURL g" for n
    using v3_step_session [of g E H fmt "r3_events r"] by (simp_all add: v3_step_def)
  obtain fl sent where f: "(if r3_dial r then v3SubscribeAll E (r3_writes r) g else (Some V3CallFailed, [])) = (fl, sent)" by fastforce
  have later: "death_ok H (g3_HTTPURL g) (g3_StopOnErrAck g) (concat (map r3_events (r # rs))) e"
    if "v3RunLoop E P H fmt rs b' g2 = (acts', e, g')" "g2 = g \<or> (\<exists>n. g2 = g1\<lparr>g3_ReconnectCount := n\<rparr>)" for b' g2 acts'
    using Cons.IH [OF that(1)] that(2) kept by (auto intro: death_ok_mono)
  have now: "death_ok H (g3_HTTPURL g) (g3_StopOnErrAck g) (concat (map r3_events (r # rs))) e" if "res = Inl e"
    using session_death [of E H fmt "r3_events r" g e g1] s that by (auto intro: death_ok_mono)
  have never: "death_ok H (g3_HTTPURL g) (g3_StopOnErrAck g) (concat (map r3_events (r # rs))) (V3Returned x)" for x
    by (simp add: death_ok_def)
  show ?case using Cons.prems later now never
    by (fastforce simp: s f Let_def split: if_splits prod.splits sum.splits)
qed (simp add: death_ok_def)

end

subsection \<open>Properties of the connector\<close>

definition v3_delay :: "int \<Rightarrow> bool" where
  "v3_delay d \<longleftrightarrow> d \<in> {2 * second, 4 * second, 8 * second, 16 * second, 30 * second}"

interpretation v3: backoff_policy v3NextBackoff v3_delay v3ReconnectBase v3ReconnectMax
  by unfold_locales (auto simp: v3NextBackoff_def v3_delay_def v3ReconnectBase_def v3ReconnectMax_def second_def)

lemma v3_delays:
  "v3_delay b \<Longrightarrow> v3RunLoop E P H fmt rs b g = (acts, e, g') \<Longrightarrow> Sleep d \<in> set acts \<Longrightarrow> v3_delay d"
proof (induction rs arbitrary: b g acts)
  case (Cons r rs)
  have "v3_delay (v3NextBackoff b)" "v3_delay (v3NextBackoff v3ReconnectBase)" "v3_delay v3ReconnectBase"
    using v3.closed [OF Cons.prems(1)] v3.closed [OF v3.first_valid] v3.first_valid by simp_all
  moreover obtain fl sent where f: "(if r3_dial r then v3SubscribeAll E (r3_writes r) g else (Some V3CallFailed, [])) = (fl, sent)" by fastforce
  ultimately show ?case
    using Cons.prems Cons.IH
    by (auto simp: f Let_def split: if_splits prod.splits sum.splits)
qed simp


subsection \<open>The two prices of a swap\<close>

lemma sent_EmitUSD: "\<exists>sent. g3_out (v3EmitUSDWithPricer E P i ts g) = g3_out g @ sent"
  by (auto simp: v3EmitUSDWithPricer_def v3_send_def Let_def split: option.split prod.split)

lemma sent_UpdatePricing: "\<exists>sent. g3_out (v3UpdatePricing E P now pm a b x y g) = g3_out g @ sent"
proof -
  have "\<exists>sent. g3_out (v3EmitUSDWithPricer E P i now (v3EmitUSDWithPricer E P j now (g\<lparr>g3_Pricer := p\<rparr>))) = g3_out g @ sent" for i j p
    using sent_EmitUSD [of E P j now "g\<lparr>g3_Pricer := p\<rparr>"] sent_EmitUSD [of E P i now "v3EmitUSDWithPricer E P j now (g\<lparr>g3_Pricer := p\<rparr>)"]
    by auto
  then show ?thesis by (simp add: v3UpdatePricing_def Let_def split: option.split)
qed

text \<open>What sends nothing.\<close>

definition v3_quiet :: "'p v3Globals \<Rightarrow> 'p v3Globals \<Rightarrow> bool" where
  "v3_quiet g g' \<longleftrightarrow> g3_out g' = g3_out g \<and> g3_Open g' = g3_Open g \<and> g3_ExchangeName g' = g3_ExchangeName g"

lemma v3_quiet_refl [simp, intro]: "v3_quiet g g" by (simp add: v3_quiet_def)

lemma v3_quiet_Register: "v3_quiet g (v3RegisterToken P m g)"
  by (simp add: v3_quiet_def v3RegisterToken_def Let_def split: option.split)

lemma v3_quiet_Derive: "v3_quiet g (snd (v3DeriveUSD fmt pm a b g))"
proof -
  have "v3_quiet g (v3MaybeSetWETHUSD r s g)" for r s
    by (auto simp: v3_quiet_def v3MaybeSetWETHUSD_def Let_def split: option.split)
  then have "v3_quiet g (snd (derive_weth pm a b g))" by (simp add: derive_weth_def Let_def)
  with DeriveUSD_globals [of fmt pm a b g] show ?thesis by auto
qed

lemma v3_quiet_trans: "v3_quiet a b \<Longrightarrow> v3_quiet b c \<Longrightarrow> v3_quiet a c"
  by (simp add: v3_quiet_def)

lemma v3_quiet_Ensure: "v3EnsurePoolMeta E P H calls pm g = (e, pm', g') \<Longrightarrow> v3_quiet g g'"
proof -
  assume en: "v3EnsurePoolMeta E P H calls pm g = (e, pm', g')"
  have "v3_quiet g (v3RegisterToken P t (v3RegisterToken P s (g\<lparr>g3_TokenCache := c\<rparr>)))" for t s c
    using v3_quiet_trans [OF v3_quiet_Register v3_quiet_Register, of "g\<lparr>g3_TokenCache := c\<rparr>"] by (simp add: v3_quiet_def)
  moreover have "g' = g \<or> (\<exists>c. g' = g\<lparr>g3_TokenCache := c\<rparr>) \<or> (\<exists>t s c. g' = v3RegisterToken P t (v3RegisterToken P s (g\<lparr>g3_TokenCache := c\<rparr>)))"
    using en unfolding v3EnsurePoolMeta_def by (fastforce split: if_splits sum.splits prod.splits)
  ultimately show ?thesis by (auto simp: v3_quiet_def)
qed

lemma v3_quiet_fetch: "v3_fetch_meta E P H calls pm g = (e, pm', g') \<Longrightarrow> v3_quiet g g'"
proof -
  assume f: "v3_fetch_meta E P H calls pm g = (e, pm', g')"
  obtain e1 pm1 g1 where en: "v3EnsurePoolMeta E P H calls pm (g\<lparr>g3_MetaUsed := g3_MetaUsed g + 1\<rparr>) = (e1, pm1, g1)" by (metis surj_pair)
  with f have "g' = g \<or> g' = v3ReleaseMetaSlot g1"
    by (cases e1) (auto simp: v3_fetch_meta_def v3TryAcquireMetaSlot_def split: if_splits)
  with v3_quiet_Ensure [OF en] show ?thesis by (auto simp: v3_quiet_def v3ReleaseMetaSlot_def)
qed

lemma EmitPair_sends:
  assumes "g3_Open g" and "upper_trim b \<noteq> []" and "upper_trim q \<noteq> []" and "pow2 (- 1021) \<le> v" and "v < pow2 1022"
  shows "\<exists>y n. v3EmitPair now b q (Some v) g = g\<lparr>g3_MessageCount := n, g3_out := g3_out g @
      [\<lparr>md_Exchange = g3_ExchangeName g, md_Symbol = upper_trim b @ upper_trim q, md_Price = Fin y, md_Timestamp = unix_milli now\<rparr>]\<rparr> \<and>
    \<bar>y - v\<bar> \<le> pow2 (- 52) * v"
proof -
  obtain y where y: "rat_float64 v = Fin y" "0 < y" "\<bar>y - v\<bar> \<le> pow2 (- 52) * v" using rat_float64_finite [OF assms(4,5)] by blast
  then show ?thesis
    using assms(1-3) upper_trim_pair [OF assms(2,3)]
    by (auto simp: v3EmitPair_def v3Publish_def v3_send_def upper_trim_def zero_f64_def is_nan_def is_inf_def Let_def)
qed

lemma normal_inverse:
  assumes "pow2 (- 1021) \<le> v" and "v \<le> pow2 1021"
  shows "0 < v" and "v < pow2 1022" and "1 / v < pow2 1022" and "pow2 (- 1021) \<le> 1 / v"
proof -
  show 0: "0 < v" using assms(1) pow2_pos [of "- 1021"] by linarith
  have two: "pow2 1022 = 2 * pow2 1021" using pow2_add [of 1 1021] by (simp add: pow2_def [of 1])
  have one: "pow2 (- 1021) * pow2 1021 = 1" using pow2_add [of "- 1021" 1021] by (simp add: pow2_def [of 0])
  show "v < pow2 1022" using assms(2) two pow2_pos [of 1021] by linarith
  have "1 \<le> v * pow2 1021" using mult_right_mono [OF assms(1) less_imp_le [OF pow2_pos], of 1021] one by simp
  then have "1 < v * pow2 1022" using two by simp
  then show "1 / v < pow2 1022" using 0 by (simp add: divide_less_eq mult.commute)
  have "pow2 (- 1021) * v \<le> 1" using mult_left_mono [OF assms(2) less_imp_le [OF pow2_pos], of "- 1021"] one by simp
  then show "pow2 (- 1021) \<le> 1 / v" using 0 by (simp add: le_divide_eq)
qed

text \<open>What becomes of the pool and of the prices before the messages are sent.\<close>

lemma v3_register_pool_effect:
  assumes "v3_register_pool P pm g = (pm', g')"
  shows "p3_Token0 pm' = p3_Token0 pm" and "p3_Token1 pm' = p3_Token1 pm" and "p3_Loaded pm' = p3_Loaded pm"
    and "p3_HasJSONMeta pm' = p3_HasJSONMeta pm" and "v3_quiet g g'"
  using assms v3_quiet_trans [OF v3_quiet_Register v3_quiet_Register] by (auto simp: v3_register_pool_def split: if_splits)

definition v3_price :: "v3PoolMeta \<Rightarrow> rat \<Rightarrow> rat" where
  "v3_price pm raw = (if (p3_Loaded pm \<or> p3_HasJSONMeta pm) \<and> t3_Dec (p3_Token0 pm) > 0 \<and> t3_Dec (p3_Token1 pm) > 0
     then raw * (of_int (v3Pow10 (t3_Dec (p3_Token0 pm))) / of_int (v3Pow10 (t3_Dec (p3_Token1 pm)))) else raw)"

lemma v3_prices_value: "0 < v3_price pm raw \<Longrightarrow> v3_prices pm raw = (Some (v3_price pm raw), Some (1 / v3_price pm raw))"
proof -
  assume "0 < v3_price pm raw"
  moreover have "v3_prices pm raw = (Some (v3_price pm raw), v3Invert (Some (v3_price pm raw)))"
    by (cases "(p3_Loaded pm \<or> p3_HasJSONMeta pm) \<and> t3_Dec (p3_Token0 pm) > 0 \<and> t3_Dec (p3_Token1 pm) > 0")
      (simp_all only: v3_prices_def v3DecimalAdjust_def Let_def v3_price_def if_True if_False simp_thms)
  ultimately show ?thesis by (simp add: v3Invert_def)
qed

text \<open>The two messages of a swap.\<close>

definition pair_message :: "string \<Rightarrow> string \<Rightarrow> string \<Rightarrow> rat \<Rightarrow> time \<Rightarrow> MarketData" where
  "pair_message ex b q y now =
     \<lparr>md_Exchange = ex, md_Symbol = upper_trim b @ upper_trim q, md_Price = Fin y, md_Timestamp = unix_milli now\<rparr>"

lemma EmitPair_both:
  assumes "g3_Open g" and "upper_trim b \<noteq> []" and "upper_trim q \<noteq> []" and "pow2 (- 1021) \<le> v" and "v \<le> pow2 1021"
  obtains y z where "\<bar>y - v\<bar> \<le> pow2 (- 52) * v" and "\<bar>z - 1 / v\<bar> \<le> pow2 (- 52) * (1 / v)"
    and "g3_out (v3EmitPair now q b (Some (1 / v)) (v3EmitPair now b q (Some v) g)) =
      g3_out g @ [pair_message (g3_ExchangeName g) b q y now, pair_message (g3_ExchangeName g) q b z now]"
proof -
  note n = normal_inverse [OF assms(4,5)]
  from EmitPair_sends [OF assms(1,2,3,4) n(2), of now] obtain y k where y: "\<bar>y - v\<bar> \<le> pow2 (- 52) * v"
    "v3EmitPair now b q (Some v) g =
       g\<lparr>g3_MessageCount := k, g3_out := g3_out g @ [pair_message (g3_ExchangeName g) b q y now]\<rparr>"
    unfolding pair_message_def by blast
  let ?g = "g\<lparr>g3_MessageCount := k, g3_out := g3_out g @ [pair_message (g3_ExchangeName g) b q y now]\<rparr>"
  have "g3_Open ?g" using assms(1) by simp
  from EmitPair_sends [OF this assms(3,2) n(4,3), of now] obtain z m where "\<bar>z - 1 / v\<bar> \<le> pow2 (- 52) * (1 / v)"
    "v3EmitPair now q b (Some (1 / v)) ?g =
       ?g\<lparr>g3_MessageCount := m, g3_out := g3_out ?g @ [pair_message (g3_ExchangeName ?g) q b z now]\<rparr>"
    unfolding pair_message_def by blast
  with y that show ?thesis by simp
qed

lemma v3_swap_messages:
  assumes "v3_fetch_meta E P H calls pm g = (False, pm', g')" and "g3_Open g"
    and "upper_trim (t3_Symbol (p3_Token0 pm')) \<noteq> []" and "upper_trim (t3_Symbol (p3_Token1 pm')) \<noteq> []"
    and "v = (if (p3_Loaded pm' \<or> p3_HasJSONMeta pm') \<and> t3_Dec (p3_Token0 pm') > 0 \<and> t3_Dec (p3_Token1 pm') > 0
       then raw * (of_int (v3Pow10 (t3_Dec (p3_Token0 pm'))) / of_int (v3Pow10 (t3_Dec (p3_Token1 pm')))) else raw)"
    and "pow2 (- 1021) \<le> v" and "v \<le> pow2 1021"
  shows "\<exists>g'' y z sent. v3_swap E P H calls fmt now addr pm raw x0 x1 g = (Handled, g'') \<and>
    g3_out g'' = g3_out g @
      [\<lparr>md_Exchange = g3_ExchangeName g, md_Symbol = upper_trim (t3_Symbol (p3_Token0 pm')) @ upper_trim (t3_Symbol (p3_Token1 pm')),
         md_Price = Fin y, md_Timestamp = unix_milli now\<rparr>,
       \<lparr>md_Exchange = g3_ExchangeName g, md_Symbol = upper_trim (t3_Symbol (p3_Token1 pm')) @ upper_trim (t3_Symbol (p3_Token0 pm')),
         md_Price = Fin z, md_Timestamp = unix_milli now\<rparr>] @ sent \<and>
    \<bar>y - v\<bar> \<le> pow2 (- 52) * v \<and> \<bar>z - 1 / v\<bar> \<le> pow2 (- 52) * (1 / v)"
proof -
  let ?b = "t3_Symbol (p3_Token0 pm')" and ?q = "t3_Symbol (p3_Token1 pm')"
  obtain pm2 g2 where r: "v3_register_pool P pm' g' = (pm2, g2)" by fastforce
  note pm2 = v3_register_pool_effect [OF r]
  have v: "v = v3_price pm2 raw" "0 < v" using normal_inverse [OF assms(6,7)] by (simp_all only: v3_price_def pm2 assms(5))
  obtain u g3 where d: "v3DeriveUSD fmt pm2 (Some v) (Some (1 / v)) g2 = (u, g3)" by fastforce
  then have "v3_quiet g g3"
    using v3_quiet_fetch [OF assms(1)] pm2(5) v3_quiet_Derive [of g2 fmt pm2 "Some v" "Some (1 / v)"] v3_quiet_trans by (metis snd_conv)
  then have g3: "g3_Open g3" "g3_out g3 = g3_out g" "g3_ExchangeName g3 = g3_ExchangeName g" using assms(2) by (simp_all add: v3_quiet_def)
  define g5 where "g5 = v3EmitPair now ?q ?b (Some (1 / v)) (v3EmitPair now ?b ?q (Some v) g3)"
  obtain y z where yz: "\<bar>y - v\<bar> \<le> pow2 (- 52) * v" "\<bar>z - 1 / v\<bar> \<le> pow2 (- 52) * (1 / v)"
    "g3_out g5 = g3_out g @ [pair_message (g3_ExchangeName g) ?b ?q y now, pair_message (g3_ExchangeName g) ?q ?b z now]"
    using EmitPair_both [OF g3(1) assms(3,4,6,7), of now] by (metis g3(2,3) g5_def)
  define g6 where "g6 = v3UpdatePricing E P now pm2 (Some v) (Some (1 / v)) (Some x0) (Some x1) g5"
  obtain sent where sent: "g3_out g6 = g3_out g5 @ sent" unfolding g6_def using sent_UpdatePricing by blast
  have "v3_swap E P H calls fmt now addr pm raw x0 x1 g = (Handled, g6\<lparr>g3_Pools := mput addr pm2 (g3_Pools g6)\<rparr>)"
    using v3_prices_value [of pm2 raw] v d by (simp add: v3_swap_def assms(1) r pm2(1,2) g5_def g6_def Let_def)
  with sent yz show ?thesis
    by (intro exI [of _ "g6\<lparr>g3_Pools := mput addr pm2 (g3_Pools g6)\<rparr>"] exI [of _ y] exI [of _ z] exI [of _ sent])
      (simp add: pair_message_def)
qed

text \<open>A frame that brings a Swap log of a pool: not an acknowledgement, not removed, with the topic of the event and
  at least five words of data, the third of which is the square root of the price in units of \<open>2\<^sup>-\<^sup>9\<^sup>6\<close>.\<close>

definition swap_frame :: "eth_lib \<Rightarrow> hexutil \<Rightarrow> v3_frame \<Rightarrow> address \<Rightarrow> int \<Rightarrow> bool" where
  "swap_frame E H raw addr s \<longleftrightarrow> v3TryAck (f3_ack raw) = None \<and>
     (\<exists>nt topic topics w0 w1 w2 w3 w4 rest. f3_note raw = Some nt \<and> equal_fold (n3_Method nt) ''eth_subscription'' \<and>
        \<not> l3_Removed (n3_Result nt) \<and> eth_HexToAddress E (l3_Address (n3_Result nt)) = addr \<and>
        l3_Topics (n3_Result nt) = topic # topics \<and> eth_HexToHash E topic = v3SwapSig E \<and> 2 \<le> length (l3_Data (n3_Result nt)) \<and>
        hx_Decode H (l3_Data (n3_Result nt)) = Some (w0 @ w1 @ w2 @ w3 @ w4 @ rest) \<and>
        map length [w0, w1, w2, w3, w4] = [32, 32, 32, 32, 32] \<and> set_bytes w2 = s)"

lemma swap_frame_Handle:
  assumes "swap_frame E H raw addr s" and "map_of (g3_Pools g) addr = Some pm" and "s \<noteq> 0"
  shows "\<exists>x0 x1. v3Handle E P H calls fmt now raw g = v3_swap E P H calls fmt now addr pm ((of_int s / 2 ^ 96)\<^sup>2) x0 x1 g"
proof -
  obtain nt topic topics w0 w1 w2 w3 w4 rest where f: "v3TryAck (f3_ack raw) = None" "f3_note raw = Some nt"
    "equal_fold (n3_Method nt) ''eth_subscription''" "\<not> l3_Removed (n3_Result nt)" "eth_HexToAddress E (l3_Address (n3_Result nt)) = addr"
    "l3_Topics (n3_Result nt) = topic # topics" "eth_HexToHash E topic = v3SwapSig E" "2 \<le> length (l3_Data (n3_Result nt))"
    "hx_Decode H (l3_Data (n3_Result nt)) = Some (w0 @ w1 @ w2 @ w3 @ w4 @ rest)"
    and w: "length w0 = 32" "length w1 = 32" "length w2 = 32" "length w3 = 32" "length w4 = 32" "set_bytes w2 = s"
    using assms(1) unfolding swap_frame_def by auto
  have "drop 64 (w0 @ w1 @ w2 @ w3 @ w4 @ rest) = w2 @ w3 @ w4 @ rest" using w by simp
  then have "take 32 (drop 64 (w0 @ w1 @ w2 @ w3 @ w4 @ rest)) = w2" using w by simp
  moreover have "v3PriceFromSqrt s = Some ((of_int s / 2 ^ 96)\<^sup>2)"
    using assms(3) by (simp add: v3PriceFromSqrt_def power_divide power2_eq_square)
  ultimately show ?thesis
    using f w assms(2) by (auto simp: v3Handle_def v3TryNote_def v3Process_def v3HandleSwap_def Let_def simp del: drop_append)
qed

text \<open>C9. A frame with a Swap log of a known pool, handled while the connector is open: if the fetch of the pool's
  metadata does not panic, it leaves both tokens with nonblank symbols, and the price lies in the range of normal
  numbers, then the first two messages sent are the pair and the inverse pair, each within a factor of
  \<open>2\<^sup>-\<^sup>5\<^sup>2\<close> of the price and of its inverse. The price is the square of the log's third word over
  \<open>2\<^sup>9\<^sup>6\<close>, scaled by the tokens' decimals only if both are known; otherwise the raw ratio of the contract is
  sent as the price.\<close>

theorem v3_swap_prices:
  assumes "swap_frame E H raw addr s" and "map_of (g3_Pools g) addr = Some pm" and "g3_Open g"
    and "v3_fetch_meta E P H calls pm g = (False, pm', g')"
    and "upper_trim (t3_Symbol (p3_Token0 pm')) \<noteq> []" and "upper_trim (t3_Symbol (p3_Token1 pm')) \<noteq> []"
    and "v = (of_int s / 2 ^ 96)\<^sup>2 *
       (if (p3_Loaded pm' \<or> p3_HasJSONMeta pm') \<and> t3_Dec (p3_Token0 pm') > 0 \<and> t3_Dec (p3_Token1 pm') > 0
        then 10 ^ unat (t3_Dec (p3_Token0 pm')) / 10 ^ unat (t3_Dec (p3_Token1 pm')) else 1)"
    and "pow2 (- 1021) \<le> v" and "v \<le> pow2 1021"
  shows "\<exists>g'' y z sent. v3Handle E P H calls fmt now raw g = (Handled, g'') \<and>
    g3_out g'' = g3_out g @
      [\<lparr>md_Exchange = g3_ExchangeName g, md_Symbol = upper_trim (t3_Symbol (p3_Token0 pm')) @ upper_trim (t3_Symbol (p3_Token1 pm')),
         md_Price = Fin y, md_Timestamp = unix_milli now\<rparr>,
       \<lparr>md_Exchange = g3_ExchangeName g, md_Symbol = upper_trim (t3_Symbol (p3_Token1 pm')) @ upper_trim (t3_Symbol (p3_Token0 pm')),
         md_Price = Fin z, md_Timestamp = unix_milli now\<rparr>] @ sent \<and>
    \<bar>y - v\<bar> \<le> pow2 (- 52) * v \<and> \<bar>z - 1 / v\<bar> \<le> pow2 (- 52) * (1 / v)"
proof -
  have "0 < v" using assms(8) pow2_pos [of "- 1021"] by linarith
  then have "s \<noteq> 0" using assms(7) by (cases "s = 0") simp_all
  from swap_frame_Handle [OF assms(1,2) this, of P calls fmt now] obtain x0 x1 where
    h: "v3Handle E P H calls fmt now raw g = v3_swap E P H calls fmt now addr pm ((of_int s / 2 ^ 96)\<^sup>2) x0 x1 g" by blast
  have "v = (if (p3_Loaded pm' \<or> p3_HasJSONMeta pm') \<and> t3_Dec (p3_Token0 pm') > 0 \<and> t3_Dec (p3_Token1 pm') > 0
       then (of_int s / 2 ^ 96)\<^sup>2 * (of_int (v3Pow10 (t3_Dec (p3_Token0 pm'))) / of_int (v3Pow10 (t3_Dec (p3_Token1 pm'))))
       else (of_int s / 2 ^ 96)\<^sup>2)"
    unfolding assms(7) v3Pow10_def by (simp only: of_int_power of_int_numeral mult_1_right split: if_split) blast
  from v3_swap_messages [OF assms(4,3,5,6) this assms(8,9)] show ?thesis unfolding h .
qed

text \<open>A subscription that succeeds covers the pools: one request per batch, numbered from 1, none empty or larger
  than the batch size, and together they name the address of every pool once, in sorted order.\<close>

theorem v3SubscribeAll_covers:
  assumes "v3SubscribeAll E writes g = (None, sent)" and "0 < g3_BatchSize g" and "eth_ok E" and "distinct (map fst (g3_Pools g))"
  shows "set (concat (map snd sent)) = eth_Hex E ` fst ` set (g3_Pools g) \<and> distinct (concat (map snd sent)) \<and>
    sorted (concat (map snd sent)) \<and> map fst sent = [1..int (length sent)] \<and>
    list_all (\<lambda>r. snd r \<noteq> [] \<and> int (length (snd r)) \<le> g3_BatchSize g) sent"
proof -
  define as where "as = sort (map (\<lambda>(a, _). eth_Hex E a) (g3_Pools g))"
  define reqs where "reqs = subscribe_batches (nat (g3_BatchSize g) - 1) 1 as"
  have "sent = takeWhile (\<lambda>r. writes (fst r)) reqs" "length sent = length reqs"
    using assms(1) unfolding v3SubscribeAll_def as_def [symmetric] reqs_def [symmetric] Let_def by (auto split: if_splits)
  then have sent: "sent = reqs" by (metis length_takeWhile_le order_refl take_all takeWhile_eq_take)
  have "inj (eth_Hex E)" using assms(3) by (auto simp: eth_ok_def inj_def)
  then have "distinct (map (eth_Hex E) (map fst (g3_Pools g)))" using assms(4) by (simp add: distinct_map inj_on_def)
  moreover have "as = sort (map (eth_Hex E) (map fst (g3_Pools g)))" by (simp add: as_def case_prod_unfold comp_def)
  ultimately have "distinct as" "sorted as" "set as = eth_Hex E ` fst ` set (g3_Pools g)" by (simp_all add: image_image)
  moreover have "int n \<le> g3_BatchSize g" if "n \<le> Suc (nat (g3_BatchSize g) - 1)" for n using that assms(2) by linarith
  ultimately show ?thesis
    using subscribe_batches_ok [of "nat (g3_BatchSize g) - 1" 1 as] unfolding sent reqs_def [symmetric] list_all_iff by auto
qed

subsection \<open>Concrete runs\<close>

definition plain_hex :: hexutil where
  "plain_hex = \<lparr>hx_Decode = (\<lambda>s. if has_prefix s ''0x'' then hex_decode (trim_prefix s ''0x'') else None), hx_Encode = (\<lambda>_. ''0x'')\<rparr>"

definition demo_token3 :: "address \<Rightarrow> string \<Rightarrow> 8 word \<Rightarrow> v3TokenMeta" where
  "demo_token3 a s d = \<lparr>t3_Address = a, t3_Symbol = s, t3_Dec = d\<rparr>"

text \<open>A pool of two tokens with 18 and 6 decimals that the file does not give.\<close>

definition demo_pool3 :: v3PoolMeta where
  "demo_pool3 = \<lparr>p3_Addr = 9, p3_PairName = ''ABC / USDC'', p3_Token0 = demo_token3 5 ''ABC'' 0, p3_Token1 = demo_token3 7 ''USDC'' 0,
     p3_Loaded = False, p3_Loading = False, p3_LoadErr = None, p3_HasJSONMeta = False, p3_Registered = False, p3_Verified = False\<rparr>"

definition demo_globals :: "GraphPricer v3Globals" where
  "demo_globals = \<lparr>g3_Pools = [(9, demo_pool3)], g3_BatchSize = 150, g3_WSURL = [], g3_HTTPURL = [], g3_StopOnErrAck = False,
     g3_LogAllEvents = False, g3_DecodeSwapOnly = False, g3_TokenCache = Map.empty, g3_Registry = None, g3_WETHAddress = 0,
     g3_StableLookup = [], g3_WETHUSD = None, g3_WETHUSDStable = [], g3_MetaCap = 8, g3_MetaUsed = 0, g3_PingInterval = 25 * second,
     g3_Open = True, g3_ExchangeName = ''uniswap_v3'', g3_Pricer = None, g3_MessageCount = 0, g3_ReconnectCount = 0, g3_out = []\<rparr>"

text \<open>The same pool as the file of \<open>demo_entry3\<close> gives it, with decimals.\<close>

definition known_pool3 :: v3PoolMeta where
  "known_pool3 = demo_pool3\<lparr>p3_Token0 := demo_token3 5 ''ABC'' 18, p3_Token1 := demo_token3 7 ''USDC'' 6, p3_HasJSONMeta := True\<rparr>"

text \<open>The data of a log: words of 32 bytes in hexadecimal.\<close>

definition words_hex :: "int list \<Rightarrow> string" where
  "words_hex ws = ''0x'' @ concat (map (hex_digits 64) ws)"

lemma hex_decode_words:
  "\<forall>w \<in> set ws. 0 \<le> w \<and> w < 16 ^ 64 \<Longrightarrow>
     \<exists>bss. hex_decode (concat (map (hex_digits 64) ws)) = Some (concat bss) \<and> map length bss = map (\<lambda>_. 32) ws \<and> map set_bytes bss = ws"
proof (induction ws)
  case (Cons w ws)
  then obtain bss where bss: "hex_decode (concat (map (hex_digits 64) ws)) = Some (concat bss)" "map length bss = map (\<lambda>_. 32) ws"
    "map set_bytes bss = ws" by auto
  from Cons.prems hex_decode_digits [of w 32] obtain bs where "hex_decode (hex_digits 64 w) = Some bs" "length bs = 32" "set_bytes bs = w"
    by auto
  with bss show ?case by (intro exI [of _ "bs # bss"]) (simp add: hex_decode_append del: hex_digits.simps)
qed simp

definition demo_swap3 :: "int \<Rightarrow> v3_frame" where
  "demo_swap3 s = \<lparr>f3_ack = None, f3_note = Some \<lparr>n3_Method = ''eth_subscription'', n3_Result =
     \<lparr>l3_Address = ''0x9'', l3_Data = words_hex [1, 1, s, 1, 0],
      l3_Topics = [''0xc42079f94a6350d7e6235f29174924f928cc2ac818eb64fed8004e115fbcca67''], l3_Removed = False\<rparr>\<rparr>\<rparr>"

lemma demo_swap3_frame: "0 \<le> s \<Longrightarrow> s < 16 ^ 64 \<Longrightarrow> swap_frame plain_eth plain_hex (demo_swap3 s) 9 s"
proof -
  assume s: "0 \<le> s" "s < 16 ^ 64"
  then have "\<forall>w \<in> set [1, 1, s, 1, 0]. 0 \<le> w \<and> w < 16 ^ 64" by simp
  from hex_decode_words [OF this] obtain bss where
    bss: "hex_decode (concat (map (hex_digits 64) [1, 1, s, 1, 0])) = Some (concat bss)"
      "map length bss = map (\<lambda>_. 32) [1, 1, s, 1, 0]" "map set_bytes bss = [1, 1, s, 1, 0]"
    by (elim exE conjE)
  from bss(3) obtain w0 w1 w2 w3 w4 where w: "bss = [w0, w1, w2, w3, w4]" by (auto simp: map_eq_Cons_conv)
  have d: "hx_Decode plain_hex (words_hex [1, 1, s, 1, 0]) = Some (w0 @ w1 @ w2 @ w3 @ w4 @ [])"
    using bss(1) unfolding w by (simp add: plain_hex_def words_hex_def has_prefix_def trim_prefix_def del: hex_digits.simps)
  have a: "eth_HexToAddress plain_eth ''0x9'' = 9"
  proof -
    have "hex_read 0 (trim_prefix ''0x9'' ''0x'') = 9" by code_simp
    then show ?thesis by (simp add: plain_eth_def)
  qed
  have "equal_fold ''eth_subscription'' ''eth_subscription''" by (simp add: equal_fold_def)
  moreover have "2 \<le> length (words_hex ws)" for ws by (simp add: words_hex_def)
  moreover have "map length [w0, w1, w2, w3, w4] = [32, 32, 32, 32, 32]" "set_bytes w2 = s" using bss(2,3) unfolding w by simp_all
  ultimately have "\<exists>w0 w1 w2 w3 w4 rest. equal_fold ''eth_subscription'' ''eth_subscription'' \<and> 2 \<le> length (words_hex [1, 1, s, 1, 0]) \<and>
      hx_Decode plain_hex (words_hex [1, 1, s, 1, 0]) = Some (w0 @ w1 @ w2 @ w3 @ w4 @ rest) \<and>
      map length [w0, w1, w2, w3, w4] = [32, 32, 32, 32, 32] \<and> set_bytes w2 = s"
    using d by (intro exI [of _ w0] exI [of _ w1] exI [of _ w2] exI [of _ w3] exI [of _ w4] exI [of _ "[]"] conjI) assumption+
  with a show ?thesis by (simp add: swap_frame_def demo_swap3_def v3SwapSig_def v3TryAck_def)
qed

text \<open>The node is down: the metadata are never loaded.\<close>

definition dead_node :: v3_calls where
  "dead_node i to data = None"

lemma dead_fetch:
  "p3_Verified pm = False \<Longrightarrow> p3_Loading pm = False \<Longrightarrow> g3_MetaUsed g < g3_MetaCap g \<Longrightarrow>
     v3_fetch_meta E P H dead_node pm g = (False, pm\<lparr>p3_LoadErr := Some V3CallFailed\<rparr>, g)"
  by (simp add: v3_fetch_meta_def v3TryAcquireMetaSlot_def v3EnsurePoolMeta_def v3CallAddress_def dead_node_def v3ReleaseMetaSlot_def)

lemma known_symbols: "upper_trim ''ABC'' = ''ABC''" "upper_trim ''USDC'' = ''USDC''"
  by code_simp+

text \<open>The pool after the failed fetch, and the price of a swap at the ratio \<open>2\<^sup>-\<^sup>4\<^sup>0\<close>.\<close>

definition failed_pool3 :: v3PoolMeta where
  "failed_pool3 = known_pool3\<lparr>p3_LoadErr := Some V3CallFailed\<rparr>"

lemma failed_pool3_fields:
  "t3_Symbol (p3_Token0 failed_pool3) = ''ABC''" "t3_Symbol (p3_Token1 failed_pool3) = ''USDC''"
  "t3_Dec (p3_Token0 failed_pool3) = 18" "t3_Dec (p3_Token1 failed_pool3) = 6" "p3_HasJSONMeta failed_pool3"
  by (simp_all add: failed_pool3_def known_pool3_def demo_pool3_def demo_token3_def)

lemma failed_pool3_named:
  "upper_trim (t3_Symbol (p3_Token0 failed_pool3)) \<noteq> []" "upper_trim (t3_Symbol (p3_Token1 failed_pool3)) \<noteq> []"
  unfolding failed_pool3_fields known_symbols by simp_all

lemma known_pool3_fetch:
  "g3_MetaUsed g < g3_MetaCap g \<Longrightarrow> v3_fetch_meta E P H dead_node known_pool3 g = (False, failed_pool3, g)"
  unfolding failed_pool3_def by (rule dead_fetch) (simp_all add: known_pool3_def demo_pool3_def)

definition demo_price3 :: rat where "demo_price3 = 10 ^ 12 / 2 ^ 40"

lemma demo_price3_normal: "pow2 (- 1021) \<le> demo_price3" "demo_price3 \<le> pow2 1021"
  by (simp_all add: pow2_def demo_price3_def)

lemma demo_price3_eq:
  "demo_price3 = (of_int (2 ^ 76) / 2 ^ 96)\<^sup>2 *
     (if (p3_Loaded failed_pool3 \<or> p3_HasJSONMeta failed_pool3) \<and> t3_Dec (p3_Token0 failed_pool3) > 0 \<and> t3_Dec (p3_Token1 failed_pool3) > 0
      then 10 ^ unat (t3_Dec (p3_Token0 failed_pool3)) / 10 ^ unat (t3_Dec (p3_Token1 failed_pool3)) else 1)"
proof -
  have u: "unat (18 :: 8 word) = 18" "unat (6 :: 8 word) = 6" by simp_all
  have k: "(p3_Loaded failed_pool3 \<or> p3_HasJSONMeta failed_pool3) \<and> (0 :: 8 word) < 18 \<and> (0 :: 8 word) < 6"
    using failed_pool3_fields(5) by simp
  show ?thesis unfolding failed_pool3_fields(3,4) if_P [OF k] demo_price3_def u by (simp add: power2_eq_square)
qed

lemma demo_swap3_ok: "swap_frame plain_eth plain_hex (demo_swap3 (2 ^ 76)) 9 (2 ^ 76)"
  by (rule demo_swap3_frame) simp_all

theorem v3_swap_prices_witness:
  "\<exists>g' y z sent. v3Handle plain_eth (graph_pricer plain_eth in_order 9) plain_hex dead_node (\<lambda>_. []) 7 (demo_swap3 (2 ^ 76))
        (demo_globals\<lparr>g3_Pools := [(9, known_pool3)]\<rparr>) = (Handled, g') \<and>
     g3_out g' = [\<lparr>md_Exchange = ''uniswap_v3'', md_Symbol = ''ABCUSDC'', md_Price = Fin y, md_Timestamp = unix_milli 7\<rparr>,
       \<lparr>md_Exchange = ''uniswap_v3'', md_Symbol = ''USDCABC'', md_Price = Fin z, md_Timestamp = unix_milli 7\<rparr>] @ sent \<and>
     \<bar>y - 10 ^ 12 / 2 ^ 40\<bar> \<le> pow2 (- 52) * (10 ^ 12 / 2 ^ 40)"
proof -
  let ?g = "demo_globals\<lparr>g3_Pools := [(9, known_pool3)]\<rparr>"
  have g: "map_of (g3_Pools ?g) 9 = Some known_pool3" "g3_Open ?g" "g3_MetaUsed ?g < g3_MetaCap ?g" "g3_out ?g = []"
    "g3_ExchangeName ?g = ''uniswap_v3''"
    by (simp_all add: demo_globals_def)
  have c: "''ABC'' @ ''USDC'' = ''ABCUSDC''" "''USDC'' @ ''ABC'' = ''USDCABC''" by simp_all
  from v3_swap_prices [OF demo_swap3_ok g(1,2) known_pool3_fetch [OF g(3)] failed_pool3_named demo_price3_eq demo_price3_normal,
      of "graph_pricer plain_eth in_order 9" "\<lambda>_. []" 7]
  show ?thesis unfolding failed_pool3_fields known_symbols g(4,5) c append_Nil demo_price3_def by blast
qed

lemma demo_swap3_sent:
  assumes "map_of (g3_Pools g) 9 = Some known_pool3" and "g3_Open g" and "g3_MetaUsed g < g3_MetaCap g"
  shows "\<exists>g'. v3Handle plain_eth P plain_hex dead_node fmt now (demo_swap3 (2 ^ 76)) g = (Handled, g') \<and> length (g3_out g') \<ge> 2"
proof -
  obtain x0 x1 where h: "v3Handle plain_eth P plain_hex dead_node fmt now (demo_swap3 (2 ^ 76)) g =
      v3_swap plain_eth P plain_hex dead_node fmt now 9 known_pool3 ((of_int (2 ^ 76) / 2 ^ 96)\<^sup>2) x0 x1 g"
    using swap_frame_Handle [OF demo_swap3_ok assms(1), of P dead_node fmt now] by auto
  have "demo_price3 = (if (p3_Loaded failed_pool3 \<or> p3_HasJSONMeta failed_pool3) \<and> t3_Dec (p3_Token0 failed_pool3) > 0 \<and> t3_Dec (p3_Token1 failed_pool3) > 0
      then (of_int (2 ^ 76) / 2 ^ 96)\<^sup>2 * (of_int (v3Pow10 (t3_Dec (p3_Token0 failed_pool3))) / of_int (v3Pow10 (t3_Dec (p3_Token1 failed_pool3))))
      else (of_int (2 ^ 76) / 2 ^ 96)\<^sup>2)"
    unfolding demo_price3_eq v3Pow10_def by (simp only: of_int_power of_int_numeral mult_1_right split: if_split) blast
  from v3_swap_messages [OF known_pool3_fetch [OF assms(3)] assms(2) failed_pool3_named this demo_price3_normal, of plain_eth P plain_hex fmt now 9 x0 x1]
  show ?thesis unfolding h by fastforce
qed

theorem v3SubscribeAll_covers_witness:
  "\<exists>sent. v3SubscribeAll plain_eth (\<lambda>_. True) demo_globals = (None, sent) \<and> concat (map snd sent) = [eth_Hex plain_eth 9]"
proof -
  obtain sent where s: "v3SubscribeAll plain_eth (\<lambda>_. True) demo_globals = (None, sent)"
    by (simp add: v3SubscribeAll_def demo_globals_def)
  have "0 < g3_BatchSize demo_globals" "distinct (map fst (g3_Pools demo_globals))" "g3_Pools demo_globals = [(9, demo_pool3)]"
    by (simp_all add: demo_globals_def)
  with v3SubscribeAll_covers [OF s _ plain_eth_ok] have "set (concat (map snd sent)) = {eth_Hex plain_eth 9}" "distinct (concat (map snd sent))"
    by simp_all
  then have "concat (map snd sent) = [eth_Hex plain_eth 9]" 
    by (cases "concat (map snd sent)"; cases "tl (concat (map snd sent))") auto
  with s show ?thesis by blast
qed

text \<open>A run that connects, subscribes to the pool of the file, sends the prices of a swap although the node is down,
  and stops of a refused subscription.\<close>

definition demo_refusal3 :: v3_frame where
  "demo_refusal3 = \<lparr>f3_ack = Some \<lparr>a3_Result = [], a3_Error = Some (-32000, ''denied'')\<rparr>, f3_note = None\<rparr>"

definition demo_round3 :: v3_round where
  "demo_round3 = \<lparr>r3_cancelled = False, r3_dial = True, r3_writes = (\<lambda>_. True),
     r3_events = [Y3Msg 7 (\<lambda>_. dead_node) (demo_swap3 (2 ^ 76)), Y3Msg 8 (\<lambda>_. dead_node) demo_refusal3], r3_slept = True\<rparr>"

definition stop_cfg3 :: V3Config where
  "stop_cfg3 = demo_cfg3\<lparr>c3_StopOnAckError := True\<rparr>"

lemma stop_pools3: "v3LoadPools plain_eth (\<lambda>_. []) (\<lambda>_. Some ()) (\<lambda>_. Some [demo_entry3 ''uniswap_v3'']) stop_cfg3 = Inr [(9, known_pool3)]"
  by code_simp

lemma stop_urls3: "v3ResolveWS (\<lambda>_. []) stop_cfg3 = Inr (''wss://node'', ''https://node'')"
  by code_simp

lemma stop_start3:
  assumes "g0 = v3_start stop_cfg3 pricer (v3InitAssets plain_eth None (demo_globals\<lparr>g3_WSURL := ws, g3_HTTPURL := url, g3_Pools := [(9, known_pool3)]\<rparr>))"
  shows "map_of (g3_Pools g0) 9 = Some known_pool3" "g3_Pools g0 = [(9, known_pool3)]" "g3_Open g0" "g3_MetaUsed g0 < g3_MetaCap g0"
    "g3_StopOnErrAck g0" "g3_BatchSize g0 = 150"
  using assms by (simp_all add: v3_start_def v3InitAssets_def stop_cfg3_def demo_cfg3_def Let_def)


end
