(* ===== verification/V4_Pools.thy ===== *)
theory V4_Pools
  imports Token_Registry Util
begin

text \<open>
  The pools of the Uniswap V4 connector (\<open>v4_connector.go\<close>): configuration, the checks of inline pools, the
  GeckoTerminal file, and the filter of wanted pairs. The registry may be nil (\<open>None\<close>). A cancelled context
  is seen by the loops at the index where \<open>cancelled\<close> holds.
\<close>

record V4PoolConfig =
  p4_PoolID :: hash
  p4_PoolAddress :: address
  p4_HookAddress :: address
  p4_PairName :: string
  p4_Token0 :: TokenMeta
  p4_Token1 :: TokenMeta
  p4_BaseIsToken0 :: bool
  p4_CanonicalPair :: string

record V4Config =
  c4_Exchange :: string
  c4_Network :: string
  c4_WSURL :: string
  c4_HTTPURL :: string
  c4_PoolManager :: address
  c4_PoolsPath :: string
  c4_Pools :: "V4PoolConfig list"
  c4_SubscribeBatch :: int
  c4_PingInterval :: int
  c4_MaxMetaWorkers :: int
  c4_SwapOnly :: bool
  c4_LogAllEvents :: bool
  c4_StopOnAckError :: bool
  c4_Once :: bool
  c4_WantedPairs :: "string list"
  c4_WantedPairsOnly :: bool
  c4_Registry :: "TokenRegistry option"

record GeckoToken =
  g4_Address :: string
  g4_Symbol :: string
  g4_Decimals :: int

record GeckoEntry =
  ge_Dex :: string
  ge_Network :: string
  ge_PairName :: string
  ge_PoolID :: string
  ge_PoolAddr :: string
  ge_Token0 :: GeckoToken
  ge_Token1 :: GeckoToken
  ge_Hooks :: string

definition geckoIntOrText_UnmarshalJSON :: "(string \<Rightarrow> string option) \<Rightarrow> (string \<Rightarrow> int option) \<Rightarrow> string \<Rightarrow> int option" where
  "geckoIntOrText_UnmarshalJSON json_string json_int data0 =
     (let data = trim_space data0 in
      if data = [] \<or> data = ''null'' then Some 0
      else if hd data = CHR 0x22 then
        (case json_string data of None \<Rightarrow> None
         | Some s0 \<Rightarrow> (let s = trim_space s0 in if s = [] then Some 0 else parse_int64 s))
      else json_int data)"

datatype token_error = InvalidAddress string | EmptyAddress | TokenDecimals string

datatype v4_error =
    WantedListEmpty | InlinePool nat v4_error | MissingPoolID string | Token0Error token_error | Token1Error token_error
  | ReadPoolsFile | DecodePoolsFile | InvalidPoolID string | StablePool string | NoPoolsResolved | ContextCancelled
  | PricerRequired | UrlsRequired | PoolManagerRequired
  | AckTimeout int | AckRejected int | ReaderClosed | ReadFailed | SubscribeFailed | OnceComplete | AbiUnreadable

subsection \<open>Names\<close>

definition defaultExchangeName :: string where
  "defaultExchangeName = ''uniswap_v4''"

definition pairKey :: "string \<Rightarrow> string" where
  "pairKey name = to_upper (trim_space name)"

definition normalizePairName :: "string \<Rightarrow> string \<Rightarrow> string \<Rightarrow> string" where
  "normalizePairName current symbol0 symbol1 =
     (let name = trim_space current in
      to_upper (if name = [] then to_upper symbol0 @ ''/'' @ to_upper symbol1 else name))"

definition canonicalPair :: "V4PoolConfig \<Rightarrow> string" where
  "canonicalPair pool =
     (let base = tm_Symbol (p4_Token0 pool); quote = tm_Symbol (p4_Token1 pool) in
      if \<not> p4_BaseIsToken0 pool then quote @ base else base @ quote)"

definition poolBaseSymbol :: "V4PoolConfig \<Rightarrow> string" where
  "poolBaseSymbol pool = (if p4_BaseIsToken0 pool then tm_Symbol (p4_Token0 pool) else tm_Symbol (p4_Token1 pool))"

definition poolQuoteSymbol :: "V4PoolConfig \<Rightarrow> string" where
  "poolQuoteSymbol pool = (if p4_BaseIsToken0 pool then tm_Symbol (p4_Token1 pool) else tm_Symbol (p4_Token0 pool))"

definition chooseBaseToken :: "TokenMeta \<Rightarrow> TokenMeta \<Rightarrow> bool" where
  "chooseBaseToken t0 t1 =
     (if tm_IsStable t0 \<and> \<not> tm_IsStable t1 then False
      else if tm_IsStable t1 \<and> \<not> tm_IsStable t0 then True else True)"

definition parseOptionalAddress :: "eth_lib \<Rightarrow> string \<Rightarrow> address" where
  "parseOptionalAddress E raw =
     (let addr = trim_space raw in
      if addr = [] then 0
      else if has_prefix (to_lower addr) ''0x'' \<and> length addr = 66 then 0
      else if \<not> eth_IsHexAddress E addr then 0
      else eth_HexToAddress E addr)"

subsection \<open>Tokens\<close>

text \<open>The common end of both functions: clamped decimals with 18 for zero.\<close>

definition finish_meta :: "TokenMeta \<Rightarrow> (token_error, TokenMeta) result" where
  "finish_meta meta0 =
     (let meta = meta0\<lparr>tm_Decimals := clampDecimals (tm_Decimals meta0)\<rparr>;
          meta = (if tm_Decimals meta = 0 then meta\<lparr>tm_Decimals := 18\<rparr> else meta)
      in if tm_Decimals meta \<le> 0 then Inl (TokenDecimals (tm_Symbol meta)) else Inr meta)"

definition buildTokenMeta ::
    "eth_lib \<Rightarrow> TokenRegistry option \<Rightarrow> string \<Rightarrow> string \<Rightarrow> int \<Rightarrow> (token_error, TokenMeta) result" where
  "buildTokenMeta E registry addr symbol decimals =
     (let addrTrim = trim_space addr in
      if \<not> eth_IsHexAddress E addrTrim then Inl (InvalidAddress addr)
      else let address = eth_HexToAddress E addrTrim;
               meta = \<lparr>tm_Address = address, tm_Symbol = to_upper (trim_space symbol), tm_Decimals = clampDecimals decimals,
                       tm_IsStable = False, tm_IsWETH = False\<rparr>;
               meta = (case registry of None \<Rightarrow> meta
                 | Some r \<Rightarrow>
                     (let resolved = Resolve E r address symbol decimals in
                      if tm_Address resolved \<noteq> 0 then resolved
                      else meta\<lparr>tm_IsStable := tm_IsStable resolved, tm_IsWETH := tm_IsWETH resolved,
                        tm_Symbol := (if tm_Symbol resolved \<noteq> [] then tm_Symbol resolved else tm_Symbol meta),
                        tm_Decimals := (if tm_Decimals resolved \<noteq> 0 then clampDecimals (tm_Decimals resolved) else tm_Decimals meta)\<rparr>));
               meta = (if tm_Symbol meta = [] then meta\<lparr>tm_Symbol := to_upper (shortAddress (eth_Hex E address))\<rparr> else meta)
           in finish_meta meta)"

definition enrichTokenMeta :: "eth_lib \<Rightarrow> TokenRegistry option \<Rightarrow> TokenMeta \<Rightarrow> (token_error, TokenMeta) result" where
  "enrichTokenMeta E registry meta0 =
     (if tm_Address meta0 = 0 then Inl EmptyAddress
      else let symbol = to_upper (trim_space (tm_Symbol meta0));
               (meta, symbol) = (case registry of None \<Rightarrow> (meta0, symbol)
                 | Some r \<Rightarrow>
                     (let resolved = Resolve E r (tm_Address meta0) symbol (tm_Decimals meta0) in
                      if tm_Address resolved \<noteq> 0 then (resolved, symbol)
                      else (meta0\<lparr>tm_Decimals := (if tm_Decimals resolved \<noteq> 0 then clampDecimals (tm_Decimals resolved) else tm_Decimals meta0),
                              tm_IsStable := tm_IsStable meta0 \<or> tm_IsStable resolved,
                              tm_IsWETH := tm_IsWETH meta0 \<or> tm_IsWETH resolved\<rparr>,
                            if tm_Symbol resolved \<noteq> [] then tm_Symbol resolved else symbol)));
               symbol = (if symbol = [] then to_upper (shortAddress (eth_Hex E (tm_Address meta))) else symbol)
           in finish_meta (meta\<lparr>tm_Symbol := symbol\<rparr>))"

subsection \<open>Pools\<close>

text \<open>The set of wanted pairs is the list of its keys; a pool filtered out is \<open>None\<close>.\<close>

definition wantedSet :: "V4Config \<Rightarrow> string list" where
  "wantedSet cfg = filter (\<lambda>k. k \<noteq> []) (map pairKey (c4_WantedPairs cfg))"

definition normalizeInlinePool ::
    "eth_lib \<Rightarrow> TokenRegistry option \<Rightarrow> string list \<Rightarrow> bool \<Rightarrow> V4PoolConfig \<Rightarrow> (v4_error, V4PoolConfig option) result" where
  "normalizeInlinePool E registry wanted wanted_only pool =
     (if wanted_only \<and> pairKey (p4_PairName pool) \<notin> set wanted then Inr None
      else if p4_PoolID pool = 0 then Inl (MissingPoolID (p4_PairName pool))
      else case enrichTokenMeta E registry (p4_Token0 pool) of Inl e \<Rightarrow> Inl (Token0Error e)
      | Inr token0 \<Rightarrow> (case enrichTokenMeta E registry (p4_Token1 pool) of Inl e \<Rightarrow> Inl (Token1Error e)
         | Inr token1 \<Rightarrow>
             (let normalized = pool\<lparr>p4_Token0 := token0, p4_Token1 := token1,
                     p4_PairName := normalizePairName (p4_PairName pool) (tm_Symbol token0) (tm_Symbol token1)\<rparr>
              in Inr (Some (if p4_CanonicalPair normalized = []
                   then normalized\<lparr>p4_CanonicalPair := canonicalPair normalized\<rparr> else normalized)))))"

definition poolFromGecko :: "eth_lib \<Rightarrow> TokenRegistry option \<Rightarrow> GeckoEntry \<Rightarrow> (v4_error, V4PoolConfig) result" where
  "poolFromGecko E registry entry =
     (let poolID = trim_space (ge_PoolID entry) in
      if \<not> has_prefix poolID ''0x'' \<or> length poolID \<noteq> 66 then Inl (InvalidPoolID (ge_PoolID entry))
      else case buildTokenMeta E registry (g4_Address (ge_Token0 entry)) (g4_Symbol (ge_Token0 entry)) (g4_Decimals (ge_Token0 entry)) of
        Inl e \<Rightarrow> Inl (Token0Error e)
      | Inr token0 \<Rightarrow> (case buildTokenMeta E registry (g4_Address (ge_Token1 entry)) (g4_Symbol (ge_Token1 entry)) (g4_Decimals (ge_Token1 entry)) of
           Inl e \<Rightarrow> Inl (Token1Error e)
         | Inr token1 \<Rightarrow>
             (let base0 = chooseBaseToken token0 token1;
                  pairName = normalizePairName (ge_PairName entry) (tm_Symbol token0) (tm_Symbol token1);
                  pool = \<lparr>p4_PoolID = eth_HexToHash E poolID, p4_PoolAddress = parseOptionalAddress E (ge_PoolAddr entry),
                    p4_HookAddress = parseOptionalAddress E (ge_Hooks entry), p4_PairName = pairName, p4_Token0 = token0,
                    p4_Token1 = token1, p4_BaseIsToken0 = base0, p4_CanonicalPair = []\<rparr>
              in if tm_IsStable token0 \<and> tm_IsStable token1 then Inl (StablePool pairName)
                 else Inr (pool\<lparr>p4_CanonicalPair := canonicalPair pool\<rparr>))))"

fun inline_loop ::
    "eth_lib \<Rightarrow> V4Config \<Rightarrow> (nat \<Rightarrow> bool) \<Rightarrow> nat \<Rightarrow> V4PoolConfig list \<Rightarrow> (v4_error, V4PoolConfig list) result" where
  "inline_loop E cfg cancelled i [] = Inr []"
| "inline_loop E cfg cancelled i (pool # pools) =
     (if cancelled i then Inl ContextCancelled
      else case normalizeInlinePool E (c4_Registry cfg) (wantedSet cfg) (c4_WantedPairsOnly cfg) pool of
        Inl e \<Rightarrow> Inl (InlinePool i e)
      | Inr normalized \<Rightarrow> bind_res (inline_loop E cfg cancelled (Suc i) pools)
          (\<lambda>rest. Inr (case normalized of None \<Rightarrow> rest | Some p \<Rightarrow> p # rest)))"

text \<open>An entry of the file that passes the filters, and the loop over the entries.\<close>

definition entry_wanted :: "V4Config \<Rightarrow> GeckoEntry \<Rightarrow> bool" where
  "entry_wanted cfg entry \<longleftrightarrow>
     (let networkFilter = trim_space (c4_Network cfg) in
      equal_fold (ge_Dex entry) ''uniswap_v4'' \<and> \<not> (networkFilter \<noteq> [] \<and> \<not> equal_fold (ge_Network entry) networkFilter) \<and>
      \<not> (c4_WantedPairsOnly cfg \<and> pairKey (ge_PairName entry) \<notin> set (wantedSet cfg)))"

fun file_loop ::
    "eth_lib \<Rightarrow> V4Config \<Rightarrow> (nat \<Rightarrow> bool) \<Rightarrow> nat \<Rightarrow> GeckoEntry list \<Rightarrow> (v4_error, V4PoolConfig list) result" where
  "file_loop E cfg cancelled i [] = Inr []"
| "file_loop E cfg cancelled i (entry # entries) =
     (if cancelled i then Inl ContextCancelled
      else if \<not> entry_wanted cfg entry then file_loop E cfg cancelled (Suc i) entries
      else case poolFromGecko E (c4_Registry cfg) entry of
        Inl e \<Rightarrow> file_loop E cfg cancelled (Suc i) entries
      | Inr pool \<Rightarrow> bind_res (file_loop E cfg cancelled (Suc i) entries) (\<lambda>rest. Inr (pool # rest)))"

definition defaultPoolsPath :: string where
  "defaultPoolsPath = ''ticker_source/geckoterminal_pools.json''"

definition loadPoolsFromFile ::
    "eth_lib \<Rightarrow> (string \<Rightarrow> 'd option) \<Rightarrow> ('d \<Rightarrow> GeckoEntry list option) \<Rightarrow> (nat \<Rightarrow> bool) \<Rightarrow> V4Config \<Rightarrow> string
     \<Rightarrow> (v4_error, V4PoolConfig list) result" where
  "loadPoolsFromFile E read_file decode cancelled cfg path0 =
     (let path = (if path0 = [] then defaultPoolsPath else path0) in
      case read_file path of None \<Rightarrow> Inl ReadPoolsFile
      | Some data \<Rightarrow> (case decode data of None \<Rightarrow> Inl DecodePoolsFile
         | Some entries \<Rightarrow> file_loop E cfg cancelled 0 entries))"

text \<open>The first part of \<open>bootstrapPools\<close>: inline pools, and the file only when none is left.\<close>

definition prepare_pools ::
    "eth_lib \<Rightarrow> (string \<Rightarrow> 'd option) \<Rightarrow> ('d \<Rightarrow> GeckoEntry list option) \<Rightarrow> (nat \<Rightarrow> bool) \<Rightarrow> (nat \<Rightarrow> bool) \<Rightarrow> V4Config
     \<Rightarrow> (v4_error, V4PoolConfig list) result" where
  "prepare_pools E read_file decode cancelled_inline cancelled_file cfg =
     (if c4_WantedPairsOnly cfg \<and> wantedSet cfg = [] then Inl WantedListEmpty
      else bind_res (inline_loop E cfg cancelled_inline 0 (c4_Pools cfg)) (\<lambda>prepared.
        bind_res (if prepared = [] then loadPoolsFromFile E read_file decode cancelled_file cfg (trim_space (c4_PoolsPath cfg))
                  else Inr prepared) (\<lambda>prepared.
          if prepared = [] then Inl NoPoolsResolved else Inr prepared)))"

subsection \<open>Lemmas\<close>

definition meta4_ok :: "TokenMeta \<Rightarrow> bool" where
  "meta4_ok m \<longleftrightarrow> 1 \<le> tm_Decimals m \<and> tm_Decimals m \<le> 255"

definition pool4_base :: "V4PoolConfig \<Rightarrow> TokenMeta" where
  "pool4_base p = (if p4_BaseIsToken0 p then p4_Token0 p else p4_Token1 p)"

text \<open>What the connector may rely on for a pool: usable decimals and, with the filter on, a wanted pair.\<close>

definition pool4_ok :: "V4Config \<Rightarrow> V4PoolConfig \<Rightarrow> bool" where
  "pool4_ok cfg p \<longleftrightarrow> meta4_ok (p4_Token0 p) \<and> meta4_ok (p4_Token1 p) \<and>
     (c4_WantedPairsOnly cfg \<longrightarrow> pairKey (p4_PairName p) \<in> set (wantedSet cfg))"

lemma finish_meta_ok: "finish_meta m = Inr m' \<Longrightarrow> meta4_ok m'"
  using clampDecimals_range [of "tm_Decimals m"] by (auto simp: finish_meta_def Let_def meta4_ok_def split: if_splits)

lemma buildTokenMeta_ok: "buildTokenMeta E r a s d = Inr m \<Longrightarrow> meta4_ok m"
  by (auto simp: buildTokenMeta_def Let_def dest: finish_meta_ok split: if_splits)

lemma enrichTokenMeta_ok: "enrichTokenMeta E r m0 = Inr m \<Longrightarrow> meta4_ok m"
  by (auto simp: enrichTokenMeta_def Let_def dest: finish_meta_ok split: if_splits prod.splits)

lemma pairKey_normalize: "pairKey name \<noteq> [] \<Longrightarrow> pairKey (normalizePairName name a b) = pairKey name"
  by (auto simp: pairKey_def normalizePairName_def Let_def trim_to_upper)

lemma wantedSet_ne: "[] \<notin> set (wantedSet cfg)"
  by (simp add: wantedSet_def)

lemma wanted_normalize:
  "pairKey name \<in> set (wantedSet cfg) \<Longrightarrow> pairKey (normalizePairName name a b) \<in> set (wantedSet cfg)"
  using wantedSet_ne [of cfg] pairKey_normalize [of name a b] by metis

lemma normalizeInlinePool_ok:
  "normalizeInlinePool E r (wantedSet cfg) (c4_WantedPairsOnly cfg) pool = Inr (Some p) \<Longrightarrow> pool4_ok cfg p"
  by (auto simp: normalizeInlinePool_def pool4_ok_def Let_def wanted_normalize dest: enrichTokenMeta_ok
      split: if_splits sum.splits)

lemma poolFromGecko_ok:
  assumes "poolFromGecko E r entry = Inr p"
  shows "meta4_ok (p4_Token0 p) \<and> meta4_ok (p4_Token1 p) \<and> \<not> tm_IsStable (pool4_base p) \<and>
    p4_PairName p = normalizePairName (ge_PairName entry) (tm_Symbol (p4_Token0 p)) (tm_Symbol (p4_Token1 p)) \<and>
    p4_CanonicalPair p = poolBaseSymbol p @ poolQuoteSymbol p"
  using assms
  by (auto simp: poolFromGecko_def Let_def pool4_base_def chooseBaseToken_def canonicalPair_def poolBaseSymbol_def
      poolQuoteSymbol_def dest: buildTokenMeta_ok split: if_splits sum.splits)

lemma inline_loop_ok:
  "inline_loop E cfg cancelled i pools = Inr ps \<Longrightarrow> p \<in> set ps \<Longrightarrow> pool4_ok cfg p"
  by (induction E cfg cancelled i pools arbitrary: ps rule: inline_loop.induct)
    (auto simp: bind_res_Inr_iff dest: normalizeInlinePool_ok split: if_splits sum.splits option.splits)

lemma file_loop_ok:
  "file_loop E cfg cancelled i entries = Inr ps \<Longrightarrow> p \<in> set ps \<Longrightarrow> pool4_ok cfg p \<and> \<not> tm_IsStable (pool4_base p)"
proof (induction E cfg cancelled i entries arbitrary: ps rule: file_loop.induct)
  case (2 E cfg cancelled i entry entries)
  show ?case
  proof (cases "entry_wanted cfg entry \<and> (\<exists>q. poolFromGecko E (c4_Registry cfg) entry = Inr q)")
    case False
    with 2 show ?thesis by (auto split: if_splits sum.splits)
  next
    case True
    then obtain q rest where q: "poolFromGecko E (c4_Registry cfg) entry = Inr q" and "ps = q # rest"
      "file_loop E cfg cancelled (Suc i) entries = Inr rest" and nc: "\<not> cancelled i"
      using 2(4) by (auto simp: bind_res_Inr_iff split: if_splits)
    moreover have "c4_WantedPairsOnly cfg \<longrightarrow> pairKey (p4_PairName q) \<in> set (wantedSet cfg)"
      using True poolFromGecko_ok [OF q] by (auto simp: entry_wanted_def Let_def intro: wanted_normalize)
    ultimately show ?thesis
      using 2(3) [OF nc _ q] True 2(5) poolFromGecko_ok [OF q] by (auto simp: pool4_ok_def)
  qed
qed simp

text \<open>C35. A bootstrap that succeeds gives at least one pool; every pool has decimals between 1 and 255 on both
  sides and, when only wanted pairs are allowed, a wanted name, however it was spelled; and pools from the
  file never have a stable token as their base.\<close>

theorem prepare_pools_ok:
  assumes "prepare_pools E read_file decode cancelled_inline cancelled_file cfg = Inr ps"
  shows "ps \<noteq> [] \<and> (\<forall>p \<in> set ps. pool4_ok cfg p \<and> (c4_Pools cfg = [] \<longrightarrow> \<not> tm_IsStable (pool4_base p)))"
  using assms inline_loop_ok file_loop_ok
  by (auto simp: prepare_pools_def bind_res_Inr_iff loadPoolsFromFile_def Let_def split: if_splits option.splits)

definition demo_token :: "address \<Rightarrow> string \<Rightarrow> int \<Rightarrow> TokenMeta" where
  "demo_token a s d = \<lparr>tm_Address = a, tm_Symbol = s, tm_Decimals = d, tm_IsStable = (s = ''USDC''), tm_IsWETH = (s = ''WETH'')\<rparr>"

definition demo_pool4 :: V4PoolConfig where
  "demo_pool4 = \<lparr>p4_PoolID = 11, p4_PoolAddress = 0, p4_HookAddress = 0, p4_PairName = ''abc/usdc'',
     p4_Token0 = demo_token 5 ''ABC'' 18, p4_Token1 = demo_token 7 ''USDC'' 6, p4_BaseIsToken0 = True, p4_CanonicalPair = []\<rparr>"

definition demo_cfg4 :: V4Config where
  "demo_cfg4 = \<lparr>c4_Exchange = ''uniswap_v4'', c4_Network = ''eth'', c4_WSURL = ''ws://node'', c4_HTTPURL = ''http://node'',
     c4_PoolManager = 13, c4_PoolsPath = [], c4_Pools = [demo_pool4], c4_SubscribeBatch = 150, c4_PingInterval = 25,
     c4_MaxMetaWorkers = 4, c4_SwapOnly = False, c4_LogAllEvents = False, c4_StopOnAckError = False, c4_Once = False,
     c4_WantedPairs = ['' ABC/usdc''], c4_WantedPairsOnly = True, c4_Registry = None\<rparr>"

lemma demo_prepare:
  "prepare_pools plain_eth (\<lambda>_. None :: unit option) (\<lambda>_. None) (\<lambda>_. False) (\<lambda>_. False) demo_cfg4 =
     Inr [demo_pool4\<lparr>p4_PairName := ''ABC/USDC'', p4_CanonicalPair := ''ABCUSDC''\<rparr>]"
proof -
  have k: "pairKey ''abc/usdc'' = ''ABC/USDC''" "pairKey '' ABC/usdc'' = ''ABC/USDC''"
    "normalizePairName ''abc/usdc'' ''ABC'' ''USDC'' = ''ABC/USDC''"
    "to_upper (trim_space ''ABC'') = ''ABC''" "to_upper (trim_space ''USDC'') = ''USDC''" by code_simp+
  show ?thesis
    by (simp add: prepare_pools_def demo_cfg4_def demo_pool4_def wantedSet_def k normalizeInlinePool_def enrichTokenMeta_def
        finish_meta_def clampDecimals_def demo_token_def canonicalPair_def Let_def)
qed

theorem prepare_pools_ok_witness:
  "pool4_ok demo_cfg4 (demo_pool4\<lparr>p4_PairName := ''ABC/USDC'', p4_CanonicalPair := ''ABCUSDC''\<rparr>)"
  using prepare_pools_ok [OF demo_prepare] by simp

text \<open>Two ways to name a token: for an address the registry knows, the file loader takes the registry's
  symbol, while an inline token without a symbol is named after its shortened address and loses it.\<close>

theorem inline_token_loses_symbol:
  assumes "tr_byAddress r (lower_hex E a) = Some m" and "tm_Address m = a" and "a \<noteq> 0" and "tm_Symbol m \<noteq> []"
    and "0 < tm_Decimals m" and "tm_Decimals m \<le> 255" and "eth_IsHexAddress E (trim_space addr)"
    and "eth_HexToAddress E (trim_space addr) = a"
  shows "buildTokenMeta E (Some r) addr [] d = Inr m \<and>
    enrichTokenMeta E (Some r) \<lparr>tm_Address = a, tm_Symbol = [], tm_Decimals = d, tm_IsStable = False, tm_IsWETH = False\<rparr>
      = Inr (m\<lparr>tm_Symbol := to_upper (shortAddress (eth_Hex E a))\<rparr>)"
  using assms by (simp add: buildTokenMeta_def enrichTokenMeta_def Resolve_def finish_meta_def clampDecimals_def Let_def)

theorem inline_token_loses_symbol_witness:
  "\<exists>m. buildTokenMeta plain_eth (Some (addStable plain_eth ''USDC'' 9 6 empty_registry))
      ''0x0000000000000000000000000000000000000009'' [] 0 = Inr m \<and> tm_Symbol m = ''USDC''"
proof -
  let ?r = "addStable plain_eth ''USDC'' 9 6 empty_registry"
  let ?m = "\<lparr>tm_Address = 9, tm_Symbol = ''USDC'', tm_Decimals = 6, tm_IsStable = True, tm_IsWETH = False\<rparr>"
  have "symbolKey ''USDC'' = ''USDC''" by code_simp
  then have "tr_byAddress ?r (lower_hex plain_eth 9) = Some ?m"
    by (simp add: addStable_def clampDecimals_def Let_def)
  moreover have "eth_IsHexAddress plain_eth (trim_space ''0x0000000000000000000000000000000000000009'')"
  proof -
    have "length (trim_prefix (trim_space ''0x0000000000000000000000000000000000000009'') ''0x'') = 40 \<and>
        list_all (\<lambda>c. hex_val c \<noteq> None) (trim_prefix (trim_space ''0x0000000000000000000000000000000000000009'') ''0x'')"
      by code_simp
    then show ?thesis unfolding plain_eth_def Let_def by (simp del: not_None_eq)
  qed
  moreover have "hex_read 0 (trim_prefix (trim_space ''0x0000000000000000000000000000000000000009'') ''0x'') = 9" by code_simp
  then have "eth_HexToAddress plain_eth (trim_space ''0x0000000000000000000000000000000000000009'') = 9"
    by (simp add: plain_eth_def)
  ultimately show ?thesis using inline_token_loses_symbol [of ?r plain_eth 9 ?m] by simp
qed

end
