(* ===== verification/Uniswap_V4.thy ===== *)
theory Uniswap_V4
  imports V4_Pools Graph_Search Backoff
begin

text \<open>
  The Uniswap V4 connector (\<open>v4_connector.go\<close>): from a Swap log to the two directed prices of a pool, its
  stored metrics, the quotes for the pricer and the messages, the acknowledgement protocol of a stream, and
  the connection loop. The contract ABI is third-party data read from a file: \<open>v4_abi\<close> gives the event of a
  signature and the decoded fields of a log.
\<close>

subsection \<open>ABI values\<close>

datatype abi_value = VBig int | VRat rat | VText string | VBytes "nat list" | VInteger int | VOther

record v4_abi =
  ab_swapID :: "hash option"
  ab_event :: "hash \<Rightarrow> string option"
  ab_decode :: "string \<Rightarrow> nat list option"
  ab_unpack :: "nat list \<Rightarrow> (string \<rightharpoonup> abi_value) option"
  ab_decodeBig :: "string \<Rightarrow> int option"

text \<open>\<open>SetString(s, 10)\<close>\<close>

definition parse_decimal :: "string \<Rightarrow> int option" where
  "parse_decimal s =
     (let (neg, body) = (case s of [] \<Rightarrow> (False, [])
          | c # cs \<Rightarrow> if c = CHR ''-'' then (True, cs) else if c = CHR ''+'' then (False, cs) else (False, s))
      in if body = [] then None else map_option (\<lambda>n. if neg then - int n else int n) (digits_val 0 body))"

definition bigIntField :: "v4_abi \<Rightarrow> (string \<rightharpoonup> abi_value) \<Rightarrow> string \<Rightarrow> int option" where
  "bigIntField A fields0 key =
     (case fields0 key of None \<Rightarrow> None
      | Some (VBig v) \<Rightarrow> Some v
      | Some (VRat v) \<Rightarrow> Some (fst (quotient_of v))
      | Some (VText v) \<Rightarrow>
          (if v = [] then None
           else case (if has_prefix v ''0x'' then ab_decodeBig A v else None) of
             Some n \<Rightarrow> Some n | None \<Rightarrow> parse_decimal v)
      | Some (VBytes v) \<Rightarrow> (if v = [] then None else Some (set_bytes v))
      | Some (VInteger v) \<Rightarrow> Some v
      | Some VOther \<Rightarrow> None)"

subsection \<open>Prices and weights\<close>

definition pow10Int :: "int \<Rightarrow> int" where
  "pow10Int dec = (if dec \<le> 0 then 1 else 10 ^ nat dec)"

definition invertRat :: "rat option \<Rightarrow> rat option" where
  "invertRat r = (case r of None \<Rightarrow> None | Some x \<Rightarrow> if x = 0 then None else Some (1 / x))"

definition sqrtPriceToDirectionalPrices :: "V4PoolConfig \<Rightarrow> int option \<Rightarrow> rat option \<times> rat option" where
  "sqrtPriceToDirectionalPrices pool sqp =
     (case sqp of None \<Rightarrow> (None, None)
      | Some s \<Rightarrow>
          if s \<le> 0 then (None, None)
          else let price = of_int (s * s) / 2 ^ 192
                     * (of_int (pow10Int (tm_Decimals (p4_Token0 pool))) / of_int (pow10Int (tm_Decimals (p4_Token1 pool))))
               in (Some price, invertRat (Some price)))"

datatype float_reason = NilRational | NonPositiveRational | NotANumber | Infinite | NonPositiveFloat

definition ratToFloat64 :: "rat option \<Rightarrow> (float_reason, f64) result" where
  "ratToFloat64 r =
     (case r of None \<Rightarrow> Inl NilRational
      | Some x \<Rightarrow>
          if x \<le> 0 then Inl NonPositiveRational
          else let val = rat_float64 x in
            if is_nan val then Inl NotANumber
            else if is_inf val then Inl Infinite
            else if val \<le> 0 then Inl NonPositiveFloat
            else Inr val)"

definition amountToFloat :: "int option \<Rightarrow> int \<Rightarrow> f64" where
  "amountToFloat amount decimals =
     (case amount of None \<Rightarrow> 0
      | Some n \<Rightarrow>
          (let a = \<bar>n\<bar> in
           if a = 0 then 0
           else let f = round_prec 256 (of_int a);
                    f = (if decimals > 0 then round_prec 256 (f / round_prec 256 (of_int (pow10Int decimals))) else f);
                    val = f64_of_rat f
                in if is_nan val \<or> is_inf val then 0 else val))"

definition calcSwapWeight :: "V4PoolConfig \<Rightarrow> int option \<Rightarrow> int option \<Rightarrow> f64" where
  "calcSwapWeight pool amount0 amount1 =
     (let weight = f64_max (amountToFloat amount0 (tm_Decimals (p4_Token0 pool)))
                           (amountToFloat amount1 (tm_Decimals (p4_Token1 pool)))
      in if weight \<le> 0 \<or> is_nan weight \<or> is_inf weight then 0 else weight)"

definition floor_weight :: f64 where
  "floor_weight = f64_of_rat (1 / 10 ^ 9)"

subsection \<open>The connector\<close>

record v4PoolState =
  s4_meta :: V4PoolConfig
  s4_registered :: bool
  s4_lastPrice :: "rat option"
  s4_lastPrice1Per0 :: "rat option"
  s4_lastPrice0Per1 :: "rat option"
  s4_lastFloat1Per0 :: f64
  s4_lastFloat0Per1 :: f64
  s4_lastWeight :: f64
  s4_lastAmount0 :: "int option"
  s4_lastAmount1 :: "int option"
  s4_lastLiquidity :: "int option"
  s4_lastTick :: int
  s4_lastFee :: "int option"
  s4_onceEmitted :: bool
  s4_lastUpdate :: time

definition fresh_state :: "V4PoolConfig \<Rightarrow> v4PoolState" where
  "fresh_state meta = \<lparr>s4_meta = meta, s4_registered = False, s4_lastPrice = None, s4_lastPrice1Per0 = None,
     s4_lastPrice0Per1 = None, s4_lastFloat1Per0 = 0, s4_lastFloat0Per1 = 0, s4_lastWeight = 0, s4_lastAmount0 = None,
     s4_lastAmount1 = None, s4_lastLiquidity = None, s4_lastTick = 0, s4_lastFee = None, s4_onceEmitted = False,
     s4_lastUpdate = 0\<rparr>"

record 'p V4Connector =
  k4_cfg :: V4Config
  k4_pricer :: 'p
  k4_pools :: "(hash, v4PoolState) gomap"
  k4_tokens :: "address \<Rightarrow> bool"
  k4_successUpdates :: "64 word"
  k4_conversionErrors :: "64 word"
  k4_unknownPoolEvents :: "64 word"
  k4_out :: "MarketData list"

definition NewV4Connector :: "V4Config \<Rightarrow> 'p option \<Rightarrow> (v4_error, 'p V4Connector) result" where
  "NewV4Connector cfg0 pricer =
     (case pricer of None \<Rightarrow> Inl PricerRequired
      | Some p \<Rightarrow>
          (let cfg = cfg0\<lparr>c4_Exchange := to_lower (trim_space (c4_Exchange cfg0)),
                 c4_Network := to_lower (trim_space (c4_Network cfg0))\<rparr>;
               cfg = cfg\<lparr>c4_Exchange := (if c4_Exchange cfg = [] then defaultExchangeName else c4_Exchange cfg),
                 c4_SubscribeBatch := (if c4_SubscribeBatch cfg \<le> 0 then 150 else c4_SubscribeBatch cfg),
                 c4_PingInterval := (if c4_PingInterval cfg \<le> 0 then 25 * second else c4_PingInterval cfg),
                 c4_MaxMetaWorkers := (if c4_MaxMetaWorkers cfg \<le> 0 then 4 else c4_MaxMetaWorkers cfg)\<rparr>
           in if c4_WSURL cfg = [] \<or> c4_HTTPURL cfg = [] then Inl UrlsRequired
              else if c4_PoolManager cfg = 0 then Inl PoolManagerRequired
              else Inr \<lparr>k4_cfg = cfg, k4_pricer = p, k4_pools = [], k4_tokens = (\<lambda>_. False), k4_successUpdates = 0,
                k4_conversionErrors = 0, k4_unknownPoolEvents = 0, k4_out = []\<rparr>))"

definition v4_exchangeName :: "'p V4Connector \<Rightarrow> string" where
  "v4_exchangeName c = (let name = to_lower (trim_space (c4_Exchange (k4_cfg c))) in
     if name = [] then defaultExchangeName else name)"

definition v4_tokenSymbol :: "eth_lib \<Rightarrow> TokenMeta \<Rightarrow> string" where
  "v4_tokenSymbol E meta =
     (let symbol = to_upper (trim_space (tm_Symbol meta)) in
      if symbol \<noteq> [] then symbol
      else if tm_Address meta \<noteq> 0 then upper_hex E (tm_Address meta) else [])"

definition v4_info :: "TokenMeta \<Rightarrow> PToken" where
  "v4_info m = \<lparr>pt_Address = tm_Address m, pt_Symbol = tm_Symbol m, pt_Decimals = tm_Decimals m\<rparr>"

text \<open>Each address is registered with the pricer once.\<close>

definition v4_registerToken :: "'p Pricer \<Rightarrow> TokenMeta \<Rightarrow> 'p V4Connector \<Rightarrow> 'p V4Connector" where
  "v4_registerToken P meta c =
     (if tm_Address meta = 0 then c
      else if k4_tokens c (tm_Address meta) then c
      else let p = pr_RegisterToken P (v4_info meta) (k4_pricer c);
               p = (if tm_IsStable meta then pr_RegisterStable P (v4_info meta) p else p)
           in c\<lparr>k4_tokens := (k4_tokens c)(tm_Address meta := True), k4_pricer := p\<rparr>)"

definition v4_send :: "time \<Rightarrow> string \<Rightarrow> f64 \<Rightarrow> 'p V4Connector \<Rightarrow> 'p V4Connector" where
  "v4_send ts symbol price c = c\<lparr>k4_out := k4_out c @
     [\<lparr>md_Exchange = v4_exchangeName c, md_Symbol = symbol, md_Price = price, md_Timestamp = unix_milli ts\<rparr>]\<rparr>"

definition emitSpot :: "eth_lib \<Rightarrow> TokenMeta \<Rightarrow> TokenMeta \<Rightarrow> f64 \<Rightarrow> time \<Rightarrow> 'p V4Connector \<Rightarrow> 'p V4Connector" where
  "emitSpot E base quote price ts c =
     (if price \<le> 0 \<or> is_nan price \<or> is_inf price then c
      else let b = v4_tokenSymbol E base; q = v4_tokenSymbol E quote in
      if b = [] \<or> q = [] then c
      else let symbol = NormalizeSpotSymbol (v4_exchangeName c) (b @ q) in
      if symbol = [] then c else v4_send ts symbol price c)"

definition v4_emitUSD :: "eth_lib \<Rightarrow> 'p Pricer \<Rightarrow> PToken \<Rightarrow> time \<Rightarrow> 'p V4Connector \<Rightarrow> 'p V4Connector" where
  "v4_emitUSD E P info ts c =
     (let (res, ok) = pr_ResolveUSD P info (k4_pricer c) in
      if \<not> ok \<or> r_Price res \<le> 0 \<or> is_nan (r_Price res) \<or> is_inf (r_Price res) then c
      else let symbol = to_upper (trim_space (pt_Symbol info));
               symbol = (if symbol = [] then upper_hex E (pt_Address info) else symbol);
               marketSymbol = NormalizeSpotSymbol (v4_exchangeName c) (symbol @ ''USD'')
           in if marketSymbol = [] then c else v4_send ts marketSymbol (r_Price res) c)"

text \<open>A conversion that failed has no value; \<open>Inr v\<close> is \<open>valid\<close> with \<open>v > 0\<close>.\<close>

definition v4_updatePricing ::
    "eth_lib \<Rightarrow> 'p Pricer \<Rightarrow> V4PoolConfig \<Rightarrow> (float_reason, f64) result \<Rightarrow> (float_reason, f64) result \<Rightarrow> f64 \<Rightarrow> time
     \<Rightarrow> 'p V4Connector \<Rightarrow> 'p V4Connector" where
  "v4_updatePricing E P meta price1 price0 weight0 ts c =
     (let weight = (if weight0 \<le> 0 \<or> is_nan weight0 \<or> is_inf weight0 then floor_weight else weight0);
          info0 = v4_info (p4_Token0 meta); info1 = v4_info (p4_Token1 meta);
          use1 = (case price1 of Inr v \<Rightarrow> v > 0 | Inl _ \<Rightarrow> False);
          use0 = (case price0 of Inr v \<Rightarrow> v > 0 | Inl _ \<Rightarrow> False);
          c = (if use1 then c\<lparr>k4_pricer := pr_UpdatePair P info0 info1 (projr price1) weight ts (k4_pricer c)\<rparr> else c);
          c = (if use0 then c\<lparr>k4_pricer := pr_UpdatePair P info1 info0 (projr price0) weight ts (k4_pricer c)\<rparr> else c)
      in if \<not> use1 \<and> \<not> use0 then c
         else let c = c\<lparr>k4_successUpdates := k4_successUpdates c + 1\<rparr>;
                  c = (if use1 then emitSpot E (p4_Token0 meta) (p4_Token1 meta) (projr price1) ts c else c);
                  c = (if use0 then emitSpot E (p4_Token1 meta) (p4_Token0 meta) (projr price0) ts c else c)
              in v4_emitUSD E P info1 ts (v4_emitUSD E P info0 ts c))"

subsection \<open>Swaps\<close>

record onceStatus =
  os_marked :: bool
  os_remaining :: nat
  os_completed :: bool

record swap_metrics =
  m4_price :: "rat option"
  m4_price1Per0 :: "rat option"
  m4_price0Per1 :: "rat option"
  m4_float1 :: f64
  m4_float0 :: f64
  m4_weight :: f64
  m4_amount0 :: "int option"
  m4_amount1 :: "int option"
  m4_liquidity :: "int option"
  m4_fee :: "int option"
  m4_tick :: int

definition storeSwapMetrics ::
    "hash \<Rightarrow> swap_metrics \<Rightarrow> time \<Rightarrow> 'p V4Connector \<Rightarrow> onceStatus option \<times> 'p V4Connector" where
  "storeSwapMetrics poolID m ts c =
     (case map_of (k4_pools c) poolID of None \<Rightarrow> (None, c)
      | Some pool \<Rightarrow>
          (let pool = pool\<lparr>s4_lastPrice := m4_price m, s4_lastPrice1Per0 := m4_price1Per0 m, s4_lastPrice0Per1 := m4_price0Per1 m,
                 s4_lastFloat1Per0 := m4_float1 m, s4_lastFloat0Per1 := m4_float0 m, s4_lastWeight := m4_weight m,
                 s4_lastAmount0 := m4_amount0 m, s4_lastAmount1 := m4_amount1 m, s4_lastLiquidity := m4_liquidity m,
                 s4_lastTick := m4_tick m, s4_lastFee := m4_fee m, s4_lastUpdate := ts, s4_registered := True\<rparr>;
               marked = (c4_Once (k4_cfg c) \<and> \<not> s4_onceEmitted pool);
               pool = (if marked then pool\<lparr>s4_onceEmitted := True\<rparr> else pool);
               c = c\<lparr>k4_pools := mput poolID pool (k4_pools c)\<rparr>;
               remaining = (if marked then length (filter (\<lambda>(_, other). \<not> s4_onceEmitted other) (k4_pools c)) else 0)
           in (Some \<lparr>os_marked = marked, os_remaining = remaining, os_completed = (marked \<and> remaining = 0)\<rparr>, c)))"

record LogEvent =
  l4_Data :: string
  l4_Topics :: "string list"
  l4_Removed :: bool

definition count_error :: "(float_reason, f64) result \<Rightarrow> 'p V4Connector \<Rightarrow> 'p V4Connector" where
  "count_error r c = (case r of Inl _ \<Rightarrow> c\<lparr>k4_conversionErrors := k4_conversionErrors c + 1\<rparr> | Inr _ \<Rightarrow> c)"

definition float_or_zero :: "(float_reason, f64) result \<Rightarrow> f64" where
  "float_or_zero r = (case r of Inl _ \<Rightarrow> 0 | Inr v \<Rightarrow> v)"

text \<open>The numbers of a swap once its two prices are known.\<close>

definition swap_numbers :: "v4_abi \<Rightarrow> V4PoolConfig \<Rightarrow> (string \<rightharpoonup> abi_value) \<Rightarrow> rat \<Rightarrow> rat \<Rightarrow> swap_metrics" where
  "swap_numbers A meta values price1 price0 =
     (let amount0 = bigIntField A values ''amount0''; amount1 = bigIntField A values ''amount1'';
          weight = calcSwapWeight meta amount0 amount1
      in \<lparr>m4_price = Some (if p4_BaseIsToken0 meta then price1 else price0), m4_price1Per0 = Some price1, m4_price0Per1 = Some price0,
          m4_float1 = float_or_zero (ratToFloat64 (Some price1)), m4_float0 = float_or_zero (ratToFloat64 (Some price0)),
          m4_weight = (if weight \<le> 0 then floor_weight else weight), m4_amount0 = amount0, m4_amount1 = amount1,
          m4_liquidity = bigIntField A values ''liquidity'', m4_fee = bigIntField A values ''fee'',
          m4_tick = (case bigIntField A values ''tick'' of None \<Rightarrow> 0 | Some t \<Rightarrow> sint (word_of_int t :: 64 word))\<rparr>)"

definition handleSwapEvent ::
    "eth_lib \<Rightarrow> 'p Pricer \<Rightarrow> v4_abi \<Rightarrow> time \<Rightarrow> LogEvent \<Rightarrow> 'p V4Connector \<Rightarrow> v4_error option \<times> 'p V4Connector" where
  "handleSwapEvent E P A now logItem c =
     (if length (l4_Topics logItem) < 2 then (None, c)
      else let poolID = eth_HexToHash E (l4_Topics logItem ! 1) in
      case map_of (k4_pools c) poolID of None \<Rightarrow> (None, c\<lparr>k4_unknownPoolEvents := k4_unknownPoolEvents c + 1\<rparr>)
      | Some state \<Rightarrow>
         (let meta = s4_meta state; dataField = trim_space (l4_Data logItem) in
          if dataField = [] \<or> equal_fold dataField ''0x'' then (None, c)
          else case ab_decode A dataField of None \<Rightarrow> (None, c)
          | Some payload \<Rightarrow> (case ab_unpack A payload of None \<Rightarrow> (None, c)
             | Some values \<Rightarrow> (case bigIntField A values ''sqrtPriceX96'' of None \<Rightarrow> (None, c)
                | Some sqp \<Rightarrow> (case sqrtPriceToDirectionalPrices meta (Some sqp) of
                    (Some price1, Some price0) \<Rightarrow>
                      (let float1 = ratToFloat64 (Some price1); float0 = ratToFloat64 (Some price0);
                           c = count_error float0 (count_error float1 c);
                           m = swap_numbers A meta values price1 price0
                       in case storeSwapMetrics poolID m now c of (None, c) \<Rightarrow> (None, c)
                          | (Some status, c) \<Rightarrow>
                              (let c = (if s4_registered state then c
                                     else v4_registerToken P (p4_Token1 meta) (v4_registerToken P (p4_Token0 meta) c));
                                   c = v4_updatePricing E P meta float1 float0 (m4_weight m) now c
                               in (if c4_Once (k4_cfg c) \<and> os_marked status \<and> os_completed status then Some OnceComplete else None, c)))
                  | _ \<Rightarrow> (None, c))))))"

definition handleLog ::
    "eth_lib \<Rightarrow> 'p Pricer \<Rightarrow> v4_abi \<Rightarrow> time \<Rightarrow> LogEvent \<Rightarrow> 'p V4Connector \<Rightarrow> v4_error option \<times> 'p V4Connector" where
  "handleLog E P A now event c =
     (if l4_Removed event then (None, c)
      else case l4_Topics event of [] \<Rightarrow> (None, c)
      | topic # _ \<Rightarrow> (case ab_event A (eth_HexToHash E topic) of None \<Rightarrow> (None, c)
         | Some name \<Rightarrow> if name = ''Swap'' then handleSwapEvent E P A now event c else (None, c)))"

subsection \<open>Frames\<close>

record SubAck =
  a4_Result :: string
  a4_Error :: "(int \<times> string) option"

record SubNote =
  n4_Method :: string
  n4_Result :: LogEvent

record v4_frame =
  f4_ack :: "SubAck option"
  f4_note :: "SubNote option"

datatype ackState = AckNone | AckSuccess | AckRefused

definition parseAck :: "SubAck option \<Rightarrow> SubAck option" where
  "parseAck raw = (case raw of None \<Rightarrow> None
     | Some ack \<Rightarrow> if a4_Result ack = [] \<and> a4_Error ack = None then None else Some ack)"

definition parseNote :: "SubNote option \<Rightarrow> SubNote option" where
  "parseNote raw = (case raw of None \<Rightarrow> None
     | Some nt \<Rightarrow> if \<not> equal_fold (n4_Method nt) ''eth_subscription'' then None else Some nt)"

definition handleFrame ::
    "eth_lib \<Rightarrow> 'p Pricer \<Rightarrow> v4_abi \<Rightarrow> time \<Rightarrow> v4_frame \<Rightarrow> 'p V4Connector \<Rightarrow> (ackState \<times> v4_error option) \<times> 'p V4Connector" where
  "handleFrame E P A now raw c =
     (case parseAck (f4_ack raw) of
        Some ack \<Rightarrow> ((if a4_Error ack \<noteq> None then AckRefused else AckSuccess, None), c)
      | None \<Rightarrow> (case parseNote (f4_note raw) of
          Some nt \<Rightarrow> (case handleLog E P A now (n4_Result nt) c of (err, c) \<Rightarrow> ((AckNone, err), c))
        | None \<Rightarrow> ((AckNone, None), c)))"

subsection \<open>Subscription\<close>

definition subscriptionAddresses :: "eth_lib \<Rightarrow> 'p V4Connector \<Rightarrow> string list" where
  "subscriptionAddresses E c =
     sort (remdups ((if c4_PoolManager (k4_cfg c) \<noteq> 0 then [lower_hex E (c4_PoolManager (k4_cfg c))] else []) @
       concat (map (\<lambda>(_, st). (if p4_PoolAddress (s4_meta st) \<noteq> 0 then [lower_hex E (p4_PoolAddress (s4_meta st))] else []) @
           (if p4_HookAddress (s4_meta st) \<noteq> 0 then [lower_hex E (p4_HookAddress (s4_meta st))] else [])) (k4_pools c))))"

definition subscriptionPoolIDs :: "eth_lib \<Rightarrow> 'p V4Connector \<Rightarrow> string list" where
  "subscriptionPoolIDs E c = sort (map (\<lambda>(i, _). to_lower (eth_HashHex E i)) (k4_pools c))"

text \<open>A request: the addresses, the event signature and the pool identifiers of the topics.\<close>

record RPCRequest =
  q4_address :: "string list"
  q4_swap :: "hash option"
  q4_pools :: "string list"

definition v4_subscribe :: "eth_lib \<Rightarrow> v4_abi \<Rightarrow> 'p V4Connector \<Rightarrow> RPCRequest" where
  "v4_subscribe E A c =
     (let addresses = subscriptionAddresses E c;
          addresses = (if addresses = [] then [lower_hex E (c4_PoolManager (k4_cfg c))] else addresses)
      in \<lparr>q4_address = addresses, q4_swap = ab_swapID A, q4_pools = (if ab_swapID A = None then [] else subscriptionPoolIDs E c)\<rparr>)"

subsection \<open>The stream\<close>

definition ackRetryMax :: nat where
  "ackRetryMax = 5"

definition ackBackoff :: "nat \<Rightarrow> int" where
  "ackBackoff attempt = (let delay = int (if attempt < 1 then 1 else attempt) * (2 * second)
     in if delay > 10 * second then 10 * second else delay)"

datatype v4_action = AckPause int | Pause int | Request RPCRequest

text \<open>What the select receives. After a failed acknowledgement the loop sleeps and subscribes again: the two
  flags say whether the sleep ended by its timer and whether the write succeeded.\<close>

datatype v4_event =
    XCancelled
  | XReadError
  | XErrsClosed
  | XAckTimeout bool bool
  | XReaderClosed
  | XFrame time v4_frame bool bool

text \<open>\<open>Open\<close>: no event is left and the stream is still running.\<close>

datatype stream_end = Open | Closed "v4_error option"

text \<open>A failed acknowledgement, \<open>failures\<close> counting it: the error that ends the stream, if any, and the actions.\<close>

definition ack_retry ::
    "eth_lib \<Rightarrow> v4_abi \<Rightarrow> (nat \<Rightarrow> v4_error) \<Rightarrow> nat \<Rightarrow> bool \<Rightarrow> bool \<Rightarrow> 'p V4Connector \<Rightarrow> v4_error option \<times> v4_action list" where
  "ack_retry E A err failures slept written c =
     (if c4_StopOnAckError (k4_cfg c) \<or> failures \<ge> ackRetryMax then (Some (err failures), [])
      else if \<not> slept then (Some ContextCancelled, [AckPause (ackBackoff failures)])
      else if \<not> written then (Some SubscribeFailed, [AckPause (ackBackoff failures)])
      else (None, [AckPause (ackBackoff failures), Request (v4_subscribe E A c)]))"

fun runStream ::
    "eth_lib \<Rightarrow> 'p Pricer \<Rightarrow> v4_abi \<Rightarrow> v4_event list \<Rightarrow> bool \<Rightarrow> nat \<Rightarrow> 'p V4Connector
     \<Rightarrow> v4_action list \<times> stream_end \<times> 'p V4Connector" where
  "runStream E P A [] waiting failures c = ([], Open, c)"
| "runStream E P A (XCancelled # es) waiting failures c = ([], Closed (Some ContextCancelled), c)"
| "runStream E P A (XReadError # es) waiting failures c = ([], Closed (Some ReadFailed), c)"
| "runStream E P A (XErrsClosed # es) waiting failures c = ([], Closed None, c)"
| "runStream E P A (XReaderClosed # es) waiting failures c = ([], Closed (Some ReaderClosed), c)"
| "runStream E P A (XAckTimeout slept written # es) waiting failures c =
     (if \<not> waiting then runStream E P A es waiting failures c
      else case ack_retry E A AckTimeout (failures + 1) slept written c of
        (Some err, acts) \<Rightarrow> (acts, Closed (Some err), c)
      | (None, acts) \<Rightarrow>
          (case runStream E P A es True (failures + 1) c of (rest, e, c') \<Rightarrow> (acts @ rest, e, c')))"
| "runStream E P A (XFrame now raw slept written # es) waiting failures c =
     (case handleFrame E P A now raw c of
        ((state, Some err), c) \<Rightarrow> ([], Closed (Some err), c)
      | ((AckNone, None), c) \<Rightarrow> runStream E P A es waiting failures c
      | ((AckSuccess, None), c) \<Rightarrow> runStream E P A es False 0 c
      | ((AckRefused, None), c) \<Rightarrow>
          (case ack_retry E A AckRejected (failures + 1) slept written c of
             (Some err, acts) \<Rightarrow> (acts, Closed (Some err), c)
           | (None, acts) \<Rightarrow>
               (case runStream E P A es True (failures + 1) c of (rest, e, c') \<Rightarrow> (acts @ rest, e, c'))))"

subsection \<open>The connection loop\<close>

definition nextBackoffDuration :: "int \<Rightarrow> int \<Rightarrow> int" where
  "nextBackoffDuration cur limit =
     (let nxt = cur * 2; nxt = (if nxt > limit then limit else nxt)
      in if nxt < 2 * second then 2 * second else nxt)"

text \<open>One pass of the loop: whether the context is cancelled before it and after a stream that failed, whether
  dialling and writing the request succeed, the events of the stream, and whether the pause ends by its timer.\<close>

record v4_round =
  r4_cancelled :: bool
  r4_dial :: bool
  r4_written :: bool
  r4_events :: "v4_event list"
  r4_stopped :: bool
  r4_slept :: bool

definition backoff_start :: int where "backoff_start = 2 * second"
definition backoffMax :: int where "backoffMax = 30 * second"

datatype v4_run_end = Running | Returned "v4_error option"

fun v4_rounds ::
    "eth_lib \<Rightarrow> 'p Pricer \<Rightarrow> v4_abi \<Rightarrow> v4_round list \<Rightarrow> int \<Rightarrow> 'p V4Connector \<Rightarrow> v4_action list \<times> v4_run_end \<times> 'p V4Connector" where
  "v4_rounds E P A [] backoff c = ([], Running, c)"
| "v4_rounds E P A (r # rs) backoff c =
     (if r4_cancelled r then ([], Returned (Some ContextCancelled), c)
      else if \<not> r4_dial r \<or> \<not> r4_written r then
        (if \<not> r4_slept r then ([Pause backoff], Returned (Some ContextCancelled), c)
         else case v4_rounds E P A rs (nextBackoffDuration backoff backoffMax) c of
           (acts, e, c') \<Rightarrow> (Pause backoff # acts, e, c'))
      else let sub = Request (v4_subscribe E A c) in
        case runStream E P A (r4_events r) True 0 c of
        (acts, Open, c) \<Rightarrow> (sub # acts, Running, c)
      | (acts, Closed None, c) \<Rightarrow>
          (case v4_rounds E P A rs backoff_start c of (acts', e, c') \<Rightarrow> (sub # acts @ acts', e, c'))
      | (acts, Closed (Some err), c) \<Rightarrow>
          (if err = ContextCancelled \<or> r4_stopped r then (sub # acts, Returned (Some ContextCancelled), c)
           else if err = OnceComplete then (sub # acts, Returned None, c)
           else if \<not> r4_slept r then (sub # acts @ [Pause backoff], Returned (Some ContextCancelled), c)
           else case v4_rounds E P A rs (nextBackoffDuration backoff backoffMax) c of
             (acts', e, c') \<Rightarrow> (sub # acts @ Pause backoff # acts', e, c')))"

text \<open>The last loop of \<open>bootstrapPools\<close>: the first pool of each identifier becomes a state. \<open>seen\<close> has the keys
  of the map built so far.\<close>

fun final_loop ::
    "'p Pricer \<Rightarrow> (nat \<Rightarrow> bool) \<Rightarrow> nat \<Rightarrow> V4PoolConfig list \<Rightarrow> (hash, v4PoolState) gomap \<Rightarrow> 'p V4Connector
     \<Rightarrow> (v4_error, (hash, v4PoolState) gomap) result \<times> 'p V4Connector" where
  "final_loop P cancelled i [] final c = (Inr final, c)"
| "final_loop P cancelled i (pool # pools) final c =
     (if cancelled i then (Inl ContextCancelled, c)
      else if p4_PoolID pool \<in> fst ` set final then final_loop P cancelled (Suc i) pools final c
      else final_loop P cancelled (Suc i) pools (mput (p4_PoolID pool) (fresh_state pool) final)
        (v4_registerToken P (p4_Token1 pool) (v4_registerToken P (p4_Token0 pool) c)))"

definition bootstrapPools ::
    "eth_lib \<Rightarrow> 'p Pricer \<Rightarrow> (string \<Rightarrow> 'd option) \<Rightarrow> ('d \<Rightarrow> GeckoEntry list option) \<Rightarrow> (nat \<Rightarrow> bool) \<Rightarrow> (nat \<Rightarrow> bool) \<Rightarrow> (nat \<Rightarrow> bool)
     \<Rightarrow> 'p V4Connector \<Rightarrow> v4_error option \<times> 'p V4Connector" where
  "bootstrapPools E P read_file decode cancelled_inline cancelled_file cancelled_final c =
     (case prepare_pools E read_file decode cancelled_inline cancelled_file (k4_cfg c) of
        Inl err \<Rightarrow> (Some err, c)
      | Inr prepared \<Rightarrow> (case final_loop P cancelled_final 0 prepared [] c of
          (Inl err, c) \<Rightarrow> (Some err, c)
        | (Inr final, c) \<Rightarrow> (None, c\<lparr>k4_pools := final\<rparr>)))"

definition v4_Run ::
    "eth_lib \<Rightarrow> 'p Pricer \<Rightarrow> v4_abi option \<Rightarrow> (string \<Rightarrow> 'd option) \<Rightarrow> ('d \<Rightarrow> GeckoEntry list option)
     \<Rightarrow> (nat \<Rightarrow> bool) \<Rightarrow> (nat \<Rightarrow> bool) \<Rightarrow> (nat \<Rightarrow> bool) \<Rightarrow> v4_round list \<Rightarrow> 'p V4Connector
     \<Rightarrow> v4_action list \<times> v4_run_end \<times> 'p V4Connector" where
  "v4_Run E P manager_abi read_file decode cancelled_inline cancelled_file cancelled_final rs c =
     (case manager_abi of None \<Rightarrow> ([], Returned (Some AbiUnreadable), c)
      | Some A \<Rightarrow> (case bootstrapPools E P read_file decode cancelled_inline cancelled_file cancelled_final c of
          (Some err, c) \<Rightarrow> ([], Returned (Some err), c)
        | (None, c) \<Rightarrow> v4_rounds E P A rs backoff_start c))"

subsection \<open>Lemmas: prices\<close>

lemma pow10Int_pos [simp]: "0 < pow10Int d"
  by (simp add: pow10Int_def)

lemma prices_of_sqrt:
  assumes "0 < sqp"
  obtains price1 price0 where "sqrtPriceToDirectionalPrices pool (Some sqp) = (Some price1, Some price0)"
  using assms pow10Int_pos [THEN less_imp_neq] by (force simp: sqrtPriceToDirectionalPrices_def invertRat_def Let_def)

lemma ratToFloat64_pos: "ratToFloat64 r = Inr v \<Longrightarrow> pos_fin v"
  by (cases v) (auto simp: ratToFloat64_def pos_fin_def zero_f64_def is_nan_def is_inf_def Let_def
    split: option.splits if_splits)

text \<open>The prices of a pool: for a positive square root price they are the two directed prices, both positive,
  each the inverse of the other, and the price of token 0 in token 1 is the square of the root over \<open>2\<^sup>1\<^sup>9\<^sup>2\<close>
  scaled by the decimals; otherwise there is no price.\<close>

theorem directional_prices:
  "(case sqrtPriceToDirectionalPrices pool (Some sqp) of
      (Some price1, Some price0) \<Rightarrow> 0 < sqp \<and> 0 < price1 \<and> 0 < price0 \<and> price1 * price0 = 1 \<and>
        price1 * of_int (pow10Int (tm_Decimals (p4_Token1 pool))) * 2 ^ 192
          = (of_int sqp)\<^sup>2 * of_int (pow10Int (tm_Decimals (p4_Token0 pool)))
    | (None, None) \<Rightarrow> sqp \<le> 0
    | _ \<Rightarrow> False)"
proof (cases "sqp \<le> 0")
  case True
  then show ?thesis by (simp add: sqrtPriceToDirectionalPrices_def)
next
  case False
  have "(of_int (pow10Int d) :: rat) \<noteq> 0" for d using pow10Int_pos [of d] by (metis less_irrefl of_int_eq_0_iff)
  moreover have "(0 :: rat) < of_int (pow10Int d)" for d by simp
  ultimately show ?thesis using False
    by (simp add: sqrtPriceToDirectionalPrices_def invertRat_def Let_def field_simps power2_eq_square del: of_int_pos)
qed

subsection \<open>Lemmas: what a step may do to the connector\<close>

text \<open>The configuration stays, so do the pools and their metadata, the pricer keeps its invariant, and what is sent
  is usable and bears the connector's name.\<close>

definition v4_step :: "('p \<Rightarrow> bool) \<Rightarrow> 'p V4Connector \<Rightarrow> 'p V4Connector \<Rightarrow> bool" where
  "v4_step I c c' \<longleftrightarrow> k4_cfg c' = k4_cfg c \<and>
     (I (k4_pricer c) \<longrightarrow> I (k4_pricer c') \<and>
        (\<exists>sent. k4_out c' = k4_out c @ sent \<and> (\<forall>m \<in> set sent. md_ok m \<and> md_Exchange m = v4_exchangeName c))) \<and>
     (\<forall>i. map_option s4_meta (map_of (k4_pools c') i) = map_option s4_meta (map_of (k4_pools c) i))"

lemma v4_step_refl [simp, intro]: "v4_step I c c"
  by (simp add: v4_step_def)

lemma v4_step_trans [trans]: "v4_step I a b \<Longrightarrow> v4_step I b c \<Longrightarrow> v4_step I a c"
  by (auto simp: v4_step_def v4_exchangeName_def)

lemma v4_exchangeName_ne [simp]: "v4_exchangeName c \<noteq> []"
  by (auto simp: v4_exchangeName_def defaultExchangeName_def Let_def)

lemma v4_step_send: "pos_fin v \<Longrightarrow> s \<noteq> [] \<Longrightarrow> v4_step I c (v4_send ts s v c)"
  by (simp add: v4_step_def v4_send_def md_ok_def)

lemma v4_step_emitSpot: "v4_step I c (emitSpot E b q v ts c)"
  using pos_fin_guardI [of v] by (auto simp: emitSpot_def Let_def intro: v4_step_send)

lemma v4_step_emitUSD: "v4_step I c (v4_emitUSD E P t ts c)"
proof -
  obtain res ok where r: "pr_ResolveUSD P t (k4_pricer c) = (res, ok)" by (cases "pr_ResolveUSD P t (k4_pricer c)")
  show ?thesis using pos_fin_guardI [of "r_Price res"] by (auto simp: v4_emitUSD_def r Let_def intro: v4_step_send)
qed

lemma v4_step_pricer: "(I (k4_pricer c) \<Longrightarrow> I p) \<Longrightarrow> v4_step I c (c\<lparr>k4_pricer := p\<rparr>)"
  by (auto simp: v4_step_def)

lemma v4_step_success: "v4_step I c (c\<lparr>k4_successUpdates := n\<rparr>)" "v4_step I c (c\<lparr>k4_unknownPoolEvents := n\<rparr>)"
  by (simp_all add: v4_step_def)

lemma v4_step_count_error: "v4_step I c (count_error r c)"
  by (simp add: v4_step_def count_error_def split: sum.split)

lemma v4_step_store: "v4_step I c (snd (storeSwapMetrics i m ts c))"
  by (auto simp: v4_step_def storeSwapMetrics_def Let_def split: option.split)

text \<open>A Swap log changes nothing but the count of unknown pools, or stores its metrics and goes on to the pricer.\<close>

lemma pools_count_error [simp]: "k4_pools (count_error r c) = k4_pools c" "k4_cfg (count_error r c) = k4_cfg c"
  by (simp_all add: count_error_def split: sum.split)

lemma storeSwapMetrics_Some:
  assumes "map_of (k4_pools c) i = Some st"
  obtains st' where "s4_onceEmitted st' \<longleftrightarrow> s4_onceEmitted st \<or> c4_Once (k4_cfg c)" "s4_registered st'" "s4_meta st' = s4_meta st"
    "storeSwapMetrics i m ts c =
       (let ps = mput i st' (k4_pools c); marked = (c4_Once (k4_cfg c) \<and> \<not> s4_onceEmitted st);
            remaining = (if marked then length (filter (\<lambda>(_, other). \<not> s4_onceEmitted other) ps) else 0)
        in (Some \<lparr>os_marked = marked, os_remaining = remaining, os_completed = (marked \<and> remaining = 0)\<rparr>, c\<lparr>k4_pools := ps\<rparr>))"
proof -
  define st0 where "st0 = st\<lparr>s4_lastPrice := m4_price m, s4_lastPrice1Per0 := m4_price1Per0 m, s4_lastPrice0Per1 := m4_price0Per1 m,
     s4_lastFloat1Per0 := m4_float1 m, s4_lastFloat0Per1 := m4_float0 m, s4_lastWeight := m4_weight m,
     s4_lastAmount0 := m4_amount0 m, s4_lastAmount1 := m4_amount1 m, s4_lastLiquidity := m4_liquidity m,
     s4_lastTick := m4_tick m, s4_lastFee := m4_fee m, s4_lastUpdate := ts, s4_registered := True\<rparr>"
  have st0: "s4_onceEmitted st0 = s4_onceEmitted st" "s4_registered st0" "s4_meta st0 = s4_meta st" by (simp_all add: st0_def)
  show thesis
  proof (cases "c4_Once (k4_cfg c) \<and> \<not> s4_onceEmitted st")
    case True
    with st0 assms show thesis
      by (intro that [of "st0\<lparr>s4_onceEmitted := True\<rparr>"]) (simp_all add: storeSwapMetrics_def st0_def [symmetric] Let_def)
  next
    case False
    with st0 assms show thesis
      by (intro that [of st0]) (auto simp: storeSwapMetrics_def st0_def [symmetric] Let_def)
  qed
qed

lemma handleSwapEvent_cases:
  obtains (ignored) n where "handleSwapEvent E P A now l c = (None, c\<lparr>k4_unknownPoolEvents := n\<rparr>)"
  | (stored) i st price1 price0 vals c1 status c2 c3 where
      "i = eth_HexToHash E (l4_Topics l ! 1)" "map_of (k4_pools c) i = Some st"
      "c1 = count_error (ratToFloat64 (Some price0)) (count_error (ratToFloat64 (Some price1)) c)"
      "storeSwapMetrics i (swap_numbers A (s4_meta st) vals price1 price0) now c1 = (Some status, c2)"
      "c3 = v4_updatePricing E P (s4_meta st) (ratToFloat64 (Some price1)) (ratToFloat64 (Some price0))
            (m4_weight (swap_numbers A (s4_meta st) vals price1 price0)) now
            (if s4_registered st then c2
             else v4_registerToken P (p4_Token1 (s4_meta st)) (v4_registerToken P (p4_Token0 (s4_meta st)) c2))"
      "handleSwapEvent E P A now l c =
         (if c4_Once (k4_cfg c3) \<and> os_marked status \<and> os_completed status then Some OnceComplete else None, c3)"
proof -
  have same: "c = c\<lparr>k4_unknownPoolEvents := k4_unknownPoolEvents c\<rparr>" by simp
  define i where "i = eth_HexToHash E (l4_Topics l ! 1)"
  define d where "d = trim_space (l4_Data l)"
  note unf = handleSwapEvent_def i_def [symmetric] d_def [symmetric]
  consider "length (l4_Topics l) < 2" | "map_of (k4_pools c) i = None" "\<not> length (l4_Topics l) < 2"
    | st where "map_of (k4_pools c) i = Some st" "\<not> length (l4_Topics l) < 2"
    by (cases "map_of (k4_pools c) i") auto
  then show thesis
  proof cases
    case 1
    then show thesis by (intro ignored [of "k4_unknownPoolEvents c"]) (simp add: unf del: One_nat_def)
  next
    case 2
    then show thesis by (intro ignored) (simp add: unf Let_def del: One_nat_def)
  next
    case st: 3
    show thesis
    proof (cases "d = [] \<or> equal_fold d ''0x'' \<or> (\<forall>payload vals sqp. ab_decode A d = Some payload \<longrightarrow> ab_unpack A payload = Some vals
        \<longrightarrow> bigIntField A vals ''sqrtPriceX96'' = Some sqp \<longrightarrow> sqp \<le> 0)")
      case True
      then show thesis
        by (intro ignored [of "k4_unknownPoolEvents c"])
          (auto simp: unf st Let_def sqrtPriceToDirectionalPrices_def simp del: One_nat_def split: option.split)
    next
      case False
      then obtain payload vals sqp where f: "d \<noteq> []" "\<not> equal_fold d ''0x''" "ab_decode A d = Some payload"
        "ab_unpack A payload = Some vals" "bigIntField A vals ''sqrtPriceX96'' = Some sqp" "0 < sqp" by fastforce
      from prices_of_sqrt [OF f(6)] obtain price1 price0
        where p: "sqrtPriceToDirectionalPrices (s4_meta st) (Some sqp) = (Some price1, Some price0)" .
      define c1 where "c1 = count_error (ratToFloat64 (Some price0)) (count_error (ratToFloat64 (Some price1)) c)"
      define m where "m = swap_numbers A (s4_meta st) vals price1 price0"
      have "map_of (k4_pools c1) i = Some st" using st by (simp add: c1_def)
      from storeSwapMetrics_Some [OF this, of m now] obtain status c2 where s: "storeSwapMetrics i m now c1 = (Some status, c2)"
        unfolding Let_def by blast
      show thesis
        using st f p s
        by (intro stored [OF i_def st(1) c1_def s [unfolded m_def] refl])
          (simp add: unf c1_def [symmetric] m_def [symmetric] Let_def del: One_nat_def)
    qed
  qed
qed

context usd_pricer
begin

lemma v4_step_register: "v4_step inv c (v4_registerToken P t c)"
  by (simp add: v4_step_def v4_registerToken_def v4_exchangeName_def Let_def inv_ops)

lemma v4_step_updatePricing: "v4_step inv c (v4_updatePricing E P meta p1 p0 w ts c)"
proof -
  have quote: "(inv (k4_pricer c) \<Longrightarrow> inv p) \<Longrightarrow> v4_step inv c (c\<lparr>k4_pricer := p, k4_successUpdates := n\<rparr>)" for p n
    by (simp add: v4_step_def)
  show ?thesis
    unfolding v4_updatePricing_def Let_def
    by (simp add: inv_UpdatePair quote v4_step_trans [OF _ v4_step_emitUSD] v4_step_trans [OF _ v4_step_emitSpot])
qed

lemma v4_step_handleSwapEvent: "v4_step inv c (snd (handleSwapEvent E P A now l c))"
proof (rule handleSwapEvent_cases [of E P A now l c])
  fix i st price1 price0 vals c1 status c2 c3
  assume c1: "c1 = count_error (ratToFloat64 (Some price0)) (count_error (ratToFloat64 (Some price1)) c)"
    and s: "storeSwapMetrics i (swap_numbers A (s4_meta st) vals price1 price0) now c1 = (Some status, c2)"
    and c3: "c3 = v4_updatePricing E P (s4_meta st) (ratToFloat64 (Some price1)) (ratToFloat64 (Some price0))
            (m4_weight (swap_numbers A (s4_meta st) vals price1 price0)) now
            (if s4_registered st then c2
             else v4_registerToken P (p4_Token1 (s4_meta st)) (v4_registerToken P (p4_Token0 (s4_meta st)) c2))"
    and r: "handleSwapEvent E P A now l c =
         (if c4_Once (k4_cfg c3) \<and> os_marked status \<and> os_completed status then Some OnceComplete else None, c3)"
  have "v4_step inv c c1" unfolding c1 by (rule v4_step_trans [OF v4_step_count_error v4_step_count_error])
  also have "v4_step inv c1 c2"
    using v4_step_store [of inv c1 i "swap_numbers A (s4_meta st) vals price1 price0" now] s by simp
  also have "v4_step inv c2 (if s4_registered st then c2
      else v4_registerToken P (p4_Token1 (s4_meta st)) (v4_registerToken P (p4_Token0 (s4_meta st)) c2))"
    using v4_step_trans [OF v4_step_register v4_step_register] by simp
  also have "v4_step inv \<dots> c3" unfolding c3 by (rule v4_step_updatePricing)
  finally show ?thesis by (simp add: r)
qed (simp add: v4_step_success)

lemma v4_step_handleFrame: "v4_step inv c (snd (handleFrame E P A now raw c))"
  using v4_step_handleSwapEvent [of c E A now]
  by (auto simp: handleFrame_def handleLog_def split: option.split list.split prod.split) (metis snd_conv)

lemma v4_step_runStream: "v4_step inv c (snd (snd (runStream E P A es w f c)))"
proof (induction es arbitrary: w f c)
  case (Cons e es)
  show ?case
  proof (cases e)
    case (XFrame now raw slept written)
    obtain st err c' where h: "handleFrame E P A now raw c = ((st, err), c')" by (metis surj_pair)
    then have "v4_step inv c c'" using v4_step_handleFrame [of c E A now raw] by simp
    then have "v4_step inv c (snd (snd (runStream E P A es w' f' c')))" for w' f' using Cons.IH v4_step_trans by blast
    with \<open>v4_step inv c c'\<close> show ?thesis
      by (auto simp: XFrame h split: option.split ackState.split prod.split) (metis snd_conv)
  next
    case (XAckTimeout slept written)
    then show ?thesis using Cons.IH by (auto split: option.split prod.split) (metis snd_conv)
  qed simp_all
qed simp

lemma v4_step_rounds: "v4_step inv c (snd (snd (v4_rounds E P A rs b c)))"
proof (induction rs arbitrary: b c)
  case (Cons r rs)
  obtain acts e c' where s: "runStream E P A (r4_events r) True 0 c = (acts, e, c')" by (metis surj_pair)
  have "v4_step inv c c'" using v4_step_runStream [of c E A "r4_events r" True 0] s by simp
  then have "v4_step inv c (snd (snd (v4_rounds E P A rs b' c')))" for b' using Cons.IH v4_step_trans by blast
  with \<open>v4_step inv c c'\<close> Cons.IH show ?case
    by (auto simp: s Let_def split: prod.split stream_end.split option.split) (metis snd_conv)+
qed simp


lemma final_loop_step:
  "final_loop P cancelled i pools final c = (res, c') \<Longrightarrow> v4_step inv c c'"
proof (induction pools arbitrary: i final c)
  case (Cons pool pools)
  show ?case
  proof (cases "cancelled i \<or> p4_PoolID pool \<in> fst ` set final")
    case True
    with Cons show ?thesis by (auto split: if_splits)
  next
    case False
    with Cons.prems have "v4_step inv (v4_registerToken P (p4_Token1 pool) (v4_registerToken P (p4_Token0 pool) c)) c'"
      by (intro Cons.IH) simp
    then show ?thesis by (meson v4_step_trans v4_step_register)
  qed
qed simp

text \<open>A whole run, from the connector that \<open>Run\<close> was called on.\<close>

lemma v4_Run_inv:
  assumes "inv (k4_pricer c)" and "k4_out c = []"
    and "v4_Run E P abi read_file decode ci cf cl rs c = (acts, e, c')"
  shows "inv (k4_pricer c') \<and> (\<forall>m \<in> set (k4_out c'). md_ok m \<and> md_Exchange m = v4_exchangeName c)"
proof -
  consider "c' = c" | res err where "final_loop P cl 0 res [] c = (Inl err, c')"
    | A res fin c1 where "final_loop P cl 0 res [] c = (Inr fin, c1)"
      "v4_rounds E P A rs backoff_start (c1\<lparr>k4_pools := fin\<rparr>) = (acts, e, c')"
    using assms(3) by (auto simp: v4_Run_def bootstrapPools_def split: option.splits prod.splits sum.splits)
  then show ?thesis
  proof cases
    case 1
    with assms show ?thesis by simp
  next
    case 2
    from final_loop_step [OF this] assms show ?thesis by (auto simp: v4_step_def)
  next
    case 3
    from final_loop_step [OF 3(1)] v4_step_rounds [of "c1\<lparr>k4_pools := fin\<rparr>" E A rs backoff_start] 3(2) assms
    show ?thesis by (auto simp: v4_step_def v4_exchangeName_def)
  qed
qed

end

subsection \<open>Properties of the connector\<close>

definition v4_delay :: "int \<Rightarrow> bool" where
  "v4_delay d \<longleftrightarrow> d \<in> {2 * second, 4 * second, 8 * second, 16 * second, 30 * second}"

interpretation v4: backoff_policy "\<lambda>d. nextBackoffDuration d backoffMax" v4_delay backoff_start backoffMax
  by unfold_locales (auto simp: nextBackoffDuration_def v4_delay_def backoff_start_def backoffMax_def second_def)

lemma ack_retry_cases:
  obtains (over) e where "ack_retry E A err (f + 1) slept written c = (Some e, [])"
  | (ended) e where "ack_retry E A err (f + 1) slept written c = (Some e, [AckPause (ackBackoff (f + 1))])" "f + 1 \<le> 4"
  | (again) "ack_retry E A err (f + 1) slept written c = (None, [AckPause (ackBackoff (f + 1)), Request (v4_subscribe E A c)])" "f + 1 \<le> 4"
proof (cases "c4_StopOnAckError (k4_cfg c) \<or> 5 \<le> f + 1")
  case True
  then show thesis by (intro over) (simp add: ack_retry_def ackRetryMax_def)
next
  case False
  then show thesis by (cases slept; cases written) (auto intro: ended again simp: ack_retry_def ackRetryMax_def)
qed

definition ack_pauses :: "v4_action list \<Rightarrow> int list" where
  "ack_pauses acts = concat (map (\<lambda>a. case a of AckPause d \<Rightarrow> [d] | _ \<Rightarrow> []) acts)"

definition pauses :: "v4_action list \<Rightarrow> int list" where
  "pauses acts = concat (map (\<lambda>a. case a of Pause d \<Rightarrow> [d] | _ \<Rightarrow> []) acts)"

definition requests :: "v4_action list \<Rightarrow> RPCRequest list" where
  "requests acts = concat (map (\<lambda>a. case a of Request r \<Rightarrow> [r] | _ \<Rightarrow> []) acts)"

lemma pauses_simps [simp]:
  "ack_pauses [] = []" "ack_pauses (AckPause d # as) = d # ack_pauses as" "ack_pauses (Pause d # as) = ack_pauses as"
  "ack_pauses (Request r # as) = ack_pauses as" "ack_pauses (as @ bs) = ack_pauses as @ ack_pauses bs"
  "pauses [] = []" "pauses (AckPause d # as) = pauses as" "pauses (Pause d # as) = d # pauses as"
  "pauses (Request r # as) = pauses as" "pauses (as @ bs) = pauses as @ pauses bs"
  "requests [] = []" "requests (AckPause d # as) = requests as" "requests (Pause d # as) = requests as"
  "requests (Request r # as) = r # requests as" "requests (as @ bs) = requests as @ requests bs"
  by (simp_all add: ack_pauses_def pauses_def requests_def)

text \<open>A frame that acknowledges the subscription, and one that refuses it.\<close>

definition acknowledges :: "v4_event \<Rightarrow> bool" where
  "acknowledges e = (case e of XFrame now raw slept written \<Rightarrow>
     (case parseAck (f4_ack raw) of Some ack \<Rightarrow> a4_Error ack = None | None \<Rightarrow> False) | _ \<Rightarrow> False)"

definition refuses :: "v4_event \<Rightarrow> bool" where
  "refuses e = (case e of XFrame now raw slept written \<Rightarrow>
     (case parseAck (f4_ack raw) of Some ack \<Rightarrow> a4_Error ack \<noteq> None | None \<Rightarrow> False) | _ \<Rightarrow> False)"

lemma handleFrame_ack:
  assumes "handleFrame E P A now raw c = ((st, err), c')"
  shows "st = AckSuccess \<longleftrightarrow> acknowledges (XFrame now raw s w)" and "st = AckRefused \<longleftrightarrow> refuses (XFrame now raw s w)"
    and "st \<noteq> AckNone \<Longrightarrow> err = None"
  using assms by (auto simp: handleFrame_def acknowledges_def refuses_def simp del: not_None_eq split: option.splits prod.splits if_splits)

lemma runStream_unacknowledged:
  assumes "list_all (\<lambda>e. \<not> acknowledges e) es" and "runStream E P A es w f c = (acts, e, c')" and "f \<le> 4"
  shows "(\<exists>k. f + k \<le> 4 \<and> ack_pauses acts = map ackBackoff [Suc f..<Suc (f + k)] \<and> length (requests acts) \<le> k) \<and>
    (e = Open \<longrightarrow> f + length (filter refuses es) \<le> 4)"
  using assms
proof (induction es arbitrary: w f c acts e)
  case (Cons x es)
  have step: ?case if "runStream E P A es w' f d = (acts, e, c')" "\<not> refuses x" for w' d
    using Cons.IH [OF _ that(1)] Cons.prems that(2) by simp
  have retry: ?case if r: "(case ack_retry E A err (f + 1) s wr d of (Some er, as) \<Rightarrow> (as, Closed (Some er), d)
      | (None, as) \<Rightarrow> (case runStream E P A es True (f + 1) d of (rest, e, c'') \<Rightarrow> (as @ rest, e, c''))) = (acts, e, c')" for err s wr d
  proof (cases rule: ack_retry_cases [of E A err f s wr d])
    case (over er)
    with r show ?thesis using Cons.prems(3) by (auto intro!: exI [of _ 0])
  next
    case (ended er)
    with r show ?thesis by (auto intro!: exI [of _ 1])
  next
    case again
    obtain rest where rest: "runStream E P A es True (f + 1) d = (rest, e, c')"
      "acts = AckPause (ackBackoff (f + 1)) # Request (v4_subscribe E A d) # rest"
      using r again by (auto split: prod.splits)
    from Cons.IH [OF _ rest(1)] Cons.prems(1) again(2) obtain k where
      k: "f + 1 + k \<le> 4" "ack_pauses rest = map ackBackoff [Suc (f + 1)..<Suc (f + 1 + k)]" "length (requests rest) \<le> k"
        "e = Open \<longrightarrow> f + 1 + length (filter refuses es) \<le> 4" by auto
    have "[Suc f..<Suc (f + (k + 1))] = Suc f # [Suc (f + 1)..<Suc (f + 1 + k)]"
      by (simp add: upt_conv_Cons del: upt_Suc)
    then have "ack_pauses acts = map ackBackoff [Suc f..<Suc (f + (k + 1))]" by (simp only: rest(2) k(2) pauses_simps) simp
    with k show ?thesis by (intro conjI exI [of _ "k + 1"]) (auto simp: rest(2))
  qed
  show ?case
  proof (cases x)
    case (XFrame now raw slept written)
    obtain st err d where h: "handleFrame E P A now raw c = ((st, err), d)" by (metis surj_pair)
    note ack = handleFrame_ack(1,2) [OF h, of slept written, folded XFrame]
    have "st \<noteq> AckSuccess" using ack(1) Cons.prems(1) by simp
    show ?thesis
    proof (cases err)
      case (Some er)
      with Cons.prems(2,3) show ?thesis by (auto simp: XFrame h intro!: exI [of _ 0] split: ackState.splits)
    next
      case None
      show ?thesis
      proof (cases st)
        case AckNone
        with Cons.prems(2) None ack(2) show ?thesis by (intro step) (simp_all add: XFrame h)
      next
        case AckRefused
        with Cons.prems(2) None show ?thesis by (intro retry) (simp add: XFrame h)
      qed (use \<open>st \<noteq> AckSuccess\<close> in simp)
    qed
  next
    case (XAckTimeout slept written)
    show ?thesis
    proof (cases w)
      case True
      with Cons.prems(2) show ?thesis by (intro retry) (simp add: XAckTimeout)
    next
      case False
      with Cons.prems(2) show ?thesis by (intro step) (simp_all add: XAckTimeout refuses_def)
    qed
  qed (use Cons.prems in \<open>auto intro!: exI [of _ 0]\<close>)
qed (auto intro!: exI [of _ 0])

text \<open>C13. The acknowledgement protocol: as long as no acknowledgement arrives, a stream subscribes again at most
  four times, after pauses of 2, 4, 6 and 8 seconds in this order, and the fifth refusal ends it.\<close>

theorem ack_retries_bounded:
  assumes "list_all (\<lambda>e. \<not> acknowledges e) es" and "runStream E P A es True 0 c = (acts, e, c')"
  shows "(\<exists>k. ack_pauses acts = take k [2 * second, 4 * second, 6 * second, 8 * second]) \<and> length (requests acts) \<le> 4 \<and>
    (5 \<le> length (filter refuses es) \<longrightarrow> e \<noteq> Open)"
proof -
  from runStream_unacknowledged [OF assms] obtain k where k: "k \<le> 4" "ack_pauses acts = map ackBackoff [1..<Suc k]"
    "length (requests acts) \<le> k" "e = Open \<longrightarrow> length (filter refuses es) \<le> 4" by auto
  have "map ackBackoff [1..<Suc 4] = [2 * second, 4 * second, 6 * second, 8 * second]"
    by (simp add: upt_rec ackBackoff_def second_def)
  moreover have "map ackBackoff [1..<Suc k] = take k (map ackBackoff [1..<Suc 4])" using k(1) by (simp add: take_map take_upt)
  ultimately have "ack_pauses acts = take k [2 * second, 4 * second, 6 * second, 8 * second]" using k(2) by metis
  moreover have "length (requests acts) \<le> 4" using k(1,3) by simp
  moreover have "5 \<le> length (filter refuses es) \<longrightarrow> e \<noteq> Open" using k(4) by auto
  ultimately show ?thesis by blast
qed

text \<open>Once mode: storing the metrics of a pool reports completion exactly when this swap was the pool's first
  one in this mode and every pool has now been seen; the other pools keep their state.\<close>

theorem storeSwapMetrics_once:
  assumes "map_of (k4_pools c) i = Some st" and "distinct (map fst (k4_pools c))"
    and "storeSwapMetrics i m ts c = (res, c')"
  shows "\<exists>status. res = Some status \<and>
    (os_completed status \<longleftrightarrow> c4_Once (k4_cfg c) \<and> \<not> s4_onceEmitted st \<and> list_all (\<lambda>(_, s). s4_onceEmitted s) (k4_pools c')) \<and>
    (\<forall>j. j \<noteq> i \<longrightarrow> map_of (k4_pools c') j = map_of (k4_pools c) j) \<and>
    map_option s4_registered (map_of (k4_pools c') i) = Some True"
proof (rule storeSwapMetrics_Some [OF assms(1), of m ts])
  fix st'
  assume st': "s4_onceEmitted st' \<longleftrightarrow> s4_onceEmitted st \<or> c4_Once (k4_cfg c)" "s4_registered st'" "s4_meta st' = s4_meta st"
    and "storeSwapMetrics i m ts c =
       (let ps = mput i st' (k4_pools c); marked = (c4_Once (k4_cfg c) \<and> \<not> s4_onceEmitted st);
            remaining = (if marked then length (filter (\<lambda>(_, other). \<not> s4_onceEmitted other) ps) else 0)
        in (Some \<lparr>os_marked = marked, os_remaining = remaining, os_completed = (marked \<and> remaining = 0)\<rparr>, c\<lparr>k4_pools := ps\<rparr>))"
  then show ?thesis using assms(3) by (auto simp: Let_def filter_empty_conv list_all_iff)
qed

lemma pauses_retry: "ack_retry E A err f s w c = (r, acts) \<Longrightarrow> pauses acts = [] \<and> (\<forall>d. AckPause d \<in> set acts \<longrightarrow> d \<le> 10 * second)"
  by (auto simp: ack_retry_def ackBackoff_def Let_def split: if_splits)

lemma pauses_runStream:
  "runStream E P A es w f c = (acts, e, c') \<Longrightarrow> pauses acts = [] \<and> (\<forall>d. AckPause d \<in> set acts \<longrightarrow> d \<le> 10 * second)"
proof (induction E P A es w f c arbitrary: acts e c' rule: runStream.induct)
  case (6 E P A slept written es w f c)
  then show ?case by (fastforce split: if_splits prod.splits option.splits dest: pauses_retry)
next
  case (7 E P A now raw slept written es w f c)
  then show ?case by (fastforce split: prod.splits option.splits ackState.splits dest: pauses_retry)
qed simp_all

text \<open>The stream ends without an error only when the reader has closed its channel without one, which it
  does only when the context is cancelled.\<close>

lemma runStream_nil: "runStream E P A es w f c = (acts, Closed None, c') \<Longrightarrow> XErrsClosed \<in> set es"
  by (induction E P A es w f c arbitrary: acts c' rule: runStream.induct)
    (auto split: if_splits prod.splits option.splits ackState.splits)

definition v4_growing :: "nat \<Rightarrow> int" where
  "v4_growing i = ((\<lambda>d. nextBackoffDuration d backoffMax) ^^ i) backoff_start"

lemma v4_growing_Suc: "v4_growing (Suc i) = nextBackoffDuration (v4_growing i) backoffMax"
  by (simp add: v4_growing_def)

lemma v4_growing_values:
  "map v4_growing [0..<k] = take k [2 * second, 4 * second, 8 * second, 16 * second] @ replicate (k - 4) (30 * second)"
proof (induction k)
  case (Suc k)
  have early: "v4_growing 0 = 2 * second" "v4_growing 1 = 4 * second" "v4_growing 2 = 8 * second" "v4_growing 3 = 16 * second"
    by (simp_all add: v4_growing_def eval_nat_numeral nextBackoffDuration_def backoff_start_def backoffMax_def second_def)
  have late: "v4_growing (4 + j) = 30 * second" for j
    by (induction j)
      (simp_all add: v4_growing_def eval_nat_numeral nextBackoffDuration_def backoff_start_def backoffMax_def second_def)
  consider "k = 0" | "k = 1" | "k = 2" | "k = 3" | j where "k = 4 + j" 
  proof (cases "k < 4")
    case True
    then have "k = 0 \<or> k = 1 \<or> k = 2 \<or> k = 3" by linarith
    then show thesis using that by blast
  qed (use that le_add_diff_inverse not_less in metis)
  then show ?case
  proof cases
    case 5
    have "map v4_growing [0..<Suc k] = map v4_growing [0..<k] @ [30 * second]"
      unfolding upt_Suc using 5 late [of j] by simp
    with Suc 5 show ?thesis by (simp add: replicate_append_same del: upt_Suc)
  qed (use early in \<open>simp_all add: upt_rec numeral_2_eq_2 numeral_3_eq_3\<close>)
qed simp

definition v4_run_of :: "nat \<Rightarrow> int list \<Rightarrow> bool" where
  "v4_run_of n ds \<longleftrightarrow> (\<exists>k. ds = map v4_growing [n..<n + k])"

lemma v4_run_of_Nil [simp]: "v4_run_of n []"
  unfolding v4_run_of_def by (rule exI [of _ 0]) simp

lemma v4_run_of_Cons: "v4_run_of (Suc n) ds \<Longrightarrow> v4_run_of n (v4_growing n # ds)"
proof -
  assume "v4_run_of (Suc n) ds"
  then obtain k where "ds = map v4_growing [Suc n..<Suc n + k]" by (auto simp: v4_run_of_def)
  then have "v4_growing n # ds = map v4_growing [n..<n + Suc k]" by (simp add: upt_conv_Cons del: upt_Suc)
  then show ?thesis unfolding v4_run_of_def by (rule exI)
qed

lemma rounds_growing:
  assumes "\<forall>r \<in> set rs. XErrsClosed \<notin> set (r4_events r)" and "v4_rounds E P A rs (v4_growing n) c = (acts, e, c')"
  shows "v4_run_of n (pauses acts)"
  using assms
proof (induction rs arbitrary: n c acts e c')
  case (Cons r rs)
  have more: "v4_run_of n (v4_growing n # pauses acts')"
    if "v4_rounds E P A rs (nextBackoffDuration (v4_growing n) backoffMax) d = (acts', e', c'')" for acts' e' c'' d
    using Cons.IH [of "Suc n" d acts' e' c''] Cons.prems(1) that by (intro v4_run_of_Cons) (simp add: v4_growing_Suc)
  have one: "v4_run_of n [v4_growing n]" by (simp add: v4_run_of_Cons)
  obtain sacts se c1 where s: "runStream E P A (r4_events r) True 0 c = (sacts, se, c1)" by (metis surj_pair)
  have "se \<noteq> Closed None" using runStream_nil [of E P A "r4_events r" True 0 c sacts c1] s Cons.prems(1) by auto
  moreover have "pauses sacts = []" using pauses_runStream [OF s] by simp
  ultimately show ?case
    using Cons.prems(2) one
    by (auto simp: s Let_def dest: more split: if_splits prod.splits stream_end.splits option.splits)
qed simp

text \<open>Reconnecting: as long as the context is not cancelled, the pauses between connections are 2, 4, 8, 16 and
  then always 30 seconds, whatever the sessions in between have achieved: a session that worked for hours
  does not bring the delay back to its start, although the code has a statement that resets it.\<close>

theorem V4_backoff_never_reset:
  assumes "\<forall>r \<in> set rs. XErrsClosed \<notin> set (r4_events r)" and "v4_rounds E P A rs backoff_start c = (acts, e, c')"
  shows "\<exists>k. pauses acts = take k [2 * second, 4 * second, 8 * second, 16 * second] @ replicate (k - 4) (30 * second)"
proof -
  from assms have "v4_rounds E P A rs (v4_growing 0) c = (acts, e, c')" by (simp add: v4_growing_def)
  from rounds_growing [OF assms(1) this] obtain k where k: "pauses acts = map v4_growing [0..<k]"
    by (auto simp: v4_run_of_def)
  have "map v4_growing [0..<k] = take k [2 * second, 4 * second, 8 * second, 16 * second] @ replicate (k - 4) (30 * second)"
    by (rule v4_growing_values)
  with k show ?thesis by metis
qed

lemma rounds_delays4:
  "v4_delay b \<Longrightarrow> v4_rounds E P A rs b c = (acts, e, c') \<Longrightarrow>
     (\<forall>d. Pause d \<in> set acts \<longrightarrow> v4_delay d) \<and> (\<forall>d. AckPause d \<in> set acts \<longrightarrow> d \<le> 10 * second)"
proof (induction rs arbitrary: b c acts e c')
  case (Cons r rs)
  have no: "Pause d \<notin> set as" if "pauses as = []" for d as
    using that by (auto simp: pauses_def)
  obtain sacts se c1 where s: "runStream E P A (r4_events r) True 0 c = (sacts, se, c1)" by (metis surj_pair)
  note sp = pauses_runStream [OF s]
  from Cons.prems(1) have b: "v4_delay (nextBackoffDuration b backoffMax)" "v4_delay backoff_start"
    using v4.closed v4.first_valid by auto
  show ?case
    using Cons.prems Cons.IH [OF b(1)] Cons.IH [OF b(2)] sp no [of sacts]
    by (fastforce simp: s Let_def split: if_splits prod.splits stream_end.splits option.splits)
qed simp

text \<open>C8. A whole run with the graph pricer, whatever the file, the node and the sockets deliver: every message sent
  has the connector's exchange name and a positive finite price, the pricer keeps its invariant, and the
  pauses are those of the policies: 2, 4, 8, 16 or 30 seconds between connections and at most 10 seconds
  before subscribing again.\<close>

theorem V4_Run_safe:
  assumes "eth_ok E" and "range_order ord"
    and "NewV4Connector cfg (Some (NewGraphPricerFromAssets E provider nets fallback)) = Inr c"
    and "v4_Run E (graph_pricer E ord now) abi read_file decode ci cf cl rs c = (acts, e, c')"
  shows "list_all (\<lambda>m. md_ok m \<and> md_Exchange m = v4_exchangeName c) (k4_out c') \<and> graph_inv E ord (k4_pricer c') \<and>
    (\<forall>d. Pause d \<in> set acts \<longrightarrow> v4_delay d) \<and> (\<forall>d. AckPause d \<in> set acts \<longrightarrow> d \<le> 10 * second)"
proof -
  have "graph_inv E ord (registerAnchors E ts newGraphPricer)" for ts
    using graph_inv_new [OF assms(1,2)] by (simp add: NewGraphPricer_def)
  then have c: "graph_inv E ord (k4_pricer c)" "k4_out c = []"
    using assms(3) by (auto simp: NewV4Connector_def NewGraphPricerFromAssets_def Let_def split: if_splits)
  have "(\<forall>d. Pause d \<in> set acts \<longrightarrow> v4_delay d) \<and> (\<forall>d. AckPause d \<in> set acts \<longrightarrow> d \<le> 10 * second)"
  proof (cases "acts = []")
    case False
    then obtain A d where "v4_rounds E (graph_pricer E ord now) A rs backoff_start d = (acts, e, c')"
      using assms(4) by (auto simp: v4_Run_def split: option.splits prod.splits)
    from rounds_delays4 [OF v4.first_valid this] show ?thesis .
  qed simp
  with graph.v4_Run_inv [OF c assms(4)] show ?thesis by (simp add: list_all_iff)
qed

lemma final_loop_states:
  assumes "final_loop P cancelled n pools fin c = (Inr fin', c')" and "distinct (map fst fin)"
  shows "distinct (map fst fin') \<and> k4_cfg c' = k4_cfg c \<and>
    (\<forall>i. map_option s4_meta (map_of fin' i) =
       (case map_of fin i of Some st \<Rightarrow> Some (s4_meta st) | None \<Rightarrow> find (\<lambda>p. p4_PoolID p = i) pools))"
  using assms
proof (induction pools arbitrary: n fin c)
  case Nil
  then show ?case by (auto split: option.split)
next
  case (Cons pool pools)
  have k: "p4_PoolID pool \<in> fst ` set fin \<longleftrightarrow> map_of fin (p4_PoolID pool) \<noteq> None"
    by (simp add: map_of_eq_None_iff del: not_None_eq)
  have cfg: "k4_cfg (v4_registerToken P t d) = k4_cfg d" for t d by (simp add: v4_registerToken_def Let_def)
  show ?case
  proof (cases "p4_PoolID pool \<in> fst ` set fin")
    case True
    with Cons.prems have "final_loop P cancelled (Suc n) pools fin c = (Inr fin', c')" by (auto split: if_splits)
    from Cons.IH [OF this Cons.prems(2)] True k show ?thesis by (auto split: option.split)
  next
    case False
    with Cons.prems have "final_loop P cancelled (Suc n) pools (mput (p4_PoolID pool) (fresh_state pool) fin)
        (v4_registerToken P (p4_Token1 pool) (v4_registerToken P (p4_Token0 pool) c)) = (Inr fin', c')" by (auto split: if_splits)
    from Cons.IH [OF this distinct_mput [OF Cons.prems(2)]] False k
    show ?thesis by (auto simp: fresh_state_def cfg split: option.split)
  qed
qed


subsection \<open>Concrete runs\<close>

definition demo_abi :: v4_abi where
  "demo_abi = \<lparr>ab_swapID = Some 77, ab_event = (\<lambda>_. None), ab_decode = (\<lambda>_. None), ab_unpack = (\<lambda>_. None), ab_decodeBig = (\<lambda>_. None)\<rparr>"

definition refusal :: v4_event where
  "refusal = XFrame 0 \<lparr>f4_ack = Some \<lparr>a4_Result = [], a4_Error = Some (5, ''busy'')\<rparr>, f4_note = None\<rparr> True True"

definition approval :: v4_event where
  "approval = XFrame 0 \<lparr>f4_ack = Some \<lparr>a4_Result = ''0x1'', a4_Error = None\<rparr>, f4_note = None\<rparr> True True"

definition demo_round4 :: v4_round where
  "demo_round4 = \<lparr>r4_cancelled = False, r4_dial = True, r4_written = True, r4_events = [approval, XReadError], r4_stopped = False, r4_slept = True\<rparr>"

definition demo_v4 :: "GraphPricer V4Connector" where
  "demo_v4 = \<lparr>k4_cfg = demo_cfg4, k4_pricer = NewGraphPricerFromAssets plain_eth None [] [], k4_pools = [], k4_tokens = (\<lambda>_. False),
     k4_successUpdates = 0, k4_conversionErrors = 0, k4_unknownPoolEvents = 0, k4_out = []\<rparr>"

abbreviation (input) demo_pricer :: "GraphPricer Pricer" where
  "demo_pricer \<equiv> graph_pricer plain_eth in_order 9"

theorem ack_retries_bounded_witness:
  "\<exists>acts e c'. runStream plain_eth demo_pricer demo_abi (replicate 5 refusal) True 0 demo_v4 = (acts, e, c') \<and> e \<noteq> Open \<and>
     length (requests acts) \<le> 4"
proof -
  have "list_all (\<lambda>e. \<not> acknowledges e) (replicate 5 refusal) \<and> length (filter refuses (replicate 5 refusal)) = 5"
    by (simp add: refusal_def acknowledges_def refuses_def parseAck_def eval_nat_numeral)
  moreover obtain acts e c' where "runStream plain_eth demo_pricer demo_abi (replicate 5 refusal) True 0 demo_v4 = (acts, e, c')"
    by (metis surj_pair)
  ultimately show ?thesis using ack_retries_bounded by (metis order_refl)
qed

theorem storeSwapMetrics_once_witness:
  "\<exists>status c'. storeSwapMetrics 11 \<lparr>m4_price = None, m4_price1Per0 = None, m4_price0Per1 = None, m4_float1 = 0, m4_float0 = 0,
      m4_weight = 0, m4_amount0 = None, m4_amount1 = None, m4_liquidity = None, m4_fee = None, m4_tick = 0\<rparr> 5
      (demo_v4\<lparr>k4_cfg := demo_cfg4\<lparr>c4_Once := True\<rparr>, k4_pools := [(11, fresh_state demo_pool4)]\<rparr>) = (Some status, c') \<and>
     os_completed status"
proof -
  let ?m = "\<lparr>m4_price = None, m4_price1Per0 = None, m4_price0Per1 = None, m4_float1 = 0, m4_float0 = 0,
      m4_weight = 0, m4_amount0 = None, m4_amount1 = None, m4_liquidity = None, m4_fee = None, m4_tick = 0\<rparr>"
  let ?c = "demo_v4\<lparr>k4_cfg := demo_cfg4\<lparr>c4_Once := True\<rparr>, k4_pools := [(11, fresh_state demo_pool4)]\<rparr>"
  obtain res c' where s: "storeSwapMetrics 11 ?m 5 ?c = (res, c')" by (metis surj_pair)
  then have "list_all (\<lambda>(_, s). s4_onceEmitted s) (k4_pools c')"
    by (auto simp: storeSwapMetrics_def fresh_state_def mput_def)
  moreover from storeSwapMetrics_once [OF _ _ s, of "fresh_state demo_pool4"] obtain status where "res = Some status"
    "os_completed status \<longleftrightarrow> list_all (\<lambda>(_, s). s4_onceEmitted s) (k4_pools c')"
    by (auto simp: fresh_state_def)
  ultimately show ?thesis using s by blast
qed

theorem V4_backoff_never_reset_witness:
  "\<exists>k. pauses (fst (v4_rounds plain_eth demo_pricer demo_abi [demo_round4, demo_round4] backoff_start demo_v4)) =
     take k [2 * second, 4 * second, 8 * second, 16 * second] @ replicate (k - 4) (30 * second)"
proof -
  obtain acts e c' where r: "v4_rounds plain_eth demo_pricer demo_abi [demo_round4, demo_round4] backoff_start demo_v4 = (acts, e, c')"
    by (metis surj_pair)
  have "\<forall>r \<in> set [demo_round4, demo_round4]. XErrsClosed \<notin> set (r4_events r)" by (simp add: demo_round4_def approval_def)
  from V4_backoff_never_reset [OF this r] show ?thesis unfolding r by simp
qed

theorem V4_Run_safe_witness:
  "\<exists>c acts e c'. NewV4Connector demo_cfg4 (Some (NewGraphPricerFromAssets plain_eth None [] [])) = Inr c \<and>
     v4_Run plain_eth demo_pricer (Some demo_abi) (\<lambda>_. None :: unit option) (\<lambda>_. None) (\<lambda>_. False) (\<lambda>_. False) (\<lambda>_. False)
       [demo_round4, demo_round4] c = (acts, e, c') \<and> graph_inv plain_eth in_order (k4_pricer c')"
proof -
  have t: "to_lower (trim_space ''uniswap_v4'') = ''uniswap_v4''" "to_lower (trim_space ''eth'') = ''eth''" by code_simp+
  then obtain c where c: "NewV4Connector demo_cfg4 (Some (NewGraphPricerFromAssets plain_eth None [] [])) = Inr c"
    by (simp add: NewV4Connector_def demo_cfg4_def)
  obtain acts e c' where r: "v4_Run plain_eth demo_pricer (Some demo_abi) (\<lambda>_. None :: unit option) (\<lambda>_. None) (\<lambda>_. False) (\<lambda>_. False)
      (\<lambda>_. False) [demo_round4, demo_round4] c = (acts, e, c')" by (metis surj_pair)
  from V4_Run_safe [OF plain_eth_ok range_order_in_order c r] c r show ?thesis by blast
qed


end
