(* ===== verification/Launcher_Dex.thy ===== *)
theory Launcher_Dex
  imports Core Uniswap_V3 Uniswap_V4
begin

text \<open>
  The builders of the Uniswap connectors (\<open>internal/launcher/register_dex.go\<close>) and the two loops of \<open>main\<close> that
  call the builders. A builder's result is the name under which the connector is supervised and the connector
  as it is when its \<open>Run\<close> starts. \<open>DataChannel\<close>, \<open>Stop\<close> and \<open>Supervisor\<close> of the launch context are the
  run-time side of \<open>Run\<close> and of the supervisor. The dereference of a nil pointer is the error \<open>NilDereference\<close>.
\<close>

subsection \<open>Configurations\<close>

datatype dex_error =
    PricerNotConfigured string | MissingConfiguration | NilDereference | WsUrlEmpty | HttpUrlEmpty | UrlsEmpty string
  | PoolsFailed pools_error | PoolsPathEmpty | InvalidPoolManager
  | PoolWithoutID nat | PoolBadID nat string | PoolBadToken0 nat string | PoolBadToken1 nat string
  | ConnectorFailed v4_error | CexFailed launch_error

text \<open>\<open>time.Duration(n) * time.Second\<close> with the default of 25 seconds: V2 puts the default for the number, V3 and V4
  for the product.\<close>

definition v2_ping :: "int \<Rightarrow> int" where
  "v2_ping n = duration (if n \<le> 0 then 25 else n) second"

definition ping_duration :: "int \<Rightarrow> int" where
  "ping_duration n = (let d = duration n second in if d \<le> 0 then 25 * second else d)"

definition subscribe_batch :: "int \<Rightarrow> int" where
  "subscribe_batch n = (if n \<le> 0 then 150 else n)"

definition buildUniswapV2Config ::
    "eth_lib \<Rightarrow> (string \<Rightarrow> string) \<Rightarrow> (string \<Rightarrow> 'd option) \<Rightarrow> ('d \<Rightarrow> geckoPool list option) \<Rightarrow> DexConfig \<Rightarrow> string \<Rightarrow> Provider option
     \<Rightarrow> (dex_error, V2Config) result" where
  "buildUniswapV2Config E getenv read_file decode dexCfg sharedPools assetsProvider =
     (if dc_WSURL dexCfg = [] then Inl WsUrlEmpty
      else if dc_HTTPURL dexCfg = [] then Inl HttpUrlEmpty
      else let path = ResolvePoolsPath getenv dexCfg sharedPools;
               registry = NewTokenRegistry E assetsProvider (dc_Network dexCfg)
           in case LoadPoolsFromGeckoWithRegistry E read_file decode path (Some registry) of
                Inl e \<Rightarrow> Inl (PoolsFailed e)
              | Inr pools \<Rightarrow> Inr \<lparr>v2_WSURL = dc_WSURL dexCfg, v2_HTTPURL = dc_HTTPURL dexCfg, v2_Exchange = dc_Name dexCfg,
                  v2_Pools = map FinalizePool pools, v2_SubscribeBatchSize = subscribe_batch (dc_SubscribeBatch dexCfg),
                  v2_PingInterval = v2_ping (dc_PingInterval dexCfg)\<rparr>)"

definition buildUniswapV3Config ::
    "eth_lib \<Rightarrow> (string \<Rightarrow> string) \<Rightarrow> DexConfig \<Rightarrow> string \<Rightarrow> Provider option \<Rightarrow> (dex_error, V3Config) result" where
  "buildUniswapV3Config E getenv dexCfg sharedPools assetsProvider =
     (if dc_WSURL dexCfg = [] \<or> dc_HTTPURL dexCfg = [] then Inl (UrlsEmpty ''uniswap_v3'')
      else let path = ResolvePoolsPath getenv dexCfg sharedPools in
        if path = [] then Inl PoolsPathEmpty
        else Inr \<lparr>c3_Exchange = dc_Name dexCfg, c3_WSURL = dc_WSURL dexCfg, c3_HTTPURL = dc_HTTPURL dexCfg, c3_PoolsPath = path,
          c3_DexFilter = ps_GeckoDex (dc_PoolsSource dexCfg), c3_NetworkFilter = ps_GeckoNetwork (dc_PoolsSource dexCfg),
          c3_BatchSize = subscribe_batch (dc_SubscribeBatch dexCfg), c3_PingInterval = ping_duration (dc_PingInterval dexCfg),
          c3_StopOnAckError = dc_StopOnAckError dexCfg, c3_LogAllEvents = dc_LogAllEvents dexCfg,
          c3_DecodeSwapOnly = dc_SwapOnly dexCfg, c3_MaxMetaWorkers = dc_MaxMetaWorkers dexCfg,
          c3_Registry = Some (NewTokenRegistry E assetsProvider (dc_Network dexCfg))\<rparr>)"

text \<open>\<open>None\<close> for an invalid address.\<close>

definition buildTokenMetaForV4 :: "eth_lib \<Rightarrow> TokenRegistry \<Rightarrow> string \<Rightarrow> string \<Rightarrow> int \<Rightarrow> TokenMeta option" where
  "buildTokenMetaForV4 E registry addrStr symbol decimals =
     (let trimmed = trim_space addrStr in
      if \<not> eth_IsHexAddress E trimmed then None
      else let addr = eth_HexToAddress E trimmed; meta = Resolve E registry addr symbol decimals in
        if tm_Address meta \<noteq> 0 then Some meta
        else let sy = to_upper (trim_space symbol);
                 sy = (if sy = [] then upper_hex E addr else sy)
             in Some (meta\<lparr>tm_Address := addr, tm_Symbol := sy, tm_Decimals := (if decimals \<le> 0 then 18 else decimals)\<rparr>))"

definition convertDexPool :: "eth_lib \<Rightarrow> TokenRegistry \<Rightarrow> nat \<Rightarrow> DexPoolConfig \<Rightarrow> (dex_error, V4PoolConfig) result" where
  "convertDexPool E registry idx entry =
     (let poolID = trim_space (dp_Address entry) in
      if poolID = [] then Inl (PoolWithoutID idx)
      else if length poolID \<noteq> 66 \<or> \<not> has_prefix (to_lower poolID) ''0x'' then Inl (PoolBadID idx poolID)
      else case buildTokenMetaForV4 E registry (dp_Token0Address entry) (dp_Token0Symbol entry) (uint (dp_Token0Decimals entry)) of
        None \<Rightarrow> Inl (PoolBadToken0 idx (dp_Token0Address entry))
      | Some token0 \<Rightarrow> (case buildTokenMetaForV4 E registry (dp_Token1Address entry) (dp_Token1Symbol entry) (uint (dp_Token1Decimals entry)) of
           None \<Rightarrow> Inl (PoolBadToken1 idx (dp_Token1Address entry))
         | Some token1 \<Rightarrow>
             (let pairName = trim_space (dp_PairName entry);
                  pairName = (if pairName = [] then tm_Symbol token0 @ ''/'' @ tm_Symbol token1 else pairName)
              in Inr \<lparr>p4_PoolID = eth_HexToHash E poolID, p4_PoolAddress = 0, p4_HookAddress = 0, p4_PairName = pairName,
                   p4_Token0 = token0, p4_Token1 = token1, p4_BaseIsToken0 = dp_BaseIsToken0 entry,
                   p4_CanonicalPair = trim_space (dp_CanonicalPair entry)\<rparr>)))"

fun convertDexPoolsToV4 :: "eth_lib \<Rightarrow> TokenRegistry \<Rightarrow> nat \<Rightarrow> DexPoolConfig list \<Rightarrow> (dex_error, V4PoolConfig list) result" where
  "convertDexPoolsToV4 E registry idx [] = Inr []"
| "convertDexPoolsToV4 E registry idx (entry # pools) =
     bind_res (convertDexPool E registry idx entry) (\<lambda>p.
     bind_res (convertDexPoolsToV4 E registry (Suc idx) pools) (\<lambda>ps. Inr (p # ps)))"

text \<open>The keys seen are the upper-case texts of the result so far.\<close>

fun add_wanted :: "string list \<Rightarrow> string list \<Rightarrow> string list" where
  "add_wanted result [] = result"
| "add_wanted result (raw # rest) =
     (let trimmed = trim_space raw in
      if trimmed = [] then add_wanted result rest
      else if to_upper trimmed \<in> to_upper ` set result then add_wanted result rest
      else add_wanted (result @ [trimmed]) rest)"

definition mergeWantedPairs :: "string list \<Rightarrow> string list \<Rightarrow> string list" where
  "mergeWantedPairs primary secondary = add_wanted (add_wanted [] primary) secondary"

definition buildUniswapV4Config ::
    "eth_lib \<Rightarrow> (string \<Rightarrow> string) \<Rightarrow> DexConfig \<Rightarrow> string \<Rightarrow> Provider option \<Rightarrow> (dex_error, V4Config) result" where
  "buildUniswapV4Config E getenv dexCfg sharedPools assetsProvider =
     (let wsURL = trim_space (dc_WSURL dexCfg); httpURL = trim_space (dc_HTTPURL dexCfg);
          manager = trim_space (dc_PoolManager dexCfg);
          registry = NewTokenRegistry E assetsProvider (dc_Network dexCfg);
          exchangeName = (if trim_space (dc_Name dexCfg) = [] then ''uniswap_v4'' else trim_space (dc_Name dexCfg))
      in if wsURL = [] \<or> httpURL = [] then Inl (UrlsEmpty ''uniswap_v4'')
         else if \<not> eth_IsHexAddress E manager then Inl InvalidPoolManager
         else bind_res (convertDexPoolsToV4 E registry 0 (dc_Pools dexCfg)) (\<lambda>inlinePools.
           Inr \<lparr>c4_Exchange = to_lower exchangeName, c4_Network = to_lower (trim_space (dc_Network dexCfg)), c4_WSURL = wsURL,
             c4_HTTPURL = httpURL, c4_PoolManager = eth_HexToAddress E manager,
             c4_PoolsPath = trim_space (ResolvePoolsPath getenv dexCfg (trim_space sharedPools)), c4_Pools = inlinePools,
             c4_SubscribeBatch = subscribe_batch (dc_SubscribeBatch dexCfg), c4_PingInterval = ping_duration (dc_PingInterval dexCfg),
             c4_MaxMetaWorkers = (if dc_MaxMetaWorkers dexCfg \<le> 0 then 4 else dc_MaxMetaWorkers dexCfg), c4_SwapOnly = dc_SwapOnly dexCfg,
             c4_LogAllEvents = dc_LogAllEvents dexCfg, c4_StopOnAckError = dc_StopOnAckError dexCfg, c4_Once = dc_Once dexCfg,
             c4_WantedPairs = mergeWantedPairs (dc_WantedPairs dexCfg) (ps_WantedPairs (dc_PoolsSource dexCfg)),
             c4_WantedPairsOnly = dc_WantedPairsOnly dexCfg, c4_Registry = Some registry\<rparr>))"

subsection \<open>Builders\<close>

record 'p LaunchContext =
  lc_Config :: Config
  lc_Pricer :: "'p option"
  lc_Assets :: "Provider option"

datatype 'p launched = LaunchedCex cex_plan | LaunchedV2 string "'p Connector" | LaunchedV3 string V3Config 'p
  | LaunchedV4 string "'p V4Connector"

definition buildUniswapV2 ::
    "eth_lib \<Rightarrow> (string \<Rightarrow> string) \<Rightarrow> (string \<Rightarrow> 'd option) \<Rightarrow> ('d \<Rightarrow> geckoPool list option) \<Rightarrow> 'p LaunchContext \<Rightarrow> DexConfig option
     \<Rightarrow> (dex_error, 'p launched) result" where
  "buildUniswapV2 E getenv read_file decode ctx dexCfg =
     (case lc_Pricer ctx of None \<Rightarrow> Inl (PricerNotConfigured ''uniswap_v2'')
      | Some pricer \<Rightarrow> (case dexCfg of None \<Rightarrow> Inl NilDereference
         | Some d \<Rightarrow> bind_res (buildUniswapV2Config E getenv read_file decode d (ResolveSharedPoolsPath getenv (lc_Config ctx)) (lc_Assets ctx))
             (\<lambda>cfg. Inr (LaunchedV2 (if v2_Exchange cfg = [] then ''uniswap_v2'' else v2_Exchange cfg) (NewConnector cfg (Some pricer))))))"

definition buildUniswapV3 ::
    "eth_lib \<Rightarrow> (string \<Rightarrow> string) \<Rightarrow> 'p LaunchContext \<Rightarrow> DexConfig option \<Rightarrow> (dex_error, 'p launched) result" where
  "buildUniswapV3 E getenv ctx dexCfg =
     (case lc_Pricer ctx of None \<Rightarrow> Inl (PricerNotConfigured ''uniswap_v3'')
      | Some pricer \<Rightarrow> (case dexCfg of None \<Rightarrow> Inl NilDereference
         | Some d \<Rightarrow> bind_res (buildUniswapV3Config E getenv d (ResolveSharedPoolsPath getenv (lc_Config ctx)) (lc_Assets ctx))
             (\<lambda>cfg. Inr (LaunchedV3 (if c3_Exchange cfg = [] then ''uniswap_v3'' else c3_Exchange cfg) cfg pricer))))"

definition buildUniswapV4 ::
    "eth_lib \<Rightarrow> (string \<Rightarrow> string) \<Rightarrow> 'p LaunchContext \<Rightarrow> DexConfig option \<Rightarrow> (dex_error, 'p launched) result" where
  "buildUniswapV4 E getenv ctx dexCfg =
     (if lc_Pricer ctx = None then Inl (PricerNotConfigured ''uniswap_v4'')
      else case dexCfg of None \<Rightarrow> Inl MissingConfiguration
      | Some d \<Rightarrow> bind_res (buildUniswapV4Config E getenv d (ResolveSharedPoolsPath getenv (lc_Config ctx)) (lc_Assets ctx)) (\<lambda>cfg.
          case NewV4Connector cfg (lc_Pricer ctx) of Inl e \<Rightarrow> Inl (ConnectorFailed e)
          | Inr c \<Rightarrow> Inr (LaunchedV4 (if c4_Exchange cfg = [] then ''uniswap_v4'' else c4_Exchange cfg) c)))"

text \<open>One call of a builder by \<open>main\<close>, and the two loops: an error is logged, a nil dereference ends the process.\<close>

definition cex_launch :: "(launch_error, cex_plan) result \<Rightarrow> (dex_error, 'p launched) result" where
  "cex_launch r = (case r of Inl e \<Rightarrow> Inl (CexFailed e) | Inr p \<Rightarrow> Inr (LaunchedCex p))"

definition call_builder ::
    "eth_lib \<Rightarrow> (string \<Rightarrow> string) \<Rightarrow> (string \<Rightarrow> 'd option) \<Rightarrow> ('d \<Rightarrow> geckoPool list option) \<Rightarrow> time \<Rightarrow> 'p LaunchContext
     \<Rightarrow> builder \<Rightarrow> string list \<Rightarrow> DexConfig option \<Rightarrow> (dex_error, 'p launched) result" where
  "call_builder E getenv read_file decode now ctx b symbols dexCfg =
     (case b of
        BuildBybit \<Rightarrow> cex_launch (buildBybit (lc_Config ctx) symbols)
      | BuildGate \<Rightarrow> cex_launch (buildGate now (lc_Config ctx) symbols)
      | BuildBitget \<Rightarrow> cex_launch (buildBitget (lc_Config ctx) symbols)
      | BuildOkx \<Rightarrow> cex_launch (buildOkx (lc_Config ctx) symbols)
      | BuildUniswapV2 \<Rightarrow> buildUniswapV2 E getenv read_file decode ctx dexCfg
      | BuildUniswapV3 \<Rightarrow> buildUniswapV3 E getenv ctx dexCfg
      | BuildUniswapV4 \<Rightarrow> buildUniswapV4 E getenv ctx dexCfg)"

fun run_launches ::
    "eth_lib \<Rightarrow> (string \<Rightarrow> string) \<Rightarrow> (string \<Rightarrow> 'd option) \<Rightarrow> ('d \<Rightarrow> geckoPool list option) \<Rightarrow> time \<Rightarrow> 'p LaunchContext \<Rightarrow> launch list
     \<Rightarrow> (dex_error, 'p launched) result list \<times> bool" where
  "run_launches E getenv read_file decode now ctx [] = ([], False)"
| "run_launches E getenv read_file decode now ctx (l # ls) =
     (let r = (case l of LaunchExchange b ex symbols \<Rightarrow> call_builder E getenv read_file decode now ctx b symbols None
                | LaunchDex b d \<Rightarrow> call_builder E getenv read_file decode now ctx b [] (Some d))
      in if r = Inl NilDereference then ([], True)
         else case run_launches E getenv read_file decode now ctx ls of (rs, panicked) \<Rightarrow> (r # rs, panicked))"

subsection \<open>Lemmas: wanted pairs\<close>

definition trimmed_items :: "string list \<Rightarrow> string list" where
  "trimmed_items xs = filter (\<lambda>s. s \<noteq> []) (map trim_space xs)"

lemma find_append: "find P (xs @ ys) = (case find P xs of Some x \<Rightarrow> Some x | None \<Rightarrow> find P ys)"
  by (induction xs) auto

lemma add_wanted_find:
  "find (\<lambda>s. to_upper s = k) (add_wanted result xs) = find (\<lambda>s. to_upper s = k) (result @ trimmed_items xs)"
proof (induction result xs rule: add_wanted.induct)
  case (2 result raw rest)
  show ?case
  proof (cases "to_upper (trim_space raw) \<in> to_upper ` set result")
    case True
    then have "to_upper (trim_space raw) = k \<Longrightarrow> find (\<lambda>s. to_upper s = k) result \<noteq> None"
      by (auto simp: find_None_iff)
    then have "find (\<lambda>s. to_upper s = k) (result @ trim_space raw # trimmed_items rest)
        = find (\<lambda>s. to_upper s = k) (result @ trimmed_items rest)"
      by (cases "find (\<lambda>s. to_upper s = k) result") (auto simp: find_append)
    with True 2 show ?thesis by (simp add: Let_def trimmed_items_def)
  qed (use 2 in \<open>simp add: Let_def trimmed_items_def\<close>)
qed (simp add: trimmed_items_def)

lemma add_wanted_distinct: "distinct (map to_upper result) \<Longrightarrow> distinct (map to_upper (add_wanted result xs))"
  by (induction result xs rule: add_wanted.induct) (simp_all add: Let_def)

text \<open>The wanted pairs of a section and of its pools source are merged without loss: whatever key is asked
  for, the merged list names it by the first spelling of the two lists, in the order section, source; blanks
  around a pair and empty entries do not count, and no key occurs twice in any letter case.\<close>

theorem mergeWantedPairs_merges:
  "find (\<lambda>s. to_upper s = k) (mergeWantedPairs primary secondary)
     = find (\<lambda>s. to_upper s = k) (trimmed_items (primary @ secondary)) \<and>
   distinct (map to_upper (mergeWantedPairs primary secondary))"
  unfolding mergeWantedPairs_def
  by (simp add: add_wanted_find add_wanted_distinct trimmed_items_def find_append)

subsection \<open>Lemmas: launches\<close>

lemma run_launches_panics:
  "snd (run_launches E getenv read_file decode now ctx ls) \<longleftrightarrow>
     (\<exists>l \<in> set ls. (case l of LaunchExchange b ex symbols \<Rightarrow> call_builder E getenv read_file decode now ctx b symbols None
        | LaunchDex b d \<Rightarrow> call_builder E getenv read_file decode now ctx b [] (Some d)) = Inl NilDereference)"
  by (induction ls) (auto simp: Let_def split: prod.split)

lemma convertDexPool_no_nil: "convertDexPool E r i e \<noteq> Inl NilDereference \<and> convertDexPool E r i e \<noteq> Inl (PricerNotConfigured x)"
  by (simp add: convertDexPool_def Let_def split: option.split)

lemma convertDexPools_no_nil:
  "convertDexPoolsToV4 E r i es \<noteq> Inl NilDereference \<and> convertDexPoolsToV4 E r i es \<noteq> Inl (PricerNotConfigured x)"
proof (induction es arbitrary: i)
  case (Cons e es)
  from Cons [of "Suc i"] convertDexPool_no_nil [of E r i e x] show ?case
    by (cases "convertDexPool E r i e"; cases "convertDexPoolsToV4 E r (Suc i) es") auto
qed simp

lemma configs_no_nil:
  "buildUniswapV2Config E getenv read_file decode d sp a \<noteq> Inl NilDereference"
  "buildUniswapV2Config E getenv read_file decode d sp a \<noteq> Inl (PricerNotConfigured x)"
  "buildUniswapV3Config E getenv d sp a \<noteq> Inl NilDereference" "buildUniswapV3Config E getenv d sp a \<noteq> Inl (PricerNotConfigured x)"
  "buildUniswapV4Config E getenv d sp a \<noteq> Inl NilDereference" "buildUniswapV4Config E getenv d sp a \<noteq> Inl (PricerNotConfigured x)"
proof -
  show "buildUniswapV4Config E getenv d sp a \<noteq> Inl NilDereference" "buildUniswapV4Config E getenv d sp a \<noteq> Inl (PricerNotConfigured x)"
    using convertDexPools_no_nil [of E "NewTokenRegistry E a (dc_Network d)" 0 "dc_Pools d" x]
    by (cases "convertDexPoolsToV4 E (NewTokenRegistry E a (dc_Network d)) 0 (dc_Pools d)"; auto simp: buildUniswapV4Config_def Let_def)+
qed (simp_all add: buildUniswapV2Config_def buildUniswapV3Config_def Let_def split: sum.split)

lemma cex_launch_no_nil [simp]: "cex_launch r \<noteq> Inl NilDereference" "cex_launch r \<noteq> Inl (PricerNotConfigured x)"
  by (simp_all add: cex_launch_def split: sum.split)

lemma bind_res_Inl: "bind_res r f = Inl e \<longleftrightarrow> r = Inl e \<or> (\<exists>x. r = Inr x \<and> f x = Inl e)"
  by (cases r) auto

lemma connector_no_nil [simp]:
  "(case s of Inl e \<Rightarrow> Inl (ConnectorFailed e) | Inr c \<Rightarrow> Inr (g c)) \<noteq> Inl NilDereference"
  "(case s of Inl e \<Rightarrow> Inl (ConnectorFailed e) | Inr c \<Rightarrow> Inr (g c)) \<noteq> Inl (PricerNotConfigured x)"
  by (simp_all split: sum.split)

text \<open>A builder dereferences nil exactly when it is one of two, has a pricer and gets no section.\<close>

lemma call_builder_nil:
  "call_builder E getenv read_file decode now ctx b symbols dexCfg = Inl NilDereference \<longleftrightarrow>
     b \<in> {BuildUniswapV2, BuildUniswapV3} \<and> dexCfg = None \<and> lc_Pricer ctx \<noteq> None"
  by (cases b; cases dexCfg; cases "lc_Pricer ctx")
    (simp_all add: call_builder_def buildUniswapV2_def buildUniswapV3_def buildUniswapV4_def bind_res_Inl configs_no_nil)

lemma call_builder_pricer:
  "call_builder E getenv read_file decode now ctx b symbols dexCfg = Inl (PricerNotConfigured x) \<Longrightarrow>
     b \<in> {BuildUniswapV2, BuildUniswapV3, BuildUniswapV4} \<and> lc_Pricer ctx = None"
  by (cases b; cases dexCfg; cases "lc_Pricer ctx")
    (simp_all add: call_builder_def buildUniswapV2_def buildUniswapV3_def buildUniswapV4_def bind_res_Inl configs_no_nil split: sum.splits)

lemma registry_lookup:
  assumes "register_all (init_cex @ init_dex) [] = Inr registry"
  shows "Get registry name \<in> {Some BuildUniswapV2, Some BuildUniswapV3} \<longleftrightarrow> registry_key name \<in> {''uniswap_v2'', ''uniswap_v3''}"
    and "Get registry name = Some BuildUniswapV4 \<longleftrightarrow> registry_key name = ''uniswap_v4''"
proof -
  have "register_all (init_cex @ init_dex) [] = Inr [(''bybit'', BuildBybit), (''gate'', BuildGate), (''gateio'', BuildGate),
     (''bitget'', BuildBitget), (''okx'', BuildOkx), (''uniswap_v2'', BuildUniswapV2), (''uniswap_v3'', BuildUniswapV3),
     (''uniswap_v4'', BuildUniswapV4)]" by code_simp
  with assms have r: "registry = [(''bybit'', BuildBybit), (''gate'', BuildGate), (''gateio'', BuildGate),
     (''bitget'', BuildBitget), (''okx'', BuildOkx), (''uniswap_v2'', BuildUniswapV2), (''uniswap_v3'', BuildUniswapV3),
     (''uniswap_v4'', BuildUniswapV4)]" by simp
  show "Get registry name \<in> {Some BuildUniswapV2, Some BuildUniswapV3} \<longleftrightarrow> registry_key name \<in> {''uniswap_v2'', ''uniswap_v3''}"
    "Get registry name = Some BuildUniswapV4 \<longleftrightarrow> registry_key name = ''uniswap_v4''"
    by (auto simp: r Get_def)
qed

lemma registry_key_lower [simp]: "registry_key (to_lower (trim_space s)) = to_lower (trim_space s)"
  by (simp add: registry_key_def trim_to_lower)

lemma launches_cases:
  assumes "l \<in> set (launches registry symbols cfg)"
  obtains (exchange) ex b where "ex \<in> set (exchange_list cfg)" "Get registry (to_lower (trim_space ex)) = Some b"
      "l = LaunchExchange b ex (case symbols (to_lower (trim_space ex)) of Some l \<Rightarrow> l | None \<Rightarrow> [])"
  | (dex) d b where "d \<in> set (cf_DexConfigs cfg)" "to_lower (trim_space (dc_Name d)) \<noteq> []"
      "Get registry (to_lower (trim_space (dc_Name d))) = Some b" "l = LaunchDex b d"
  using assms by (auto simp: launches_def map_filter_def Let_def split: if_splits option.splits)

lemma exchange_launched:
  "ex \<in> set (exchange_list cfg) \<Longrightarrow> Get registry (to_lower (trim_space ex)) = Some b \<Longrightarrow>
     LaunchExchange b ex (case symbols (to_lower (trim_space ex)) of Some l \<Rightarrow> l | None \<Rightarrow> []) \<in> set (launches registry symbols cfg)"
  by (force simp: launches_def map_filter_def Let_def)

lemma launches_panic:
  assumes "register_all (init_cex @ init_dex) [] = Inr registry"
  shows "snd (run_launches E getenv read_file decode now ctx (launches registry symbols cfg)) \<longleftrightarrow>
    lc_Pricer ctx \<noteq> None \<and>
    (\<exists>ex \<in> set (exchange_list cfg). to_lower (trim_space ex) \<in> {''uniswap_v2'', ''uniswap_v3''})"
proof
  assume "snd (run_launches E getenv read_file decode now ctx (launches registry symbols cfg))"
  then obtain l where l: "l \<in> set (launches registry symbols cfg)"
    and nil: "(case l of LaunchExchange b ex symbols \<Rightarrow> call_builder E getenv read_file decode now ctx b symbols None
        | LaunchDex b d \<Rightarrow> call_builder E getenv read_file decode now ctx b [] (Some d)) = Inl NilDereference"
    by (auto simp: run_launches_panics)
  from l show "lc_Pricer ctx \<noteq> None \<and>
    (\<exists>ex \<in> set (exchange_list cfg). to_lower (trim_space ex) \<in> {''uniswap_v2'', ''uniswap_v3''})"
  proof (cases rule: launches_cases)
    case (exchange ex b)
    with nil have b: "b \<in> {BuildUniswapV2, BuildUniswapV3}" "lc_Pricer ctx \<noteq> None" by (simp_all add: call_builder_nil)
    with exchange(2) registry_lookup(1) [OF assms, of "to_lower (trim_space ex)"]
    have "to_lower (trim_space ex) \<in> {''uniswap_v2'', ''uniswap_v3''}" by auto
    with b exchange(1) show ?thesis by blast
  qed (use nil in \<open>simp add: call_builder_nil\<close>)
next
  assume p: "lc_Pricer ctx \<noteq> None \<and>
    (\<exists>ex \<in> set (exchange_list cfg). to_lower (trim_space ex) \<in> {''uniswap_v2'', ''uniswap_v3''})"
  then obtain ex where ex: "ex \<in> set (exchange_list cfg)" "to_lower (trim_space ex) \<in> {''uniswap_v2'', ''uniswap_v3''}" by blast
  with registry_lookup(1) [OF assms, of "to_lower (trim_space ex)"] obtain b where
    b: "Get registry (to_lower (trim_space ex)) = Some b" "b \<in> {BuildUniswapV2, BuildUniswapV3}" by auto
  from exchange_launched [OF ex(1) b(1)]
  show "snd (run_launches E getenv read_file decode now ctx (launches registry symbols cfg))"
    unfolding run_launches_panics by (rule bexI [rotated]) (use b(2) p in \<open>simp add: call_builder_nil\<close>)
qed

text \<open>The result of one launch, and what a run of launches yields: the results up to the first nil dereference.\<close>

abbreviation call_launch ::
    "eth_lib \<Rightarrow> (string \<Rightarrow> string) \<Rightarrow> (string \<Rightarrow> 'd option) \<Rightarrow> ('d \<Rightarrow> geckoPool list option) \<Rightarrow> time \<Rightarrow> 'p LaunchContext
     \<Rightarrow> launch \<Rightarrow> (dex_error, 'p launched) result" where
  "call_launch E getenv read_file decode now ctx l \<equiv>
     (case l of LaunchExchange b ex symbols \<Rightarrow> call_builder E getenv read_file decode now ctx b symbols None
      | LaunchDex b d \<Rightarrow> call_builder E getenv read_file decode now ctx b [] (Some d))"

lemma run_launches_prefix:
  "fst (run_launches E getenv read_file decode now ctx ls) =
     map (call_launch E getenv read_file decode now ctx)
       (takeWhile (\<lambda>l. call_launch E getenv read_file decode now ctx l \<noteq> Inl NilDereference) ls)"
  by (induction ls) (auto simp: Let_def split: prod.split)

lemma pricer_loop_Nil:
  "pricer_loop ks ds = [] \<longleftrightarrow> (\<forall>d \<in> set ds. to_lower (trim_space (dc_Name d)) \<in>
     {''uniswap_v2'', ''uniswap_v3'', ''uniswap_v4''} \<longrightarrow> to_lower (trim_space (dc_Name d)) \<in> set ks)"
  by (induction ks ds rule: pricer_loop.induct) (auto simp: Let_def)

lemma core_pricer_iff:
  "core_pricer E provider cfg \<noteq> None \<longleftrightarrow>
     (\<exists>d \<in> set (cf_DexConfigs cfg). to_lower (trim_space (dc_Name d)) \<in> {''uniswap_v2'', ''uniswap_v3'', ''uniswap_v4''})"
  by (auto simp: core_pricer_def pricerRequiredBy_def pricer_loop_Nil)

text \<open>An exchange of the list whose builder reads a section.\<close>

definition fatal_exchange :: "launch \<Rightarrow> bool" where
  "fatal_exchange l \<longleftrightarrow> (case l of LaunchExchange b ex symbols \<Rightarrow> to_lower (trim_space ex) \<in> {''uniswap_v2'', ''uniswap_v3''}
     | LaunchDex b d \<Rightarrow> False)"

lemma launch_nil_iff:
  assumes "register_all (init_cex @ init_dex) [] = Inr registry" and "l \<in> set (launches registry symbols cfg)"
  shows "call_launch E getenv read_file decode now ctx l = Inl NilDereference \<longleftrightarrow> lc_Pricer ctx \<noteq> None \<and> fatal_exchange l"
  using assms(2)
proof (cases rule: launches_cases)
  case (exchange ex b)
  with registry_lookup(1) [OF assms(1), of "to_lower (trim_space ex)"]
  have "b \<in> {BuildUniswapV2, BuildUniswapV3} \<longleftrightarrow> to_lower (trim_space ex) \<in> {''uniswap_v2'', ''uniswap_v3''}" by auto
  with exchange show ?thesis by (auto simp: call_builder_nil fatal_exchange_def)
qed (simp add: call_builder_nil fatal_exchange_def)

lemma before_fatal_exchange:
  assumes "\<exists>l \<in> set (launches registry symbols cfg). fatal_exchange l"
    and "l \<in> set (takeWhile (\<lambda>l. \<not> fatal_exchange l) (launches registry symbols cfg))"
  shows "\<exists>b ex s. l = LaunchExchange b ex s"
proof -
  define es where "es = List.map_filter (\<lambda>ex. let exLower = to_lower (trim_space ex) in
        case Get registry exLower of None \<Rightarrow> None
        | Some b \<Rightarrow> Some (LaunchExchange b ex (case symbols exLower of Some l \<Rightarrow> l | None \<Rightarrow> []))) (exchange_list cfg)"
  obtain ds where ls: "launches registry symbols cfg = es @ ds" unfolding launches_def es_def by blast
  have "\<forall>l \<in> set ds. \<not> fatal_exchange l"
  proof -
    have "set ds \<subseteq> {LaunchDex b d |b d. True}"
      using ls unfolding launches_def es_def append_same_eq same_append_eq by (auto simp: map_filter_def Let_def split: if_splits option.splits)
    then show ?thesis by (auto simp: fatal_exchange_def)
  qed
  then obtain e where "e \<in> set es" "fatal_exchange e" using assms(1) unfolding ls by auto
  then have "takeWhile (\<lambda>l. \<not> fatal_exchange l) (es @ ds) = takeWhile (\<lambda>l. \<not> fatal_exchange l) es" by (intro takeWhile_append1) auto
  then have "l \<in> set es" using assms(2) unfolding ls by (auto dest: set_takeWhileD)
  then show ?thesis unfolding es_def by (auto simp: map_filter_def Let_def split: option.splits)
qed

text \<open>C14. When \<open>main\<close> dies while it launches, with the pricer it chooses for the configuration: exactly when some DEX
  section is a Uniswap one, V4 included, and the list of exchanges names \<open>uniswap_v2\<close> or \<open>uniswap_v3\<close>,
  whose builders read the section that the exchange loop does not pass. Then the launches that took place are
  those of the exchanges before the first such one, and no DEX section was launched; otherwise every launch took
  place.\<close>

theorem launch_panics_iff:
  assumes "register_all (init_cex @ init_dex) [] = Inr registry" and "lc_Pricer ctx = core_pricer E provider cfg"
    and "run_launches E getenv read_file decode now ctx (launches registry symbols cfg) = (results, panicked)"
    and "before = takeWhile (\<lambda>l. \<forall>b ex s. l = LaunchExchange b ex s \<longrightarrow> to_lower (trim_space ex) \<notin> {''uniswap_v2'', ''uniswap_v3''})
       (launches registry symbols cfg)"
  shows "(panicked \<longleftrightarrow>
      (\<exists>d \<in> set (cf_DexConfigs cfg). to_lower (trim_space (dc_Name d)) \<in> {''uniswap_v2'', ''uniswap_v3'', ''uniswap_v4''}) \<and>
      (\<exists>ex \<in> set (exchange_list cfg). to_lower (trim_space ex) \<in> {''uniswap_v2'', ''uniswap_v3''})) \<and>
    results = map (call_launch E getenv read_file decode now ctx) (if panicked then before else launches registry symbols cfg) \<and>
    (panicked \<longrightarrow> (\<forall>l \<in> set before. \<exists>b ex s. l = LaunchExchange b ex s))"
proof -
  let ?ls = "launches registry symbols cfg"
  have f: "(\<forall>b ex s. l = LaunchExchange b ex s \<longrightarrow> to_lower (trim_space ex) \<notin> {''uniswap_v2'', ''uniswap_v3''}) \<longleftrightarrow> \<not> fatal_exchange l" for l
    by (cases l) (simp_all add: fatal_exchange_def)
  have before: "before = takeWhile (\<lambda>l. \<not> fatal_exchange l) ?ls" unfolding assms(4) f ..
  have p: "panicked \<longleftrightarrow> lc_Pricer ctx \<noteq> None \<and> (\<exists>ex \<in> set (exchange_list cfg). to_lower (trim_space ex) \<in> {''uniswap_v2'', ''uniswap_v3''})"
    using launches_panic [OF assms(1), of E getenv read_file decode now ctx symbols cfg] by (simp add: assms(3))
  have nil: "call_launch E getenv read_file decode now ctx l = Inl NilDereference \<longleftrightarrow> lc_Pricer ctx \<noteq> None \<and> fatal_exchange l"
    if "l \<in> set ?ls" for l using launch_nil_iff [OF assms(1) that] .
  have p2: "panicked \<longleftrightarrow> lc_Pricer ctx \<noteq> None \<and> (\<exists>l \<in> set ?ls. fatal_exchange l)"
    using run_launches_panics [of E getenv read_file decode now ctx ?ls] nil unfolding assms(3) by (metis snd_conv)
  have "takeWhile (\<lambda>l. call_launch E getenv read_file decode now ctx l \<noteq> Inl NilDereference) ?ls =
      takeWhile (\<lambda>l. \<not> (lc_Pricer ctx \<noteq> None \<and> fatal_exchange l)) ?ls"
    by (rule takeWhile_cong [OF refl]) (simp add: nil)
  also have "\<dots> = (if panicked then before else ?ls)"
    using p2 by (auto simp: before takeWhile_eq_all_conv)
  finally have "results = map (call_launch E getenv read_file decode now ctx) (if panicked then before else ?ls)"
    using run_launches_prefix [of E getenv read_file decode now ctx ?ls] by (simp add: assms(3))
  moreover have "panicked \<longrightarrow> (\<forall>l \<in> set before. \<exists>b ex s. l = LaunchExchange b ex s)"
    using p2 before_fatal_exchange unfolding before by blast
  ultimately show ?thesis using p unfolding assms(2) core_pricer_iff by blast
qed

definition demo_ctx :: "Config \<Rightarrow> GraphPricer LaunchContext" where
  "demo_ctx cfg = \<lparr>lc_Config = cfg, lc_Pricer = core_pricer plain_eth None cfg, lc_Assets = None\<rparr>"

definition demo_registry :: "(string, builder) gomap" where
  "demo_registry = projr (register_all (init_cex @ init_dex) [])"

lemma demo_registry: "register_all (init_cex @ init_dex) [] = Inr demo_registry"
  unfolding demo_registry_def by code_simp

theorem launch_panics_iff_witness:
  "\<exists>results. run_launches plain_eth demo_env (\<lambda>_. None :: unit option) (\<lambda>_. None) 0
     (demo_ctx (demo_config [demo_dex ''uniswap_v4'' 4]\<lparr>cf_Exchanges := [''unknown'', ''Uniswap_V2 '']\<rparr>))
     (launches demo_registry Map.empty (demo_config [demo_dex ''uniswap_v4'' 4]\<lparr>cf_Exchanges := [''unknown'', ''Uniswap_V2 '']\<rparr>)) = (results, True)"
proof -
  let ?cfg = "demo_config [demo_dex ''uniswap_v4'' 4]\<lparr>cf_Exchanges := [''unknown'', ''Uniswap_V2 '']\<rparr>"
  obtain results panicked where r: "run_launches plain_eth demo_env (\<lambda>_. None :: unit option) (\<lambda>_. None) 0 (demo_ctx ?cfg)
      (launches demo_registry Map.empty ?cfg) = (results, panicked)" by fastforce
  have n: "to_lower (trim_space ''Uniswap_V2 '') = ''uniswap_v2''" "to_lower (trim_space (dc_Name (demo_dex ''uniswap_v4'' 4))) = ''uniswap_v4''"
    by code_simp+
  have "exchange_list ?cfg = [''unknown'', ''Uniswap_V2 '']" "cf_DexConfigs ?cfg = [demo_dex ''uniswap_v4'' 4]"
    by (simp_all add: exchange_list_def demo_config_def)
  moreover have "lc_Pricer (demo_ctx ?cfg) = core_pricer plain_eth None ?cfg" by (simp add: demo_ctx_def)
  ultimately have panicked using launch_panics_iff [OF demo_registry _ r refl] n by simp
  with r show ?thesis by simp
qed

text \<open>The second loop of \<open>main\<close> is safe where the first is not: with the pricer that \<open>main\<close> chooses for the
  configuration, no section is launched without a pricer or with a nil section, whatever its builder.\<close>

theorem dex_launches_have_pricer:
  assumes "register_all (init_cex @ init_dex) [] = Inr registry" and "lc_Pricer ctx = core_pricer E provider cfg"
    and "LaunchDex b d \<in> set (launches registry symbols cfg)"
  shows "call_builder E getenv read_file decode now ctx b [] (Some d) \<noteq> Inl NilDereference \<and>
    call_builder E getenv read_file decode now ctx b [] (Some d) \<noteq> Inl (PricerNotConfigured x)"
proof (intro conjI notI)
  assume "call_builder E getenv read_file decode now ctx b [] (Some d) = Inl (PricerNotConfigured x)"
  then have b: "b \<in> {BuildUniswapV2, BuildUniswapV3, BuildUniswapV4}" and none: "core_pricer E provider cfg = None"
    using assms(2) by (auto dest: call_builder_pricer)
  from assms(3) show False
  proof (cases rule: launches_cases)
    case (dex d' b')
    then have "to_lower (trim_space (dc_Name d)) \<in> {''uniswap_v2'', ''uniswap_v3'', ''uniswap_v4''}"
      using b registry_lookup [OF assms(1), of "to_lower (trim_space (dc_Name d))"] by auto
    with dex none core_pricer_iff [of E provider cfg] show False by auto
  qed simp
qed (simp add: call_builder_nil)

theorem dex_launches_have_pricer_witness:
  "call_builder plain_eth demo_env (\<lambda>_. None :: unit option) (\<lambda>_. None) 0 (demo_ctx (demo_config [demo_dex ''Uniswap_V3'' 4]))
     BuildUniswapV3 [] (Some (demo_dex ''Uniswap_V3'' 4)) \<noteq> Inl (PricerNotConfigured ''uniswap_v3'')"
proof -
  have "LaunchDex BuildUniswapV3 (demo_dex ''Uniswap_V3'' 4) \<in>
      set (launches demo_registry Map.empty (demo_config [demo_dex ''Uniswap_V3'' 4]))" by code_simp
  moreover have "lc_Pricer (demo_ctx (demo_config [demo_dex ''Uniswap_V3'' 4]))
      = core_pricer plain_eth None (demo_config [demo_dex ''Uniswap_V3'' 4])" by (simp add: demo_ctx_def)
  ultimately show ?thesis using dex_launches_have_pricer [OF demo_registry] by blast
qed

subsection \<open>Lemmas: Uniswap V2 sections\<close>

lemma FinalizePool_ok: "pool_ok p \<Longrightarrow> pool_ok (FinalizePool p)"
  by (auto simp: pool_ok_def NormalizePair_def baseSymbol_def quoteSymbol_def Let_def)

text \<open>C17. A valid Uniswap V2 section that is launched, where the registry does not list WETH itself as a stable
  token, gets a connector with the pools of its file: no address occurs twice, each pool is fit to be priced
  (\<open>pool_ok\<close>), no eligible entry of the file is lost, the batch size and the ping interval are those of the
  section, and the connector starts with no price and no output.\<close>

theorem buildUniswapV2_launches:
  assumes "buildUniswapV2 E getenv read_file decode ctx (Some d) = Inr l" and "dex_valid getenv d"
    and "\<And>m. WETHMeta (NewTokenRegistry E (lc_Assets ctx) (dc_Network d)) = Some m \<Longrightarrow> \<not> tm_IsStable m"
  shows "\<exists>n cfg p entries. l = LaunchedV2 n (NewConnector cfg (Some p)) \<and> lc_Pricer ctx = Some p \<and> n \<noteq> [] \<and>
    (\<exists>data. read_file (ResolvePoolsPath getenv d (ResolveSharedPoolsPath getenv (lc_Config ctx))) = Some data \<and>
       decode data = Some entries) \<and>
    list_all pool_ok (v2_Pools cfg) \<and> distinct (map pc_Address (v2_Pools cfg)) \<and>
    {entry_address E e |e. e \<in> set entries \<and> eligible E (NewTokenRegistry E (lc_Assets ctx) (dc_Network d)) e}
      \<subseteq> pc_Address ` set (v2_Pools cfg) \<and> v2_SubscribeBatchSize cfg = dc_SubscribeBatch d \<and> 1 \<le> v2_SubscribeBatchSize cfg \<and>
    v2_PingInterval cfg = dc_PingInterval d * second"
proof -
  define r where "r = NewTokenRegistry E (lc_Assets ctx) (dc_Network d)"
  define path where "path = ResolvePoolsPath getenv d (ResolveSharedPoolsPath getenv (lc_Config ctx))"
  obtain p cfg where p: "lc_Pricer ctx = Some p"
    and cfg: "buildUniswapV2Config E getenv read_file decode d (ResolveSharedPoolsPath getenv (lc_Config ctx)) (lc_Assets ctx) = Inr cfg"
    and l: "l = LaunchedV2 (if v2_Exchange cfg = [] then ''uniswap_v2'' else v2_Exchange cfg) (NewConnector cfg (Some p))"
    using assms(1) by (auto simp: buildUniswapV2_def bind_res_Inr_iff split: option.splits)
  obtain ps where ps: "LoadPoolsFromGeckoWithRegistry E read_file decode path (Some r) = Inr ps"
    and c: "v2_Pools cfg = map FinalizePool ps" "v2_SubscribeBatchSize cfg = subscribe_batch (dc_SubscribeBatch d)"
      "v2_PingInterval cfg = v2_ping (dc_PingInterval d)"
    using cfg by (auto simp: buildUniswapV2Config_def Let_def r_def path_def split: if_splits sum.splits)
  have "1 \<le> dc_SubscribeBatch d" "0 < dc_PingInterval d" "dc_PingInterval d \<le> 10 ^ 9" using assms(2) by (simp_all add: dex_valid_def)
  then have b: "subscribe_batch (dc_SubscribeBatch d) = dc_SubscribeBatch d" "1 \<le> dc_SubscribeBatch d"
      "v2_ping (dc_PingInterval d) = dc_PingInterval d * second"
    by (simp_all add: subscribe_batch_def v2_ping_def duration_seconds)
  obtain data entries where f: "read_file path = Some data" "decode data = Some entries"
    using ps by (auto simp: LoadPoolsFromGeckoWithRegistry_def Let_def split: option.splits)
  from LoadPools_ok [of E r read_file path data decode entries] f ps assms(3) registry_inv_New
  have ok: "distinct (map pc_Address ps)" "\<forall>p \<in> set ps. pool_ok p"
    "\<forall>e \<in> set entries. eligible E r e \<longrightarrow> entry_address E e \<in> pc_Address ` set ps" by (auto simp: r_def)
  have a: "map pc_Address (v2_Pools cfg) = map pc_Address ps" by (simp add: c(1))
  then have "pc_Address ` set (v2_Pools cfg) = pc_Address ` set ps" by (metis list.set_map)
  with ok a c b p l f show ?thesis
    by (intro exI [of _ "if v2_Exchange cfg = [] then ''uniswap_v2'' else v2_Exchange cfg"] exI [of _ cfg] exI [of _ p]
        exI [of _ entries]) (auto simp: path_def r_def list_all_iff FinalizePool_ok comp_def)
qed

definition demo_v2_dex :: DexConfig where
  "demo_v2_dex = (demo_dex ''uniswap_v2'' 0)\<lparr>dc_SubscribeBatch := 50, dc_PingInterval := 20\<rparr>"

theorem buildUniswapV2_launches_witness:
  "\<exists>c. buildUniswapV2 plain_eth demo_env (\<lambda>_. Some ()) (\<lambda>_. Some [demo_entry]) (demo_ctx (demo_config [demo_dex ''uniswap_v2'' 0]))
     (Some demo_v2_dex) = Inr (LaunchedV2 ''uniswap_v2'' c) \<and> v2_PingInterval (cn_cfg c) = 20 * second"
proof -
  let ?ctx = "demo_ctx (demo_config [demo_dex ''uniswap_v2'' 0])"
  have "pricerRequiredBy (demo_config [demo_dex ''uniswap_v2'' 0]) \<noteq> []" by code_simp
  then obtain p where "lc_Pricer ?ctx = Some p" by (auto simp: demo_ctx_def core_pricer_def)
  then obtain c where r: "buildUniswapV2 plain_eth demo_env (\<lambda>_. Some ()) (\<lambda>_. Some [demo_entry]) ?ctx
     (Some demo_v2_dex) = Inr (LaunchedV2 ''uniswap_v2'' c)"
    by (auto simp: buildUniswapV2_def buildUniswapV2Config_def LoadPoolsFromGeckoWithRegistry_def Let_def demo_v2_dex_def demo_dex_def)
  have "dex_valid demo_env demo_v2_dex" by code_simp
  moreover have "dc_PingInterval demo_v2_dex = 20" by (simp add: demo_v2_dex_def)
  moreover have "lc_Assets ?ctx = None" by (simp add: demo_ctx_def)
  ultimately show ?thesis
    using buildUniswapV2_launches [OF r] default_registry_weth [OF plain_eth_ok] r by (auto simp: NewConnector_def)
qed

subsection \<open>Lemmas: Uniswap V4 sections\<close>

lemma NewV4Connector_cases:
  assumes "NewV4Connector cfg p = Inr c"
  shows "p = Some (k4_pricer c) \<and> c4_PoolManager cfg \<noteq> 0 \<and> c4_Pools (k4_cfg c) = c4_Pools cfg \<and>
    c4_Registry (k4_cfg c) = c4_Registry cfg \<and> c4_WantedPairsOnly (k4_cfg c) = c4_WantedPairsOnly cfg \<and>
    c4_SubscribeBatch (k4_cfg c) = (if c4_SubscribeBatch cfg \<le> 0 then 150 else c4_SubscribeBatch cfg) \<and>
    c4_PingInterval (k4_cfg c) = (if c4_PingInterval cfg \<le> 0 then 25 * second else c4_PingInterval cfg) \<and>
    c4_MaxMetaWorkers (k4_cfg c) = (if c4_MaxMetaWorkers cfg \<le> 0 then 4 else c4_MaxMetaWorkers cfg)"
  using assms by (simp add: NewV4Connector_def Let_def split: option.splits if_split_asm) auto

lemma NewV4Connector_iff:
  "(\<exists>c. NewV4Connector cfg p = Inr c) \<longleftrightarrow> p \<noteq> None \<and> c4_WSURL cfg \<noteq> [] \<and> c4_HTTPURL cfg \<noteq> [] \<and> c4_PoolManager cfg \<noteq> 0"
  by (cases p) (simp_all add: NewV4Connector_def Let_def)

text \<open>The entries of a section that can be converted.\<close>

definition convertible :: "eth_lib \<Rightarrow> DexPoolConfig \<Rightarrow> bool" where
  "convertible E e \<longleftrightarrow> length (trim_space (dp_Address e)) = 66 \<and> has_prefix (to_lower (trim_space (dp_Address e))) ''0x'' \<and>
     eth_IsHexAddress E (trim_space (dp_Token0Address e)) \<and> eth_IsHexAddress E (trim_space (dp_Token1Address e))"

lemma buildTokenMetaForV4_None [simp]:
  "buildTokenMetaForV4 E r a s d = None \<longleftrightarrow> \<not> eth_IsHexAddress E (trim_space a)"
  by (simp add: buildTokenMetaForV4_def Let_def)

lemma buildTokenMetaForV4_Some: "buildTokenMetaForV4 E r a s d = Some m \<Longrightarrow> eth_IsHexAddress E (trim_space a)"
  using buildTokenMetaForV4_None [of E r a s d] by auto

lemma convertDexPool_iff: "(\<exists>p. convertDexPool E r i e = Inr p) \<longleftrightarrow> convertible E e"
proof -
  have "\<exists>m. buildTokenMetaForV4 E r a s d = Some m" if "eth_IsHexAddress E (trim_space a)" for a s d
    using that by (cases "buildTokenMetaForV4 E r a s d") auto
  then show ?thesis
    by (cases "trim_space (dp_Address e) = []") (auto simp: convertDexPool_def convertible_def Let_def dest: buildTokenMetaForV4_Some split: option.splits)
qed

lemma convertDexPools_iff: "(\<exists>ps. convertDexPoolsToV4 E r i es = Inr ps) \<longleftrightarrow> list_all (convertible E) es"
proof (induction es arbitrary: i)
  case (Cons e es)
  have "(\<exists>ps. convertDexPoolsToV4 E r i (e # es) = Inr ps) \<longleftrightarrow>
      (\<exists>p. convertDexPool E r i e = Inr p) \<and> (\<exists>ps. convertDexPoolsToV4 E r (Suc i) es = Inr ps)"
    by (auto simp: bind_res_Inr_iff)
  with Cons show ?case by (simp add: convertDexPool_iff)
qed simp

lemma buildUniswapV4_iff:
  "buildUniswapV4 E getenv ctx (Some d) = Inr (LaunchedV4 n c) \<longleftrightarrow>
     (\<exists>cfg. buildUniswapV4Config E getenv d (ResolveSharedPoolsPath getenv (lc_Config ctx)) (lc_Assets ctx) = Inr cfg \<and>
        NewV4Connector cfg (lc_Pricer ctx) = Inr c \<and> n = (if c4_Exchange cfg = [] then ''uniswap_v4'' else c4_Exchange cfg))"
proof (cases "buildUniswapV4Config E getenv d (ResolveSharedPoolsPath getenv (lc_Config ctx)) (lc_Assets ctx)")
  case (Inr cfg)
  moreover have "NewV4Connector cfg None \<noteq> Inr c" by (simp add: NewV4Connector_def)
  ultimately show ?thesis
    by (cases "lc_Pricer ctx"; cases "NewV4Connector cfg (lc_Pricer ctx)") (auto simp: buildUniswapV4_def)
qed (auto simp: buildUniswapV4_def)

text \<open>When the configuration of a valid V4 section is built, and what it holds.\<close>

lemma v4_config_iff:
  assumes "dex_valid getenv d" and "is_v4 d"
  shows "(\<exists>cfg. buildUniswapV4Config E getenv d sp assets = Inr cfg) \<longleftrightarrow>
    eth_IsHexAddress E (trim_space (dc_PoolManager d)) \<and> list_all (convertible E) (dc_Pools d)"
proof -
  have "trim_space (dc_Name d) \<noteq> []" "trim_space (dc_WSURL d) \<noteq> []" "trim_space (dc_HTTPURL d) \<noteq> []"
    using assms by (simp_all add: dex_valid_def)
  then show ?thesis using convertDexPools_iff [of E "NewTokenRegistry E assets (dc_Network d)" 0 "dc_Pools d"]
    by (auto simp: buildUniswapV4Config_def Let_def bind_res_Inr_iff)
qed

lemma v4_config_fields:
  assumes "dex_valid getenv d" and "is_v4 d" and "buildUniswapV4Config E getenv d sp assets = Inr cfg"
  shows "c4_WSURL cfg = trim_space (dc_WSURL d)" and "c4_HTTPURL cfg = trim_space (dc_HTTPURL d)" and "c4_Exchange cfg = ''uniswap_v4''"
    and "c4_PoolManager cfg = eth_HexToAddress E (trim_space (dc_PoolManager d))" and "c4_SubscribeBatch cfg = dc_SubscribeBatch d"
    and "c4_PingInterval cfg = dc_PingInterval d * second" and "c4_MaxMetaWorkers cfg = dc_MaxMetaWorkers d"
proof -
  have nm: "to_lower (trim_space (dc_Name d)) = ''uniswap_v4''" using assms(2) by (simp add: is_v4_def equal_fold_def lower_v4)
  have "trim_space (dc_Name d) \<noteq> []" "trim_space (dc_WSURL d) \<noteq> []" "trim_space (dc_HTTPURL d) \<noteq> []"
    "1 \<le> dc_SubscribeBatch d" "5 \<le> dc_PingInterval d" "1 \<le> dc_MaxMetaWorkers d"
    using assms(1,2) by (simp_all add: dex_valid_def)
  moreover have "duration (dc_PingInterval d) second = dc_PingInterval d * second" "0 < dc_PingInterval d * second"
  proof -
    have "0 \<le> dc_PingInterval d" "dc_PingInterval d \<le> 10 ^ 9" "0 < dc_PingInterval d" using assms(1) by (simp_all add: dex_valid_def)
    then show "duration (dc_PingInterval d) second = dc_PingInterval d * second" "0 < dc_PingInterval d * second"
      by (simp_all add: duration_seconds) (simp add: second_def)
  qed
  ultimately have "c4_WSURL cfg = trim_space (dc_WSURL d) \<and> c4_HTTPURL cfg = trim_space (dc_HTTPURL d) \<and> c4_Exchange cfg = ''uniswap_v4'' \<and>
      c4_PoolManager cfg = eth_HexToAddress E (trim_space (dc_PoolManager d)) \<and> c4_SubscribeBatch cfg = dc_SubscribeBatch d \<and>
      c4_PingInterval cfg = dc_PingInterval d * second \<and> c4_MaxMetaWorkers cfg = dc_MaxMetaWorkers d"
    using assms(3) nm
    by (auto simp: buildUniswapV4Config_def Let_def bind_res_Inr_iff subscribe_batch_def ping_duration_def split: if_split_asm)
  then show "c4_WSURL cfg = trim_space (dc_WSURL d)" and "c4_HTTPURL cfg = trim_space (dc_HTTPURL d)"
    and "c4_Exchange cfg = ''uniswap_v4''" and "c4_PoolManager cfg = eth_HexToAddress E (trim_space (dc_PoolManager d))"
    and "c4_SubscribeBatch cfg = dc_SubscribeBatch d" and "c4_PingInterval cfg = dc_PingInterval d * second"
    and "c4_MaxMetaWorkers cfg = dc_MaxMetaWorkers d" by simp_all
qed

lemma v4_launched_cases:
  assumes "buildUniswapV4 E getenv ctx (Some d) = Inr (LaunchedV4 n c)"
  obtains cfg where "buildUniswapV4Config E getenv d (ResolveSharedPoolsPath getenv (lc_Config ctx)) (lc_Assets ctx) = Inr cfg"
    and "NewV4Connector cfg (lc_Pricer ctx) = Inr c" and "n = (if c4_Exchange cfg = [] then ''uniswap_v4'' else c4_Exchange cfg)"
  using assms unfolding buildUniswapV4_iff by blast

text \<open>C16. When a valid Uniswap V4 section is launched: exactly when there is a pricer, the pool manager is a
  nonzero address and every inline pool has an identifier of 32 bytes and two token addresses. The bounds of
  the validation arrive in the connector: batch, ping interval and workers are those of the section.\<close>

theorem buildUniswapV4_launches:
  assumes "dex_valid getenv d" and "is_v4 d"
  shows "((\<exists>n c. buildUniswapV4 E getenv ctx (Some d) = Inr (LaunchedV4 n c)) \<longleftrightarrow>
      lc_Pricer ctx \<noteq> None \<and> eth_IsHexAddress E (trim_space (dc_PoolManager d)) \<and>
      eth_HexToAddress E (trim_space (dc_PoolManager d)) \<noteq> 0 \<and> list_all (convertible E) (dc_Pools d)) \<and>
    (\<forall>n c. buildUniswapV4 E getenv ctx (Some d) = Inr (LaunchedV4 n c) \<longrightarrow> n = ''uniswap_v4'' \<and>
      c4_SubscribeBatch (k4_cfg c) = dc_SubscribeBatch d \<and> c4_PingInterval (k4_cfg c) = dc_PingInterval d * second \<and>
      c4_MaxMetaWorkers (k4_cfg c) = dc_MaxMetaWorkers d \<and> 1 \<le> c4_MaxMetaWorkers (k4_cfg c) \<and> c4_MaxMetaWorkers (k4_cfg c) \<le> 64)"
proof (intro conjI iffI allI impI)
  note config = v4_config_iff [OF assms] and fields = v4_config_fields [OF assms]
  have pos: "1 \<le> dc_MaxMetaWorkers d" "dc_MaxMetaWorkers d \<le> 64" "5 \<le> dc_PingInterval d" "1 \<le> dc_SubscribeBatch d"
    and ne: "trim_space (dc_WSURL d) \<noteq> []" "trim_space (dc_HTTPURL d) \<noteq> []"
    using assms by (simp_all add: dex_valid_def)
  {
    assume "\<exists>n c. buildUniswapV4 E getenv ctx (Some d) = Inr (LaunchedV4 n c)"
    then obtain cfg c where c: "buildUniswapV4Config E getenv d (ResolveSharedPoolsPath getenv (lc_Config ctx)) (lc_Assets ctx) = Inr cfg"
      "NewV4Connector cfg (lc_Pricer ctx) = Inr c" by (metis v4_launched_cases)
    from c(1) config fields(4) [OF c(1)] NewV4Connector_cases [OF c(2)]
    show "lc_Pricer ctx \<noteq> None" "eth_IsHexAddress E (trim_space (dc_PoolManager d))"
      "eth_HexToAddress E (trim_space (dc_PoolManager d)) \<noteq> 0" "list_all (convertible E) (dc_Pools d)" by auto
  }
  {
    assume R: "lc_Pricer ctx \<noteq> None \<and> eth_IsHexAddress E (trim_space (dc_PoolManager d)) \<and>
      eth_HexToAddress E (trim_space (dc_PoolManager d)) \<noteq> 0 \<and> list_all (convertible E) (dc_Pools d)"
    with config obtain cfg where
      c: "buildUniswapV4Config E getenv d (ResolveSharedPoolsPath getenv (lc_Config ctx)) (lc_Assets ctx) = Inr cfg" by metis
    from fields [OF c] R ne NewV4Connector_iff [of cfg "lc_Pricer ctx"] obtain k where "NewV4Connector cfg (lc_Pricer ctx) = Inr k"
      by auto
    with c show "\<exists>n c. buildUniswapV4 E getenv ctx (Some d) = Inr (LaunchedV4 n c)" unfolding buildUniswapV4_iff by auto
  }
  fix n c
  assume "buildUniswapV4 E getenv ctx (Some d) = Inr (LaunchedV4 n c)"
  then obtain cfg where c: "buildUniswapV4Config E getenv d (ResolveSharedPoolsPath getenv (lc_Config ctx)) (lc_Assets ctx) = Inr cfg"
    "NewV4Connector cfg (lc_Pricer ctx) = Inr c" "n = (if c4_Exchange cfg = [] then ''uniswap_v4'' else c4_Exchange cfg)"
    by (rule v4_launched_cases)
  from fields [OF c(1)] NewV4Connector_cases [OF c(2)] pos c(3)
  show "n = ''uniswap_v4''" "c4_SubscribeBatch (k4_cfg c) = dc_SubscribeBatch d" "c4_PingInterval (k4_cfg c) = dc_PingInterval d * second"
    "c4_MaxMetaWorkers (k4_cfg c) = dc_MaxMetaWorkers d" "1 \<le> c4_MaxMetaWorkers (k4_cfg c)" "c4_MaxMetaWorkers (k4_cfg c) \<le> 64"
    by (simp_all add: second_def)
qed

definition demo_addr :: "string \<Rightarrow> string" where
  "demo_addr c = ''0x'' @ replicate 39 CHR ''0'' @ c"

definition demo_v4_dex :: "string \<Rightarrow> DexConfig" where
  "demo_v4_dex token1 = (demo_dex ''uniswap_v4'' 4)\<lparr>dc_SubscribeBatch := 50, dc_PingInterval := 25, dc_PoolManager := demo_addr ''a'',
     dc_Pools := [\<lparr>dp_Address = ''0x'' @ replicate 63 CHR ''0'' @ ''b'', dp_PairName = [], dp_Token0Symbol = ''ABC'', dp_Token1Symbol = ''USDC'',
       dp_Token0Address = demo_addr ''5'', dp_Token1Address = token1, dp_Token0Decimals = 18, dp_Token1Decimals = 6,
       dp_BaseIsToken0 = True, dp_CanonicalPair = []\<rparr>]\<rparr>"

lemma demo_addr_ok:
  "eth_IsHexAddress plain_eth (trim_space (demo_addr ''a'')) \<and> eth_IsHexAddress plain_eth (trim_space (demo_addr ''5'')) \<and>
   eth_IsHexAddress plain_eth (trim_space (demo_addr ''7'')) \<and> eth_IsHexAddress plain_eth (trim_space (demo_addr ''0''))"
proof -
  have "list_all (\<lambda>a. length (trim_prefix (trim_space a) ''0x'') = 40 \<and>
        list_all (\<lambda>c. hex_val c \<noteq> None) (trim_prefix (trim_space a) ''0x''))
      [demo_addr ''a'', demo_addr ''5'', demo_addr ''7'', demo_addr ''0'']" by code_simp
  then show ?thesis unfolding plain_eth_def Let_def by (simp del: not_None_eq)
qed

lemma demo_addr_vals:
  "eth_HexToAddress plain_eth (trim_space (demo_addr ''a'')) = 10 \<and> eth_HexToAddress plain_eth (trim_space (demo_addr ''5'')) = 5 \<and>
   eth_HexToAddress plain_eth (trim_space (demo_addr ''7'')) = 7 \<and> eth_HexToAddress plain_eth (trim_space (demo_addr ''0'')) = 0"
proof -
  have "map (\<lambda>a. hex_read 0 (trim_prefix (trim_space a) ''0x'')) [demo_addr ''a'', demo_addr ''5'', demo_addr ''7'', demo_addr ''0''] = [10, 5, 7, 0]"
    by code_simp
  then show ?thesis by (simp add: plain_eth_def)
qed

lemma demo_v4_dex_ok: "dex_valid demo_env (demo_v4_dex a)" "is_v4 (demo_v4_dex a)"
proof -
  have "dex_valid demo_env ((demo_dex ''uniswap_v4'' 4)\<lparr>dc_SubscribeBatch := 50, dc_PingInterval := 25, dc_PoolManager := demo_addr ''a''\<rparr>)"
    by code_simp
  then show "dex_valid demo_env (demo_v4_dex a)"
    by (simp add: dex_valid_def is_v4_def demo_v4_dex_def ResolvePoolsPath_def)
  have "is_v4 (demo_dex ''uniswap_v4'' 4)" by code_simp
  then show "is_v4 (demo_v4_dex a)" by (simp add: is_v4_def demo_v4_dex_def)
qed

lemma demo_convertible: "a \<in> {demo_addr ''7'', demo_addr ''0''} \<Longrightarrow> list_all (convertible plain_eth) (dc_Pools (demo_v4_dex a))"
proof -
  assume a: "a \<in> {demo_addr ''7'', demo_addr ''0''}"
  have "length (trim_space (''0x'' @ replicate 63 CHR ''0'' @ ''b'')) = 66 \<and> has_prefix (to_lower (trim_space (''0x'' @ replicate 63 CHR ''0'' @ ''b''))) ''0x''"
    by code_simp
  with a demo_addr_ok show ?thesis unfolding convertible_def demo_v4_dex_def by (auto simp del: replicate.simps)
qed

lemma demo_ctx_pricer: "lc_Pricer (demo_ctx (demo_config [demo_dex ''uniswap_v4'' 4])) \<noteq> None"
proof -
  have "pricerRequiredBy (demo_config [demo_dex ''uniswap_v4'' 4]) \<noteq> []" by code_simp
  then show ?thesis by (simp add: demo_ctx_def core_pricer_def)
qed

theorem buildUniswapV4_launches_witness:
  "\<exists>n c. buildUniswapV4 plain_eth demo_env (demo_ctx (demo_config [demo_dex ''uniswap_v4'' 4])) (Some (demo_v4_dex (demo_addr ''7'')))
     = Inr (LaunchedV4 n c)"
proof -
  have "dc_PoolManager (demo_v4_dex (demo_addr ''7'')) = demo_addr ''a''" by (simp add: demo_v4_dex_def)
  with buildUniswapV4_launches [OF demo_v4_dex_ok, of plain_eth "demo_ctx (demo_config [demo_dex ''uniswap_v4'' 4])"
      "demo_addr ''7''"] demo_convertible [of "demo_addr ''7''"] demo_ctx_pricer demo_addr_ok demo_addr_vals
  show ?thesis by auto
qed

text \<open>A token of the section, the metadata it is converted to and the metadata the pools are set up with.\<close>

definition known_token :: "eth_lib \<Rightarrow> TokenRegistry \<Rightarrow> TokenMeta \<Rightarrow> bool" where
  "known_token E r m \<longleftrightarrow> (\<forall>k. tr_byAddress r (lower_hex E (tm_Address m)) = Some k \<and> tm_Symbol k \<noteq> [] \<longrightarrow>
     m = k\<lparr>tm_Decimals := (if tm_Decimals k = 0 then 18 else tm_Decimals k)\<rparr>)"

lemma token_for_v4:
  assumes "eth_ok E" and "registry_inv E r" and "buildTokenMetaForV4 E r a s d = Some m"
  shows "tm_Address m = eth_HexToAddress E (trim_space a) \<and>
    (\<forall>k. tm_Address m \<noteq> 0 \<and> tr_byAddress r (lower_hex E (tm_Address m)) = Some k \<longrightarrow> m = k)"
proof -
  define addr where "addr = eth_HexToAddress E (trim_space a)"
  have k: "tm_Address k = addr" if "tr_byAddress r (lower_hex E addr) = Some k" for k
  proof -
    have "lower_hex E addr = lower_hex E (tm_Address k)" using that assms(2) by (simp add: registry_inv_def)
    then show ?thesis by (simp add: lower_hex_inj [OF assms(1)])
  qed
  have A: "tm_Address (Resolve E r addr s d) = addr"
    by (cases "tr_byAddress r (lower_hex E addr)") (auto simp: Resolve_def Let_def k zero_meta_def split: option.split)
  have m: "tm_Address m = addr \<and> (addr \<noteq> 0 \<longrightarrow> m = Resolve E r addr s d)"
    using assms(3) A by (auto simp: buildTokenMetaForV4_def Let_def addr_def [symmetric] split: if_splits)
  then show ?thesis by (auto simp: addr_def [symmetric] Resolve_def)
qed

lemma enrich_registered:
  assumes "eth_ok E" and "registry_inv E r" and "tm_Address m \<noteq> 0"
    and "\<forall>k. tr_byAddress r (lower_hex E (tm_Address m)) = Some k \<longrightarrow> m = k"
  shows "\<exists>m'. enrichTokenMeta E (Some r) m = Inr m' \<and> tm_Address m' = tm_Address m \<and> known_token E r m'"
proof -
  define sy res where "sy = to_upper (trim_space (tm_Symbol m))" and "res = Resolve E r (tm_Address m) sy (tm_Decimals m)"
  have a: "tm_Address res = tm_Address m"
    using assms(4) by (cases "tr_byAddress r (lower_hex E (tm_Address m))") (auto simp: res_def Resolve_def Let_def zero_meta_def split: option.split)
  have d: "0 \<le> tm_Decimals res" "tm_Decimals res \<le> 255" using Resolve_ok [OF assms(2)] by (simp_all add: res_def)
  then have cl: "clampDecimals (tm_Decimals res) = tm_Decimals res" by (simp add: clampDecimals_def)
  define sy' where "sy' = (if sy = [] then to_upper (shortAddress (eth_Hex E (tm_Address res))) else sy)"
  have e: "enrichTokenMeta E (Some r) m = Inr (res\<lparr>tm_Symbol := sy', tm_Decimals := (if tm_Decimals res = 0 then 18 else tm_Decimals res)\<rparr>)"
    using assms(3) d a
    by (simp add: enrichTokenMeta_def finish_meta_def Let_def sy_def [symmetric] res_def [symmetric] sy'_def [symmetric] cl)
  have "known_token E r (res\<lparr>tm_Symbol := sy', tm_Decimals := (if tm_Decimals res = 0 then 18 else tm_Decimals res)\<rparr>)"
    unfolding known_token_def
  proof (intro allI impI)
    fix k assume "tr_byAddress r (lower_hex E (tm_Address (res\<lparr>tm_Symbol := sy',
      tm_Decimals := if tm_Decimals res = 0 then 18 else tm_Decimals res\<rparr>))) = Some k \<and> tm_Symbol k \<noteq> []"
    then have k: "tr_byAddress r (lower_hex E (tm_Address m)) = Some k" "tm_Symbol k \<noteq> []" by (simp_all add: a)
    then have "m = k" "res = k" using assms(4) by (auto simp: res_def Resolve_def)
    moreover have "symbolKey (tm_Symbol k) = tm_Symbol k" using k assms(2) by (auto simp: registry_inv_def meta_ok_def)
    ultimately have "sy' = tm_Symbol k" using k(2) by (simp add: sy'_def sy_def symbolKey_def)
    with \<open>res = k\<close> show "res\<lparr>tm_Symbol := sy', tm_Decimals := if tm_Decimals res = 0 then 18 else tm_Decimals res\<rparr>
        = k\<lparr>tm_Decimals := if tm_Decimals k = 0 then 18 else tm_Decimals k\<rparr>" by simp
  qed
  with e a show ?thesis by simp
qed

definition usable_pool :: "eth_lib \<Rightarrow> DexPoolConfig \<Rightarrow> bool" where
  "usable_pool E e \<longleftrightarrow> eth_HexToHash E (trim_space (dp_Address e)) \<noteq> 0 \<and>
     eth_HexToAddress E (trim_space (dp_Token0Address e)) \<noteq> 0 \<and> eth_HexToAddress E (trim_space (dp_Token1Address e)) \<noteq> 0"

definition inline_pool :: "eth_lib \<Rightarrow> TokenRegistry \<Rightarrow> DexPoolConfig \<Rightarrow> V4PoolConfig \<Rightarrow> bool" where
  "inline_pool E r e p \<longleftrightarrow> p4_PoolID p = eth_HexToHash E (trim_space (dp_Address e)) \<and>
     tm_Address (p4_Token0 p) = eth_HexToAddress E (trim_space (dp_Token0Address e)) \<and>
     tm_Address (p4_Token1 p) = eth_HexToAddress E (trim_space (dp_Token1Address e)) \<and>
     known_token E r (p4_Token0 p) \<and> known_token E r (p4_Token1 p) \<and> p4_BaseIsToken0 p = dp_BaseIsToken0 e"

lemma convert_inline:
  assumes "eth_ok E" and "registry_inv E r" and "convertDexPool E r i e = Inr q"
  shows "if usable_pool E e then \<exists>p. normalizeInlinePool E (Some r) w False q = Inr (Some p) \<and> inline_pool E r e p
    else \<exists>x. normalizeInlinePool E (Some r) w False q = Inl x"
proof -
  obtain t0 t1 where t: "buildTokenMetaForV4 E r (dp_Token0Address e) (dp_Token0Symbol e) (uint (dp_Token0Decimals e)) = Some t0"
      "buildTokenMetaForV4 E r (dp_Token1Address e) (dp_Token1Symbol e) (uint (dp_Token1Decimals e)) = Some t1"
    and q: "p4_PoolID q = eth_HexToHash E (trim_space (dp_Address e))" "p4_Token0 q = t0" "p4_Token1 q = t1"
      "p4_BaseIsToken0 q = dp_BaseIsToken0 e"
    using assms(3) by (auto simp: convertDexPool_def Let_def split: if_split_asm option.splits)
  note f0 = token_for_v4 [OF assms(1,2) t(1)] and f1 = token_for_v4 [OF assms(1,2) t(2)]
  show ?thesis
  proof (cases "usable_pool E e")
    case True
    then have n: "tm_Address t0 \<noteq> 0" "tm_Address t1 \<noteq> 0" "p4_PoolID q \<noteq> 0" using f0 f1 q by (simp_all add: usable_pool_def)
    obtain m0 where m0: "enrichTokenMeta E (Some r) t0 = Inr m0" "tm_Address m0 = tm_Address t0" "known_token E r m0"
      using enrich_registered [OF assms(1,2) n(1)] f0 n by blast
    obtain m1 where m1: "enrichTokenMeta E (Some r) t1 = Inr m1" "tm_Address m1 = tm_Address t1" "known_token E r m1"
      using enrich_registered [OF assms(1,2) n(2)] f1 n by blast
    obtain p where "normalizeInlinePool E (Some r) w False q = Inr (Some p)" "p4_PoolID p = p4_PoolID q" "p4_Token0 p = m0"
      "p4_Token1 p = m1" "p4_BaseIsToken0 p = p4_BaseIsToken0 q"
      using n m0(1) m1(1) by (simp add: normalizeInlinePool_def q Let_def)
    with True q f0 f1 m0 m1 show ?thesis by (auto simp: inline_pool_def)
  next
    case False
    then have "tm_Address t0 = 0 \<or> tm_Address t1 = 0 \<or> p4_PoolID q = 0" using f0 f1 q by (auto simp: usable_pool_def)
    then have "\<exists>x. normalizeInlinePool E (Some r) w False q = Inl x"
      by (auto simp: normalizeInlinePool_def q enrichTokenMeta_def split: sum.split)
    with False show ?thesis by simp
  qed
qed

lemma inline_loop_converted:
  assumes "eth_ok E" and "registry_inv E r" and "c4_Registry cfg = Some r" and "\<not> c4_WantedPairsOnly cfg"
    and "convertDexPoolsToV4 E r i es = Inr qs"
  shows "if list_all (usable_pool E) es then \<exists>ps. inline_loop E cfg (\<lambda>_. False) j qs = Inr ps \<and> list_all2 (inline_pool E r) es ps
    else \<exists>k x. inline_loop E cfg (\<lambda>_. False) j qs = Inl (InlinePool k x)"
  using assms(5)
proof (induction es arbitrary: i j qs)
  case (Cons e es)
  then obtain q qs' where q: "convertDexPool E r i e = Inr q" and qs: "convertDexPoolsToV4 E r (Suc i) es = Inr qs'" "qs = q # qs'"
    by (auto simp: bind_res_Inr_iff)
  note IH = Cons.IH [OF qs(1), of "Suc j"] and N = convert_inline [OF assms(1,2) q, of "wantedSet cfg"]
  show ?case
  proof (cases "usable_pool E e")
    case True
    with N obtain p where "normalizeInlinePool E (Some r) (wantedSet cfg) False q = Inr (Some p)" "inline_pool E r e p" by auto
    with IH True show ?thesis by (cases "list_all (usable_pool E) es") (auto simp: qs(2) assms(3,4))
  next
    case False
    with N obtain x where "normalizeInlinePool E (Some r) (wantedSet cfg) False q = Inl x" by auto
    with False show ?thesis by (simp add: qs(2) assms(3,4))
  qed
qed simp

text \<open>C15. What becomes of the inline pools of a launched V4 section without a filter: if every pool has a nonzero
  identifier and two nonzero tokens, the bootstrap prepares exactly these pools, in their order, and a token
  the registry knows under its address has the registry's metadata whatever the section says about it. One
  pool with the zero address on a side, which is how Uniswap V4 writes the native currency, fails them all.\<close>

theorem v4_inline_bootstrap:
  assumes "eth_ok E" and "buildUniswapV4 E getenv ctx (Some d) = Inr (LaunchedV4 n c)"
    and "dc_Pools d \<noteq> []" and "\<not> dc_WantedPairsOnly d"
  shows "if list_all (usable_pool E) (dc_Pools d)
    then \<exists>ps. prepare_pools E read_file decode (\<lambda>_. False) cancelled (k4_cfg c) = Inr ps \<and>
      list_all2 (inline_pool E (NewTokenRegistry E (lc_Assets ctx) (dc_Network d))) (dc_Pools d) ps
    else \<exists>k x. prepare_pools E read_file decode (\<lambda>_. False) cancelled (k4_cfg c) = Inl (InlinePool k x)"
proof -
  define r where "r = NewTokenRegistry E (lc_Assets ctx) (dc_Network d)"
  obtain cfg where cfg: "buildUniswapV4Config E getenv d (ResolveSharedPoolsPath getenv (lc_Config ctx)) (lc_Assets ctx) = Inr cfg"
    and c: "NewV4Connector cfg (lc_Pricer ctx) = Inr c" using assms(2) unfolding buildUniswapV4_iff by blast
  obtain qs where qs: "convertDexPoolsToV4 E r 0 (dc_Pools d) = Inr qs" "c4_Pools cfg = qs" "c4_Registry cfg = Some r"
      "c4_WantedPairsOnly cfg = dc_WantedPairsOnly d"
    using cfg by (auto simp: buildUniswapV4Config_def Let_def bind_res_Inr_iff r_def split: if_split_asm)
  have k: "c4_Pools (k4_cfg c) = qs" "c4_Registry (k4_cfg c) = Some r" "\<not> c4_WantedPairsOnly (k4_cfg c)"
    using NewV4Connector_cases [OF c] qs assms(4) by simp_all
  have "registry_inv E r" by (simp add: r_def registry_inv_New)
  from inline_loop_converted [OF assms(1) this k(2,3) qs(1), of 0] assms(3) show ?thesis
    by (auto simp: prepare_pools_def k r_def [symmetric])
qed

theorem v4_inline_bootstrap_witness:
  "\<exists>n c k x. buildUniswapV4 plain_eth demo_env (demo_ctx (demo_config [demo_dex ''uniswap_v4'' 4])) (Some (demo_v4_dex (demo_addr ''0'')))
     = Inr (LaunchedV4 n c) \<and>
   prepare_pools plain_eth (\<lambda>_. None :: unit option) (\<lambda>_. None) (\<lambda>_. False) (\<lambda>_. False) (k4_cfg c) = Inl (InlinePool k x)"
proof -
  let ?d = "demo_v4_dex (demo_addr ''0'')" and ?ctx = "demo_ctx (demo_config [demo_dex ''uniswap_v4'' 4])"
  have pm: "trim_space (dc_WSURL ?d) \<noteq> []" "trim_space (dc_HTTPURL ?d) \<noteq> []" "dc_PoolManager ?d = demo_addr ''a''"
    using demo_v4_dex_ok [of "demo_addr ''0''"] by (simp_all add: dex_valid_def) (simp add: demo_v4_dex_def)
  define sp where "sp = ResolveSharedPoolsPath demo_env (lc_Config ?ctx)"
  obtain qs where qs: "convertDexPoolsToV4 plain_eth (NewTokenRegistry plain_eth (lc_Assets ?ctx) (dc_Network ?d)) 0 (dc_Pools ?d) = Inr qs"
    using convertDexPools_iff demo_convertible [of "demo_addr ''0''"] by blast
  obtain cfg where cfg: "buildUniswapV4Config plain_eth demo_env ?d sp (lc_Assets ?ctx) = Inr cfg"
    and f: "c4_WSURL cfg \<noteq> []" "c4_HTTPURL cfg \<noteq> []" "c4_PoolManager cfg = 10"
    using qs pm demo_addr_ok demo_addr_vals by (auto simp: buildUniswapV4Config_def Let_def)
  from f NewV4Connector_iff [of cfg "lc_Pricer ?ctx"] demo_ctx_pricer obtain c where c: "NewV4Connector cfg (lc_Pricer ?ctx) = Inr c"
    by auto
  from cfg c obtain n where b: "buildUniswapV4 plain_eth demo_env ?ctx (Some ?d) = Inr (LaunchedV4 n c)"
    unfolding buildUniswapV4_iff sp_def by blast
  have p: "dc_Pools ?d \<noteq> []" "\<not> dc_WantedPairsOnly ?d" "\<not> list_all (usable_pool plain_eth) (dc_Pools ?d)"
    using demo_addr_vals by (simp_all add: demo_v4_dex_def demo_dex_def usable_pool_def)
  from v4_inline_bootstrap [OF plain_eth_ok b p(1,2), of "\<lambda>_. None :: unit option" "\<lambda>_. None" "\<lambda>_. False"] p(3) b show ?thesis by auto
qed

end
