(* ===== verification/Core_Main.thy ===== *)
theory Core_Main
  imports Launcher_Dex
begin

text \<open>
  The frame of the program: how \<open>main\<close> (\<open>cmd/screener-core/main.go\<close>) composes configuration, assets, symbols, pricer
  and builders, its health check and metrics, and the life of the exchange clients and of the hub
  (\<open>internal/exchange\<close>) around their read loops. A ticker is the list of what happens at its ticks.
\<close>

subsection \<open>Life of an exchange client\<close>

text \<open>\<open>cl_conn\<close> is whether the connection pointer is set, \<open>cl_open\<close> whether the connection has not been closed.\<close>

record ws_client =
  cl_url :: string
  cl_conn :: bool
  cl_open :: bool

definition New_client :: "string \<Rightarrow> ws_client" where
  "New_client url = \<lparr>cl_url = url, cl_conn = False, cl_open = False\<rparr>"

text \<open>The result is whether there was no error; a failed dial leaves the pointer nil.\<close>

definition Client_Connect :: "(string \<Rightarrow> bool) \<Rightarrow> ws_client \<Rightarrow> bool \<times> ws_client" where
  "Client_Connect dials c =
     (if dials (cl_url c) then (True, c\<lparr>cl_conn := True, cl_open := True\<rparr>) else (False, c\<lparr>cl_conn := False, cl_open := False\<rparr>))"

definition Client_Close :: "ws_client \<Rightarrow> ws_client" where
  "Client_Close c = (if cl_conn c then c\<lparr>cl_open := False\<rparr> else c)"

text \<open>The times of the pings that were sent, and whether the loop has returned: it does at the first write that fails.\<close>

fun ping_loop :: "int \<Rightarrow> time \<Rightarrow> bool list \<Rightarrow> time list \<times> bool" where
  "ping_loop interval now [] = ([], False)"
| "ping_loop interval now (written # ticks) =
     (let now = now + interval in
      if \<not> written then ([], True)
      else case ping_loop interval now ticks of (sent, returned) \<Rightarrow> (now # sent, returned))"

definition Bybit_KeepAlive :: "time \<Rightarrow> bool list \<Rightarrow> time list \<times> bool" where
  "Bybit_KeepAlive = ping_loop (30 * second)"

definition Gate_KeepAlive :: "time \<Rightarrow> bool list \<Rightarrow> time list \<times> bool" where
  "Gate_KeepAlive = ping_loop (30 * second)"

definition Bitget_KeepAlive :: "int \<Rightarrow> time \<Rightarrow> bool list \<Rightarrow> time list \<times> bool" where
  "Bitget_KeepAlive interval = ping_loop (keepalive_interval interval)"

definition Okx_KeepAlive :: "int \<Rightarrow> time \<Rightarrow> bool list \<Rightarrow> time list \<times> bool" where
  "Okx_KeepAlive interval = ping_loop (keepalive_interval interval)"

text \<open>The side routine of the Bitget read loop: at a tick the counters are swapped with zero and logged when one is positive.\<close>

definition bitget_report :: "bitgetErrors \<Rightarrow> (int \<times> int) option \<times> bitgetErrors" where
  "bitget_report agg =
     (if agg30006 agg > 0 \<or> agg30001 agg > 0 then Some (agg30006 agg, agg30001 agg) else None, \<lparr>agg30006 = 0, agg30001 = 0\<rparr>)"

subsection \<open>The source of the hub\<close>

text \<open>Each message that the endpoint sends is broadcast, with the writes that succeed and the order of the range.\<close>

fun Hub_handleMessages :: "(string \<times> ('c \<Rightarrow> bool) \<times> 'c list) option list \<Rightarrow> 'c hub \<Rightarrow> 'c hub" where
  "Hub_handleMessages [] h = h"
| "Hub_handleMessages (None # reads) h = h"
| "Hub_handleMessages (Some (msg, write_ok, cs) # reads) h = Hub_handleMessages reads (Hub_Broadcast write_ok cs msg h)"

definition Hub_Connect ::
    "bool \<Rightarrow> (string \<times> ('c \<Rightarrow> bool) \<times> 'c list) option list \<Rightarrow> 'c hub \<Rightarrow> bool \<times> 'c hub" where
  "Hub_Connect dialed reads h = (if \<not> dialed then (False, h) else (True, Hub_handleMessages reads h))"

subsection \<open>Health and metrics\<close>

definition redis_health :: "bool list \<Rightarrow> bool \<Rightarrow> bool" where
  "redis_health pings up = fold (\<lambda>ok _. ok) pings up"

text \<open>The counters as they are at a tick.\<close>

record counters =
  cn_processed :: int
  cn_redisOps :: int
  cn_redisErrors :: int
  cn_drops :: int

record metrics_line =
  ml_msgs :: int
  ml_ops :: int
  ml_errs :: int
  ml_drops :: int

definition metrics_period :: "Config \<Rightarrow> int" where
  "metrics_period cfg = (let period = duration (cf_MetricsPeriodSec cfg) second in if period \<le> 0 then 5 * second else period)"

text \<open>\<open>int64(f)\<close> cuts off the fraction; the value of an infinity or NaN is not defined and is never asked for.\<close>

definition f64_int :: "f64 \<Rightarrow> int" where
  "f64_int f = (case f of Fin r \<Rightarrow> if r < 0 then \<lceil>r\<rceil> else \<lfloor>r\<rfloor> | _ \<Rightarrow> 0)"

definition per_second :: "int \<Rightarrow> int \<Rightarrow> int" where
  "per_second period d =
     f64_int (f64_of_rat (of_int d) / f64_of_rat (of_int period / of_int second) + f64_of_rat (1 / 2))"

text \<open>The differences since the last tick.\<close>

definition metrics_delta :: "counters \<Rightarrow> counters \<Rightarrow> counters" where
  "metrics_delta prev cur = \<lparr>cn_processed = cn_processed cur - cn_processed prev, cn_redisOps = cn_redisOps cur - cn_redisOps prev,
     cn_redisErrors = cn_redisErrors cur - cn_redisErrors prev, cn_drops = cn_drops cur - cn_drops prev\<rparr>"

definition metrics_line_of :: "int \<Rightarrow> counters \<Rightarrow> metrics_line" where
  "metrics_line_of period d = \<lparr>ml_msgs = per_second period (cn_processed d), ml_ops = per_second period (cn_redisOps d),
     ml_errs = per_second period (cn_redisErrors d), ml_drops = per_second period (cn_drops d)\<rparr>"

fun metrics_deltas :: "counters \<Rightarrow> counters list \<Rightarrow> counters list" where
  "metrics_deltas prev [] = []"
| "metrics_deltas prev (cur # ticks) = metrics_delta prev cur # metrics_deltas cur ticks"

definition zero_counters :: counters where
  "zero_counters = \<lparr>cn_processed = 0, cn_redisOps = 0, cn_redisErrors = 0, cn_drops = 0\<rparr>"

definition metrics_loop :: "Config \<Rightarrow> counters list \<Rightarrow> metrics_line list" where
  "metrics_loop cfg ticks = map (metrics_line_of (metrics_period cfg)) (metrics_deltas zero_counters ticks)"

subsection \<open>The start of the program\<close>

datatype start_error = InitPanics register_error | ConfigFails config_error | SymbolsFail core_error

text \<open>Whatever is read before the workers start: the files and their decodings.\<close>

record 'd start_env =
  se_getenv :: "string \<Rightarrow> string"
  se_read :: "string \<Rightarrow> string option"
  se_config :: "string \<Rightarrow> Config option"
  se_assets :: "string \<Rightarrow> (string \<times> fileNetwork) list option"
  se_gecko :: "string \<Rightarrow> string list option"
  se_legacy :: "string \<Rightarrow> string list option"
  se_pools :: "string \<Rightarrow> 'd option"
  se_pools_decode :: "'d \<Rightarrow> geckoPool list option"
  se_now :: time

definition load_symbols :: "'d start_env \<Rightarrow> string \<Rightarrow> string list option" where
  "load_symbols V path =
     (case LoadSymbolsFromFile (se_read V) (se_gecko V) (se_legacy V) path of Inl _ \<Rightarrow> None | Inr list \<Rightarrow> Some list)"

text \<open>A registry that cannot be loaded is logged, and the program goes on without it.\<close>

definition core_assets :: "eth_lib \<Rightarrow> 'd start_env \<Rightarrow> Config \<Rightarrow> Provider option" where
  "core_assets E V cfg =
     (let assetsPath = trim_space (ResolveAssetsRegistryPath (se_getenv V) cfg) in
      if assetsPath = [] then None
      else (case fst (LoadOrGetProvider E (LoadRegistryFromFile E (se_read V) (se_assets V)) assetsPath Map.empty) of
              Inl _ \<Rightarrow> None | Inr provider \<Rightarrow> Some provider))"

record core_run =
  cr_config :: Config
  cr_symbols :: "string \<rightharpoonup> string list"
  cr_ctx :: "GraphPricer LaunchContext"
  cr_launches :: "launch list"
  cr_results :: "(dex_error, GraphPricer launched) result list"
  cr_panicked :: bool
  cr_workers :: int
  cr_pipeline :: int

text \<open>The two \<open>init\<close> functions and \<open>main\<close> up to the start of the workers. With \<open>cr_panicked\<close> a builder has ended the process.\<close>

definition core_start :: "eth_lib \<Rightarrow> 'd start_env \<Rightarrow> (start_error, core_run) result" where
  "core_start E V =
     (case register_all (init_cex @ init_dex) [] of Inl e \<Rightarrow> Inl (InitPanics e)
      | Inr registry \<Rightarrow>
        (case LoadConfig (se_getenv V) (se_read V) (se_config V) ''configs/screener-core.yaml'' of Inl e \<Rightarrow> Inl (ConfigFails e)
         | Inr cfg \<Rightarrow>
           (case symbolsByExchange (se_getenv V) (load_symbols V) cfg of Inl e \<Rightarrow> Inl (SymbolsFail e)
            | Inr symbols \<Rightarrow>
                let assetProvider = core_assets E V cfg;
                    ctx = \<lparr>lc_Config = cfg, lc_Pricer = core_pricer E assetProvider cfg, lc_Assets = assetProvider\<rparr>;
                    ls = launches registry symbols cfg;
                    (results, panicked) = run_launches E (se_getenv V) (se_pools V) (se_pools_decode V) (se_now V) ctx ls;
                    (numWorkers, pipelineSize) = worker_pool cfg
                in Inr \<lparr>cr_config = cfg, cr_symbols = symbols, cr_ctx = ctx, cr_launches = ls, cr_results = results,
                     cr_panicked = panicked, cr_workers = numWorkers, cr_pipeline = pipelineSize\<rparr>)))"

subsection \<open>Lemmas: clients and hub\<close>

lemma ping_loop_times:
  "ping_loop interval now ticks =
     (map (\<lambda>k. now + int (Suc k) * interval) [0..<length (takeWhile (\<lambda>w. w) ticks)], \<not> list_all (\<lambda>w. w) ticks)"
proof (induction interval now ticks rule: ping_loop.induct)
  case (2 interval now written ticks)
  show ?case
  proof (cases written)
    case True
    have "map (\<lambda>k. now + int (Suc k) * interval) [0..<Suc (length (takeWhile (\<lambda>w. w) ticks))] =
        (now + interval) # map (\<lambda>k. now + interval + int (Suc k) * interval) [0..<length (takeWhile (\<lambda>w. w) ticks)]"
      by (simp add: upt_conv_Cons map_Suc_upt [symmetric] algebra_simps del: upt_Suc)
    with 2 True show ?thesis by (simp add: Let_def del: upt_Suc)
  qed simp
qed simp

text \<open>Both clients with an interval of their own fall back to the interval of the others.\<close>

theorem KeepAlive_default:
  "interval \<le> 0 \<Longrightarrow> Bitget_KeepAlive interval = Bybit_KeepAlive \<and> Okx_KeepAlive interval = Gate_KeepAlive"
  by (simp add: Bitget_KeepAlive_def Okx_KeepAlive_def Bybit_KeepAlive_def Gate_KeepAlive_def keepalive_interval_def second_def)

lemma broadcast_to:
  assumes "distinct cs" "c \<in> set cs" "write_ok c"
  shows "map snd (filter (\<lambda>p. fst p = c) (hub_delivered (Hub_Broadcast write_ok cs msg h))) =
    map snd (filter (\<lambda>p. fst p = c) (hub_delivered h)) @ [msg]"
proof -
  have "filter (\<lambda>p. fst p = c) (map (\<lambda>c. (c, msg)) (filter write_ok cs)) = [(c, msg)]"
    using assms by (induction cs) (auto simp: filter_map o_def filter_empty_conv)
  with hub_range_result [OF assms(1), of write_ok msg h] show ?thesis by (simp add: Hub_Broadcast_def)
qed

text \<open>A client to which every write succeeds gets every message of the source, in order, up to the read error.\<close>

theorem Hub_source_reaches:
  assumes "\<forall>(msg, write_ok, cs) \<in> set (before_error reads). distinct cs \<and> c \<in> set cs \<and> write_ok c"
  shows "map snd (filter (\<lambda>p. fst p = c) (hub_delivered (Hub_handleMessages reads h))) =
    map snd (filter (\<lambda>p. fst p = c) (hub_delivered h)) @ map fst (before_error reads)"
  using assms by (induction reads h rule: Hub_handleMessages.induct) (simp_all add: broadcast_to)

theorem Hub_source_reaches_witness:
  "map snd (filter (\<lambda>p. fst p = 1) (hub_delivered (Hub_handleMessages
     [Some (''a'', (\<lambda>c. c = 1), [1, 2]), Some (''b'', (\<lambda>c. True), [1 :: nat]), None] \<lparr>hub_clients = {1, 2}, hub_delivered = []\<rparr>))) = [''a'', ''b'']"
  using Hub_source_reaches [of "[Some (''a'', (\<lambda>c. c = 1), [1, 2]), Some (''b'', (\<lambda>c. True), [1 :: nat]), None]" 1
      "\<lparr>hub_clients = {1, 2}, hub_delivered = []\<rparr>"] by simp

subsection \<open>Lemmas: metrics\<close>

lemma metrics_deltas_total:
  assumes get: "\<And>a b. get (metrics_delta a b) = (get b - get a :: int)"
  shows "sum_list (map get (metrics_deltas prev ticks)) = get (last (prev # ticks)) - get prev"
  by (induction prev ticks rule: metrics_deltas.induct) (simp_all add: get)

text \<open>Nothing is lost between two lines: the differences that the lines are made of add up to the counters at the last tick.\<close>

theorem metrics_complete:
  "sum_list (map cn_processed (metrics_deltas zero_counters ticks)) = cn_processed (last (zero_counters # ticks)) \<and>
   sum_list (map cn_redisOps (metrics_deltas zero_counters ticks)) = cn_redisOps (last (zero_counters # ticks)) \<and>
   sum_list (map cn_redisErrors (metrics_deltas zero_counters ticks)) = cn_redisErrors (last (zero_counters # ticks)) \<and>
   sum_list (map cn_drops (metrics_deltas zero_counters ticks)) = cn_drops (last (zero_counters # ticks))"
  by (intro conjI; subst metrics_deltas_total) (simp_all add: metrics_delta_def zero_counters_def)

subsection \<open>Lemmas: the start\<close>

lemma registry_no_blank:
  assumes "register_all (init_cex @ init_dex) [] = Inr registry" and "Get registry name = Some b"
  shows "registry_key name \<noteq> []"
proof -
  have "case register_all (init_cex @ init_dex) [] of Inl e \<Rightarrow> True | Inr r \<Rightarrow> map_of r [] = None" by code_simp
  then have "map_of registry [] = None" by (simp add: assms(1))
  with assms(2) show ?thesis by (auto simp: Get_def)
qed

lemma symbols_resolved:
  assumes "symbolsByExchange getenv load cfg = Inr m" and "ex \<in> set (exchange_list cfg)" and "to_lower (trim_space ex) \<noteq> []"
  obtains l where "m (to_lower (trim_space ex)) = Some l" "l \<noteq> []"
proof -
  from assms(1) obtain defaults cache where
    "resolve_exchanges load (exConfigByName (cf_ExchangeConfigs cfg)) (trim_space (ResolveSharedPoolsPath getenv cfg)) defaults
       (exchange_list cfg) cache Map.empty = Inr m"
    by (auto simp: symbolsByExchange_def Let_def split: if_splits prod.splits option.splits)
  from resolve_exchanges_spec [OF this] have m: "\<forall>k l. m k = Some l \<longrightarrow> l \<noteq> []"
    "dom m = {k. k \<noteq> [] \<and> (\<exists>ex \<in> set (exchange_list cfg). k = to_lower (trim_space ex))}" by simp_all
  then have "to_lower (trim_space ex) \<in> dom m" using assms(2,3) by blast
  then show thesis using m(1) that by blast
qed

definition call_of ::
    "eth_lib \<Rightarrow> (string \<Rightarrow> string) \<Rightarrow> (string \<Rightarrow> 'd option) \<Rightarrow> ('d \<Rightarrow> geckoPool list option) \<Rightarrow> time \<Rightarrow> 'p LaunchContext
     \<Rightarrow> launch \<Rightarrow> (dex_error, 'p launched) result" where
  "call_of E getenv rf dc now ctx l =
     (case l of LaunchExchange b ex symbols \<Rightarrow> call_builder E getenv rf dc now ctx b symbols None
      | LaunchDex b d \<Rightarrow> call_builder E getenv rf dc now ctx b [] (Some d))"

lemma run_launches_results:
  "\<not> snd (run_launches E getenv rf dc now ctx ls) \<Longrightarrow>
     fst (run_launches E getenv rf dc now ctx ls) = map (call_of E getenv rf dc now ctx) ls"
  by (induction ls) (auto simp: call_of_def Let_def split: if_splits prod.splits)

lemma cex_launches:
  assumes "symbols \<noteq> []" and "b \<in> {BuildBybit, BuildGate, BuildBitget, BuildOkx}"
  shows "\<exists>p. call_builder E getenv rf dc now ctx b symbols None = Inr (LaunchedCex p)"
  using assms
  by (auto simp: call_builder_def cex_launch_def buildBybit_def buildGate_def buildBitget_def buildOkx_def Let_def)


lemma dex_launches:
  assumes "register_all (init_cex @ init_dex) [] = Inr registry" and "lc_Pricer ctx = core_pricer E provider cfg"
    and "LaunchDex b d \<in> set (launches registry symbols cfg)"
  shows "call_builder E getenv rf dc now ctx b [] (Some d) \<noteq> Inl (PricerNotConfigured x)"
  by (rule conjunct2 [OF dex_launches_have_pricer [OF assms]])

text \<open>What is expected of a launch and its result: an exchange has symbols and its plan is made; a section is valid and
  never lacks a pricer.\<close>

definition launch_ok :: "(string \<Rightarrow> string) \<Rightarrow> launch \<Rightarrow> (dex_error, 'p launched) result \<Rightarrow> bool" where
  "launch_ok getenv l r \<longleftrightarrow> (case l of
     LaunchExchange b ex symbols \<Rightarrow> symbols \<noteq> [] \<and> (b \<in> {BuildBybit, BuildGate, BuildBitget, BuildOkx} \<longrightarrow> (\<exists>p. r = Inr (LaunchedCex p)))
   | LaunchDex b d \<Rightarrow> dex_valid getenv d \<and> r \<noteq> Inl NilDereference \<and> (\<forall>x. r \<noteq> Inl (PricerNotConfigured x)))"

lemma core_start_parts:
  assumes "core_start E V = Inr s"
  obtains registry where "register_all (init_cex @ init_dex) [] = Inr registry"
    "LoadConfig (se_getenv V) (se_read V) (se_config V) ''configs/screener-core.yaml'' = Inr (cr_config s)"
    "symbolsByExchange (se_getenv V) (load_symbols V) (cr_config s) = Inr (cr_symbols s)"
    "cr_launches s = launches registry (cr_symbols s) (cr_config s)"
    "lc_Pricer (cr_ctx s) = core_pricer E (core_assets E V (cr_config s)) (cr_config s)"
    "run_launches E (se_getenv V) (se_pools V) (se_pools_decode V) (se_now V) (cr_ctx s) (cr_launches s) = (cr_results s, cr_panicked s)"
    "worker_pool (cr_config s) = (cr_workers s, cr_pipeline s)"
  using assms by (auto simp: core_start_def Let_def split: sum.splits prod.splits)

lemma launched_ok:
  assumes "core_start E V = Inr s" and "l \<in> set (cr_launches s)"
  shows "launch_ok (se_getenv V) l (call_of E (se_getenv V) (se_pools V) (se_pools_decode V) (se_now V) (cr_ctx s) l)"
  using assms(1)
proof (rule core_start_parts)
  fix registry
  assume r: "register_all (init_cex @ init_dex) [] = Inr registry" and ls: "cr_launches s = launches registry (cr_symbols s) (cr_config s)"
    and cfg: "LoadConfig (se_getenv V) (se_read V) (se_config V) ''configs/screener-core.yaml'' = Inr (cr_config s)"
    and sy: "symbolsByExchange (se_getenv V) (load_symbols V) (cr_config s) = Inr (cr_symbols s)"
    and pr: "lc_Pricer (cr_ctx s) = core_pricer E (core_assets E V (cr_config s)) (cr_config s)"
  from assms(2) have l: "l \<in> set (launches registry (cr_symbols s) (cr_config s))" by (simp add: ls)
  then show ?thesis
  proof (cases rule: launches_cases)
    case (exchange ex b)
    with registry_no_blank [OF r exchange(2)] have "to_lower (trim_space ex) \<noteq> []" by (auto simp: registry_key_def)
    with symbols_resolved [OF sy exchange(1)] obtain list where "cr_symbols s (to_lower (trim_space ex)) = Some list" "list \<noteq> []" by blast
    with exchange(3) show ?thesis by (auto simp: launch_ok_def call_of_def intro: cex_launches)
  next
    case (dex d b)
    then have "call_builder E (se_getenv V) (se_pools V) (se_pools_decode V) (se_now V) (cr_ctx s) b [] (Some d) \<noteq> Inl (PricerNotConfigured x)" for x
      using dex_launches [OF r pr] l by blast
    with dex LoadConfig_facts [OF cfg] show ?thesis by (simp add: launch_ok_def call_of_def call_builder_nil)
  qed
qed

text \<open>C1. The start of the program as a whole: when \<open>main\<close> gets past the configuration and the symbols, it has workers and a
  pipeline, every exchange it launches has symbols and gets its plan of subscriptions, every section it launches is
  valid and has a pricer, and every launch gets its turn unless the process dies, which happens exactly when a pricer
  exists and the list of exchanges names \<open>uniswap_v2\<close> or \<open>uniswap_v3\<close>.\<close>

theorem core_start_sound:
  assumes "core_start E V = Inr s"
  shows "0 < cr_workers s \<and> 0 < cr_pipeline s \<and>
    (cr_panicked s \<or> list_all2 (launch_ok (se_getenv V)) (cr_launches s) (cr_results s)) \<and>
    (cr_panicked s \<longleftrightarrow> lc_Pricer (cr_ctx s) \<noteq> None \<and>
       (\<exists>ex \<in> set (exchange_list (cr_config s)). to_lower (trim_space ex) \<in> {''uniswap_v2'', ''uniswap_v3''}))"
  using assms
proof (rule core_start_parts)
  fix registry
  assume r: "register_all (init_cex @ init_dex) [] = Inr registry" and ls: "cr_launches s = launches registry (cr_symbols s) (cr_config s)"
    and run: "run_launches E (se_getenv V) (se_pools V) (se_pools_decode V) (se_now V) (cr_ctx s) (cr_launches s) = (cr_results s, cr_panicked s)"
    and w: "worker_pool (cr_config s) = (cr_workers s, cr_pipeline s)"
  have "list_all2 (launch_ok (se_getenv V)) (cr_launches s) (cr_results s)" if "\<not> cr_panicked s"
    using run_launches_results [of E "se_getenv V" "se_pools V" "se_pools_decode V" "se_now V" "cr_ctx s" "cr_launches s"] run that
      launched_ok [OF assms] by (simp add: list_all2_conv_all_nth)
  moreover have "0 < cr_workers s \<and> 0 < cr_pipeline s" using w by (auto simp: worker_pool_def split: if_splits)
  ultimately show ?thesis
    using launches_panic [OF r, of E "se_getenv V" "se_pools V" "se_pools_decode V" "se_now V" "cr_ctx s" "cr_symbols s" "cr_config s"] run
    by (auto simp: ls)
qed

definition demo_start :: "unit start_env" where
  "demo_start = \<lparr>se_getenv = demo_env, se_read = (\<lambda>_. Some ''x''), se_config = (\<lambda>_. Some (demo_config [demo_dex ''uniswap_v4'' 0])),
     se_assets = (\<lambda>_. None), se_gecko = (\<lambda>_. None), se_legacy = (\<lambda>_. Some [''btc'', ''eth'']), se_pools = (\<lambda>_. None),
     se_pools_decode = (\<lambda>_. None), se_now = 0\<rparr>"


lemma demo_start_runs: "\<exists>s. core_start plain_eth demo_start = Inr s \<and> cr_config s = config_defaults demo_env (demo_config [demo_dex ''uniswap_v4'' 0]) \<and>
    LaunchExchange BuildBybit ''bybit'' [''BTCUSDT'', ''ETHUSDT''] \<in> set (cr_launches s)"
proof -
  define cfg where "cfg = config_defaults demo_env (demo_config [demo_dex ''uniswap_v4'' 0])"
  have c: "LoadConfig demo_env (\<lambda>_. Some ''x'') (\<lambda>_. Some (demo_config [demo_dex ''uniswap_v4'' 0])) ''configs/screener-core.yaml'' = Inr cfg"
    unfolding cfg_def by code_simp
  have "map_sum id (\<lambda>m. m ''bybit'') (symbolsByExchange demo_env (load_symbols demo_start) cfg) = Inr (Some [''BTCUSDT'', ''ETHUSDT''])"
    unfolding cfg_def by code_simp
  then obtain m where m: "symbolsByExchange demo_env (load_symbols demo_start) cfg = Inr m" "m ''bybit'' = Some [''BTCUSDT'', ''ETHUSDT'']"
    by (cases "symbolsByExchange demo_env (load_symbols demo_start) cfg") auto
  have "''bybit'' \<in> set (exchange_list cfg)" unfolding cfg_def by code_simp
  moreover have "Get demo_registry (to_lower (trim_space ''bybit'')) = Some BuildBybit" "to_lower (trim_space ''bybit'') = ''bybit''" by code_simp+
  ultimately have "LaunchExchange BuildBybit ''bybit'' [''BTCUSDT'', ''ETHUSDT''] \<in> set (launches demo_registry m cfg)"
    using exchange_launched [of "''bybit''" cfg demo_registry BuildBybit m] m(2) by simp
  then show ?thesis
    using c m(1) by (simp add: core_start_def demo_registry demo_start_def cfg_def [symmetric] Let_def split: prod.splits)
qed

theorem core_start_sound_witness:
  "\<exists>s. core_start plain_eth demo_start = Inr s \<and> \<not> cr_panicked s \<and>
     list_all2 (launch_ok demo_env) (cr_launches s) (cr_results s) \<and> cr_launches s \<noteq> []"
proof -
  obtain s where s: "core_start plain_eth demo_start = Inr s"
    and cfg: "cr_config s = config_defaults demo_env (demo_config [demo_dex ''uniswap_v4'' 0])"
    and l: "LaunchExchange BuildBybit ''bybit'' [''BTCUSDT'', ''ETHUSDT''] \<in> set (cr_launches s)"
    using demo_start_runs by blast
  have "exchange_list (cr_config s) = [''bybit'']" unfolding cfg by code_simp
  moreover have "to_lower (trim_space ''bybit'') \<notin> {''uniswap_v2'', ''uniswap_v3''}" by code_simp
  ultimately have "\<not> cr_panicked s" using core_start_sound [OF s] by auto
  moreover have "se_getenv demo_start = demo_env" by (simp add: demo_start_def)
  ultimately show ?thesis using core_start_sound [OF s] s l by auto
qed

end
