(* ===== verification/Smoke_Tests.thy ===== *)
theory Smoke_Tests
  imports Core_Main
begin

text \<open>
  Small stand-alone tools: the list of pools (\<open>Temp/list_pools.go\<close>) with its insertion sort, the OKX subscriber
  (\<open>test_scripts/okx\<close>) with its stop channel, the connection test of Gate (\<open>test_scripts/gateio\<close>), and the two
  tools that print symbols (\<open>scripts/test_symbols.go\<close>, \<open>scripts/extract_tickers.go\<close>).
\<close>

subsection \<open>list\_pools.go\<close>

record pool_output =
  po_Pair :: string
  po_Canon :: string
  po_Stable :: bool
  po_WETH :: bool
  po_Addr :: string

definition output_of :: "eth_lib \<Rightarrow> PoolConfig \<Rightarrow> pool_output" where
  "output_of E p = \<lparr>po_Pair = pc_PairName p, po_Canon = pc_CanonicalPair p, po_Stable = pc_HasStable p,
     po_WETH = pc_HasWETH p, po_Addr = eth_Hex E (pc_Address p)\<rparr>"

text \<open>The inner loop moves the element at \<open>j\<close> to the left while it is smaller than its neighbour.\<close>

fun sift :: "nat \<Rightarrow> pool_output list \<Rightarrow> pool_output list" where
  "sift 0 xs = xs"
| "sift (Suc j) xs =
     (if po_Pair (xs ! Suc j) < po_Pair (xs ! j) then sift j (xs[Suc j := xs ! j, j := xs ! Suc j]) else xs)"

definition sort_outputs :: "pool_output list \<Rightarrow> pool_output list" where
  "sort_outputs xs = fold sift [1..<length xs] xs"

definition list_pools ::
    "eth_lib \<Rightarrow> (string \<Rightarrow> 'd option) \<Rightarrow> ('d \<Rightarrow> geckoPool list option) \<Rightarrow> (pools_error, pool_output list) result" where
  "list_pools E read_file decode =
     (case LoadPoolsFromGecko E read_file decode ''ticker_source/geckoterminal_pools.json'' of Inl e \<Rightarrow> Inl e
      | Inr pools \<Rightarrow> Inr (sort_outputs (map (output_of E) pools)))"

subsection \<open>connect\_okx\_ws.go\<close>

fun okx_suffix :: "string \<Rightarrow> string list \<Rightarrow> string option" where
  "okx_suffix s [] = None"
| "okx_suffix s (suf # sufs) =
     (if length s > length suf \<and> has_suffix s suf then Some (take (length s - length suf) s @ ''-'' @ suf) else okx_suffix s sufs)"

definition bybitToOKX :: "string \<Rightarrow> string" where
  "bybitToOKX bybit =
     (if length bybit < 5 then to_upper bybit
      else let s = to_upper bybit in
        (case okx_suffix s [''USDT'', ''USDC'', ''DAI'', ''BUSD''] of Some r \<Rightarrow> r
         | None \<Rightarrow> if length s > 4 then take (length s - 4) s @ ''-'' @ drop (length s - 4) s else s))"

text \<open>\<open>os_stopped\<close> is whether \<open>stop\<close> is closed, \<open>os_reading\<close> and \<open>os_pinging\<close> whether the goroutines run.\<close>

record okx_script =
  os_stopped :: bool
  os_reading :: bool
  os_pinging :: bool
  os_received :: int
  os_aggErr :: int
  os_prev :: int
  os_lines :: "(int \<times> int) list"

definition okx_start :: okx_script where
  "okx_start = \<lparr>os_stopped = False, os_reading = True, os_pinging = True, os_received = 0, os_aggErr = 0, os_prev = 0, os_lines = []\<rparr>"

text \<open>A frame comes with its decoding; the ticks are those that the selects take.\<close>

datatype okx_event = OFrame "okxMsg option" | OReadError | OMetricsTick | OPingTick bool | OSignal

definition okx_message :: "okxMsg \<Rightarrow> okx_script \<Rightarrow> okx_script" where
  "okx_message m st =
     (if om_Event m = ''error'' \<or> (om_Code m \<noteq> [] \<and> om_Code m \<noteq> ''0'') then st\<lparr>os_aggErr := os_aggErr st + 1\<rparr>
      else (case om_Arg m of None \<Rightarrow> st
        | Some a \<Rightarrow> if oa_Channel a \<noteq> ''tickers'' \<or> om_Data m = [] then st
            else st\<lparr>os_received := os_received st + int (length (om_Data m))\<rparr>))"

definition okx_step :: "okx_event \<Rightarrow> okx_script \<Rightarrow> okx_script" where
  "okx_step ev st =
     (case ev of
        OFrame m \<Rightarrow> (case m of Some m \<Rightarrow> if os_reading st then okx_message m st else st | None \<Rightarrow> st)
      | OReadError \<Rightarrow> if os_reading st then st\<lparr>os_stopped := True, os_reading := False\<rparr> else st
      | OMetricsTick \<Rightarrow>
          st\<lparr>os_lines := os_lines st @ [(os_received st - os_prev st, os_aggErr st)], os_prev := os_received st, os_aggErr := 0\<rparr>
      | OPingTick written \<Rightarrow> st\<lparr>os_pinging := (os_pinging st \<and> written)\<rparr>
      | OSignal \<Rightarrow> st)"

text \<open>\<open>main\<close> waits for the signal and closes \<open>stop\<close>; closing a closed channel panics.\<close>

datatype okx_end = ORunning | OStopped | OPanicked

fun okx_run :: "okx_event list \<Rightarrow> okx_script \<Rightarrow> okx_end \<times> okx_script" where
  "okx_run [] st = (ORunning, st)"
| "okx_run (OSignal # evs) st = (if os_stopped st then (OPanicked, st) else (OStopped, st\<lparr>os_stopped := True\<rparr>))"
| "okx_run (ev # evs) st = okx_run evs (okx_step ev st)"

text \<open>What is subscribed: the batches, with a pause after a full one. A negative size of the batch panics when it is made.\<close>

fun okx_batches :: "int \<Rightarrow> int \<Rightarrow> string list \<Rightarrow> string list \<Rightarrow> cex_action list" where
  "okx_batches bsz pause batch [] = (case Okx_SubscribeBatch batch of None \<Rightarrow> [] | Some m \<Rightarrow> [ASubscribe m])"
| "okx_batches bsz pause batch (s # rest) =
     (let batch = batch @ [bybitToOKX s] in
      if int (length batch) \<ge> bsz
      then (case Okx_SubscribeBatch batch of None \<Rightarrow> [] | Some m \<Rightarrow> [ASubscribe m]) @ ASleep pause # okx_batches bsz pause [] rest
      else okx_batches bsz pause batch rest)"

text \<open>\<open>None\<close> when the symbols cannot be loaded or the endpoint not be reached; a panic is a value.\<close>

definition okx_main :: "(string \<Rightarrow> string list option) \<Rightarrow> bool \<Rightarrow> int \<Rightarrow> int \<Rightarrow> okx_event list \<Rightarrow> (cex_action list \<times> okx_end) option" where
  "okx_main load dialed batchSize pauseMs events =
     (case load ''Temp/all_contracts_merged_reformatted.json'' of None \<Rightarrow> None
      | Some symbols \<Rightarrow>
          if \<not> dialed then None
          else if batchSize < 0 then Some ([], OPanicked)
          else Some (okx_batches batchSize (ms pauseMs) [] symbols, fst (okx_run events okx_start)))"

subsection \<open>connect\_gate\_ws.go\<close>

datatype gate_event = GTimeUp | GSignal | GPingTick bool

text \<open>The number of pings, and whether the loop has been left.\<close>

fun gate_loop :: "gate_event list \<Rightarrow> nat \<Rightarrow> nat \<times> bool" where
  "gate_loop [] n = (n, False)"
| "gate_loop (GPingTick written # evs) n = (if written then gate_loop evs (Suc n) else (n, True))"
| "gate_loop (_ # evs) n = (n, True)"

subsection \<open>Symbol tools\<close>

definition testSymbols :: "string list" where
  "testSymbols = [''BTCUSDT'', ''ETHUSDT'', ''LTCUSDT'', ''ADAUSDT'', ''DOTUSDT'', ''LINKUSDT'', ''XRPUSDT'', ''BCHUSDT'', ''BNBUSDT'',
     ''SOLUSDT'', ''AVAXUSDT'', ''MATICUSDT'', ''ATOMUSDT'', ''NEARUSDT'', ''ALGOUSDT'', ''FILUSDT'', ''ICPUSDT'', ''FTMUSDT'',
     ''SANDUSDT'', ''MANAUSDT'']"

definition test_symbols_main :: "('e, string list) result \<Rightarrow> ('e, string list) result" where
  "test_symbols_main keys =
     bind_res (LoadSymbolsFromJSON keys) (\<lambda>symbols. Inr (GetValidBybitSymbols (FilterBybitSymbols symbols testSymbols)))"

definition extract_tickers :: "('e, string list) result \<Rightarrow> ('e, string list) result" where
  "extract_tickers keys =
     bind_res keys (\<lambda>tickers. Inr (map (\<lambda>t. t @ ''USDT'')
       (filter (\<lambda>t. t \<notin> {''USDT'', ''USDC'', ''DAI'', ''BUSD'', ''USD'', ''EUR''}) (sort tickers))))"

subsection \<open>Lemmas: insertion sort\<close>

text \<open>The inner loop splits the sorted prefix: what is greater than the new element ends up behind it.\<close>

lemma sift_split:
  "sorted (map po_Pair P) \<Longrightarrow> \<exists>A B. P = A @ B \<and> sift (length P) (P @ x # rest) = A @ x # B @ rest \<and>
     (\<forall>a \<in> set A. po_Pair a \<le> po_Pair x) \<and> (\<forall>b \<in> set B. po_Pair x < po_Pair b)"
proof (induction P arbitrary: rest rule: rev_induct)
  case (snoc y P)
  have at: "(P @ y # x # rest) ! Suc (length P) = x" "(P @ y # x # rest) ! length P = y"
    by (simp_all add: nth_append)
  show ?case
  proof (cases "po_Pair x < po_Pair y")
    case True
    from snoc.prems have "sorted (map po_Pair P)" by (simp add: sorted_append)
    from snoc.IH [OF this, of "y # rest"] obtain A B where ih: "P = A @ B" "sift (length P) (P @ x # y # rest) = A @ x # B @ y # rest"
      "\<forall>a \<in> set A. po_Pair a \<le> po_Pair x" "\<forall>b \<in> set B. po_Pair x < po_Pair b" by blast
    have "(P @ y # x # rest)[Suc (length P) := y, length P := x] = P @ x # y # rest"
      by (simp add: list_update_append)
    then have "sift (length (P @ [y])) ((P @ [y]) @ x # rest) = A @ x # (B @ [y]) @ rest"
      using at True ih(2) by simp
    then show ?thesis using ih True by (intro exI [of _ A] exI [of _ "B @ [y]"]) simp
  next
    case False
    then have "sift (length (P @ [y])) ((P @ [y]) @ x # rest) = (P @ [y]) @ x # [] @ rest" using at by simp
    moreover have "\<forall>a \<in> set (P @ [y]). po_Pair a \<le> po_Pair x"
      using snoc.prems False by (fastforce simp: sorted_append)
    ultimately show ?thesis by (intro exI [of _ "P @ [y]"] exI [of _ "[]"]) simp
  qed
qed simp

lemma sift_prefix:
  assumes "sorted (map po_Pair P)"
  obtains Q where "sift (length P) (P @ x # rest) = Q @ rest" "sorted (map po_Pair Q)" "mset Q = mset (P @ [x])"
    "\<And>k. filter (\<lambda>y. k = po_Pair y) Q = filter (\<lambda>y. k = po_Pair y) (P @ [x])"
proof -
  from sift_split [OF assms] obtain A B where s: "P = A @ B" "sift (length P) (P @ x # rest) = A @ x # B @ rest"
    "\<forall>a \<in> set A. po_Pair a \<le> po_Pair x" "\<forall>b \<in> set B. po_Pair x < po_Pair b" by blast
  have "filter (\<lambda>y. k = po_Pair y) (A @ x # B) = filter (\<lambda>y. k = po_Pair y) (P @ [x])" for k
  proof (cases "k = po_Pair x")
    case True
    with s(4) have "filter (\<lambda>y. k = po_Pair y) B = []" by (auto simp: filter_empty_conv)
    then show ?thesis using s(1) True by simp
  qed (simp add: s(1))
  moreover have "sorted (map po_Pair (A @ x # B))" using assms s by (auto simp: sorted_append less_imp_le)
  ultimately show thesis using s that [of "A @ x # B"] by simp
qed

lemma sort_outputs_prefix:
  "k < length xs \<Longrightarrow> \<exists>Q. fold sift [1..<Suc k] xs = Q @ drop (Suc k) xs \<and> length Q = Suc k \<and> sorted (map po_Pair Q) \<and>
     mset Q = mset (take (Suc k) xs) \<and> (\<forall>p. filter (\<lambda>y. p = po_Pair y) Q = filter (\<lambda>y. p = po_Pair y) (take (Suc k) xs))"
proof (induction k)
  case 0
  then show ?case by (cases xs) auto
next
  case (Suc k)
  then obtain Q where q: "fold sift [1..<Suc k] xs = Q @ drop (Suc k) xs" "length Q = Suc k" "sorted (map po_Pair Q)"
    "mset Q = mset (take (Suc k) xs)" "\<forall>p. filter (\<lambda>y. p = po_Pair y) Q = filter (\<lambda>y. p = po_Pair y) (take (Suc k) xs)" by auto
  have d: "drop (Suc k) xs = xs ! Suc k # drop (Suc (Suc k)) xs" using Suc.prems by (simp add: Cons_nth_drop_Suc)
  have t: "take (Suc (Suc k)) xs = take (Suc k) xs @ [xs ! Suc k]" using Suc.prems by (simp add: take_Suc_conv_app_nth)
  obtain Q' where q': "sift (length Q) (Q @ xs ! Suc k # drop (Suc (Suc k)) xs) = Q' @ drop (Suc (Suc k)) xs" "sorted (map po_Pair Q')"
    "mset Q' = mset (Q @ [xs ! Suc k])" "\<And>p. filter (\<lambda>y. p = po_Pair y) Q' = filter (\<lambda>y. p = po_Pair y) (Q @ [xs ! Suc k])"
    using sift_prefix [OF q(3)] by blast
  have "length Q' = Suc (Suc k)" using q(2) mset_eq_length [OF q'(3)] by simp
  moreover have "[1..<Suc (Suc k)] = [1..<Suc k] @ [Suc k]" by simp
  then have "fold sift [1..<Suc (Suc k)] xs = sift (Suc k) (Q @ drop (Suc k) xs)"
    by (simp only: fold_append fold_Cons fold_Nil o_apply id_apply q(1))
  then have "fold sift [1..<Suc (Suc k)] xs = Q' @ drop (Suc (Suc k)) xs"
    using q'(1) by (simp only: q(2) d)
  ultimately show ?case using q(4,5) q'(2,3,4) by (intro exI [of _ Q']) (simp add: t del: upt_Suc sift.simps)
qed

lemma sort_outputs_sorts: "sort_outputs xs = sort_key po_Pair xs"
proof (cases "xs = []")
  case False
  then obtain k where k: "length xs = Suc k" by (cases xs) auto
  from sort_outputs_prefix [of k xs] k obtain Q where "fold sift [1..<Suc k] xs = Q" "sorted (map po_Pair Q)" "mset Q = mset xs"
    "\<forall>p. filter (\<lambda>y. p = po_Pair y) Q = filter (\<lambda>y. p = po_Pair y) xs" by auto
  then show ?thesis by (simp add: sort_outputs_def k) (rule properties_for_sort_key [symmetric], simp_all)
qed (simp add: sort_outputs_def)

text \<open>C29. The list of pools is the stable sort by pair of what the loader of the V2 connector returns: the loops that swap
  neighbours in place terminate with the result of the library's sort, pools with the same pair stay in the order of
  the file, and an error of the loader is the error of the tool.\<close>

theorem list_pools_sorts:
  "list_pools E read_file decode =
     map_sum id (\<lambda>pools. sort_key po_Pair (map (output_of E) pools)) (LoadPoolsFromGecko E read_file decode ''ticker_source/geckoterminal_pools.json'')"
  by (simp add: list_pools_def sort_outputs_sorts split: sum.split)

subsection \<open>Lemmas: the OKX script\<close>

lemma okx_run_signal:
  "OSignal \<notin> set evs \<Longrightarrow> os_stopped st = (\<not> os_reading st) \<Longrightarrow>
     fst (okx_run (evs @ OSignal # rest) st) = (if \<not> os_reading st \<or> OReadError \<in> set evs then OPanicked else OStopped)"
proof (induction evs arbitrary: st)
  case (Cons ev evs)
  have inv: "os_stopped (okx_step ev st) = (\<not> os_reading (okx_step ev st))"
    using Cons.prems(2) by (cases ev) (auto simp: okx_step_def okx_message_def split: option.split)
  have r: "os_reading (okx_step ev st) = (os_reading st \<and> ev \<noteq> OReadError)"
    by (cases ev) (auto simp: okx_step_def okx_message_def split: option.split)
  have "okx_run ((ev # evs) @ OSignal # rest) st = okx_run (evs @ OSignal # rest) (okx_step ev st)"
    using Cons.prems(1) by (cases ev) auto
  with Cons.IH [OF _ inv] Cons.prems(1) show ?case by (simp add: r)
qed simp

text \<open>Closing \<open>stop\<close> twice: when the reader has failed before the signal, the signal makes the process panic; otherwise it stops.\<close>

theorem okx_signal_after_error:
  assumes "OSignal \<notin> set evs"
  shows "fst (okx_run (evs @ OSignal # rest) okx_start) = (if OReadError \<in> set evs then OPanicked else OStopped)"
  using okx_run_signal [OF assms, of okx_start] by (simp add: okx_start_def)

theorem okx_signal_after_error_witness: "fst (okx_run [OReadError, OMetricsTick, OSignal] okx_start) = OPanicked"
  using okx_signal_after_error [of "[OReadError, OMetricsTick]" "[]"] by simp

lemma okx_lines_total: "sum_list (map fst (os_lines st)) = os_prev st \<Longrightarrow>
    sum_list (map fst (os_lines (snd (okx_run evs st)))) = os_prev (snd (okx_run evs st))"
  by (induction evs st rule: okx_run.induct) (auto simp: okx_step_def okx_message_def split: option.split)

text \<open>The lines of the metrics add up to the messages counted until the last of them.\<close>

theorem okx_metrics_complete:
  "sum_list (map fst (os_lines (snd (okx_run evs okx_start)))) = os_prev (snd (okx_run evs okx_start))"
  by (rule okx_lines_total) (simp add: okx_start_def)

text \<open>The names of the script are those of the launcher for quotes of four letters. For DAI the launcher cuts at the wrong place.\<close>

theorem okx_names_agree:
  assumes "plain_symbol (b @ q)" and "b \<noteq> []" and "q \<in> {''USDT'', ''USDC'', ''BUSD''}"
  shows "bybitToOKX (b @ q) = okx_inst (b @ q)"
proof -
  have up: "to_upper (b @ q) = b @ q" using assms(1) by (rule plain_upper)
  have len: "length q = 4" using assms(3) by auto
  have nd: "\<not> contains (b @ q) ''-''"
    using assms(1) separators by (auto simp: contains_char plain_symbol_def list_all_iff)
  have cut: "has_suffix (b @ q) suf = (q = suf)" if "length suf = 4" for suf
    using len that by (auto simp: has_suffix_def)
  have take: "take (length (b @ q) - 4) (b @ q) = b" "4 < length (b @ q)" using len assms(2) by simp_all
  have suf: "okx_suffix (b @ q) (p # ps) = (if q = p then Some (b @ ''-'' @ q) else okx_suffix (b @ q) ps)" if "length p = 4" for p ps
    using take by (simp only: okx_suffix.simps cut [OF that] that) auto
  have dai: "\<not> has_suffix (b @ q) ''DAI''" if "q \<noteq> ''USDT''" "q \<noteq> ''USDC''"
    using that assms(3) by (auto simp: has_suffix_def)
  have "okx_suffix (b @ q) [''USDT'', ''USDC'', ''DAI'', ''BUSD''] = Some (b @ ''-'' @ q)"
  proof (cases "q = ''USDT'' \<or> q = ''USDC''")
    case True
    then show ?thesis by (auto simp: suf simp del: okx_suffix.simps)
  next
    case False
    with assms(3) have q: "q = ''BUSD''" by auto
    have "okx_suffix (b @ q) [''USDT'', ''USDC'', ''DAI'', ''BUSD''] = okx_suffix (b @ q) [''DAI'', ''BUSD'']"
      by (subst suf, simp, subst suf, simp) (simp add: q del: okx_suffix.simps)
    also have "\<dots> = okx_suffix (b @ q) [''BUSD'']"
      by (subst okx_suffix.simps(2)) (use dai False in \<open>simp del: okx_suffix.simps\<close>)
    finally show ?thesis using suf [of "''BUSD''" "[]"] by (simp add: q del: okx_suffix.simps)
  qed
  then have "bybitToOKX (b @ q) = b @ ''-'' @ q" using take(2) by (simp add: bybitToOKX_def up Let_def del: okx_suffix.simps)
  moreover have "take (length (b @ q) - 4) (b @ q) = b" "drop (length (b @ q) - 4) (b @ q) = q" "length (b @ q) > 4"
    using take len by simp_all
  then have "okx_inst (b @ q) = b @ ''-'' @ q"
    by (simp only: okx_inst_def up Let_def plain_replace [OF assms(1) separators(2)] plain_replace [OF assms(1) separators(3)] nd
      if_True simp_thms)
  ultimately show ?thesis by simp
qed

theorem okx_names_agree_witness: "bybitToOKX ''BTCUSDT'' = okx_inst ''BTCUSDT''"
proof -
  have "plain_symbol (''BTC'' @ ''USDT'')" by code_simp
  from okx_names_agree [OF this] show ?thesis by simp
qed

theorem okx_dai_names: "bybitToOKX ''ETHDAI'' = ''ETH-DAI'' \<and> okx_inst ''ETHDAI'' = ''ET-HDAI''"
  by code_simp

end
