(* ===== verification/V4_Once.thy ===== *)
theory V4_Once
  imports Uniswap_V4
begin

text \<open>
  The once mode of the V4 connector: with \<open>once\<close> in its section a connector stops by itself as soon as every
  pool has swapped. The lemmas follow the set of pools that have been seen through frames and streams.
\<close>

definition pool_keys :: "'p V4Connector \<Rightarrow> hash set" where
  "pool_keys c = dom (map_of (k4_pools c))"

definition emitted :: "'p V4Connector \<Rightarrow> hash set" where
  "emitted c = {i. \<exists>s. map_of (k4_pools c) i = Some s \<and> s4_onceEmitted s}"

text \<open>A frame with a usable Swap log of the pool \<open>i\<close>.\<close>

definition swap_log :: "eth_lib \<Rightarrow> v4_abi \<Rightarrow> hash \<Rightarrow> LogEvent \<Rightarrow> bool" where
  "swap_log E A i l \<longleftrightarrow>
     \<not> l4_Removed l \<and> 2 \<le> length (l4_Topics l) \<and> ab_event A (eth_HexToHash E (hd (l4_Topics l))) = Some ''Swap'' \<and>
     eth_HexToHash E (l4_Topics l ! 1) = i \<and> trim_space (l4_Data l) \<noteq> [] \<and> \<not> equal_fold (trim_space (l4_Data l)) ''0x'' \<and>
     (case ab_decode A (trim_space (l4_Data l)) of None \<Rightarrow> False
      | Some payload \<Rightarrow> (case ab_unpack A payload of None \<Rightarrow> False
         | Some vals \<Rightarrow> (case bigIntField A vals ''sqrtPriceX96'' of None \<Rightarrow> False | Some sqp \<Rightarrow> 0 < sqp)))"

definition swap_frame :: "eth_lib \<Rightarrow> v4_abi \<Rightarrow> hash \<Rightarrow> v4_event \<Rightarrow> bool" where
  "swap_frame E A i e \<longleftrightarrow> (case e of XFrame now raw slept written \<Rightarrow>
     parseAck (f4_ack raw) = None \<and> (case parseNote (f4_note raw) of None \<Rightarrow> False | Some nt \<Rightarrow> swap_log E A i (n4_Result nt))
   | _ \<Rightarrow> False)"

text \<open>An event that does not end or interrupt a stream whose subscription is acknowledged.\<close>

definition undisturbed :: "v4_event \<Rightarrow> bool" where
  "undisturbed e \<longleftrightarrow> (case e of XFrame now raw slept written \<Rightarrow> \<not> refuses e | XAckTimeout slept written \<Rightarrow> True | _ \<Rightarrow> False)"

subsection \<open>Pools are changed by metrics only\<close>

lemma same_pools [simp]:
  "k4_pools (v4_registerToken P t c) = k4_pools c" "k4_cfg (v4_registerToken P t c) = k4_cfg c"
  "k4_pools (emitSpot E b q v ts c) = k4_pools c" "k4_cfg (emitSpot E b q v ts c) = k4_cfg c"
  "k4_pools (v4_emitUSD E P pt ts c) = k4_pools c" "k4_cfg (v4_emitUSD E P pt ts c) = k4_cfg c"
  by (simp_all add: v4_registerToken_def emitSpot_def v4_emitUSD_def v4_send_def Let_def split: prod.split)

lemma same_pools_pricing [simp]:
  "k4_pools (v4_updatePricing E P m p1 p0 w ts c) = k4_pools c" "k4_cfg (v4_updatePricing E P m p1 p0 w ts c) = k4_cfg c"
  by (cases "case p1 of Inr v \<Rightarrow> v > 0 | Inl _ \<Rightarrow> False"; cases "case p0 of Inr v \<Rightarrow> v > 0 | Inl _ \<Rightarrow> False";
      simp add: v4_updatePricing_def Let_def)+

text \<open>What a step means in once mode: keys stay, pools seen stay seen, and the step that sees the last pool says so.\<close>

definition once_step :: "'p V4Connector \<Rightarrow> v4_error option \<Rightarrow> 'p V4Connector \<Rightarrow> bool" where
  "once_step c err c' \<longleftrightarrow> k4_cfg c' = k4_cfg c \<and> map fst (k4_pools c') = map fst (k4_pools c) \<and> emitted c \<subseteq> emitted c' \<and>
     err \<in> {None, Some OnceComplete} \<and> (emitted c \<noteq> pool_keys c \<and> emitted c' = pool_keys c' \<longrightarrow> err = Some OnceComplete)"

lemma once_step_same: "k4_cfg c' = k4_cfg c \<Longrightarrow> k4_pools c' = k4_pools c \<Longrightarrow> once_step c None c'"
  by (simp add: once_step_def emitted_def pool_keys_def)

lemma once_step_store:
  assumes "c4_Once (k4_cfg c)" and "distinct (map fst (k4_pools c))" and "map_of (k4_pools c) i = Some st"
    and "k4_pools c1 = k4_pools c" and "k4_cfg c1 = k4_cfg c" and "storeSwapMetrics i m now c1 = (Some status, c2)"
    and "k4_pools c3 = k4_pools c2" and "k4_cfg c3 = k4_cfg c2"
  shows "once_step c (if os_marked status \<and> os_completed status then Some OnceComplete else None) c3 \<and> i \<in> emitted c3"
proof -
  have "map_of (k4_pools c1) i = Some st" using assms(3,4) by simp
  then obtain st' where st': "s4_onceEmitted st'" and s: "storeSwapMetrics i m now c1 =
     (let ps = mput i st' (k4_pools c1); marked = \<not> s4_onceEmitted st;
            remaining = (if marked then length (filter (\<lambda>(_, other). \<not> s4_onceEmitted other) ps) else 0)
        in (Some \<lparr>os_marked = marked, os_remaining = remaining, os_completed = (marked \<and> remaining = 0)\<rparr>, c1\<lparr>k4_pools := ps\<rparr>))"
    using assms(1,5) by (elim storeSwapMetrics_Some [where m = m and ts = now]) auto
  define ps where "ps = mput i st' (k4_pools c)"
  have c3: "k4_pools c3 = ps" "k4_cfg c3 = k4_cfg c"
    and fin: "os_marked status \<and> os_completed status \<longleftrightarrow> \<not> s4_onceEmitted st \<and> (\<forall>(_, other) \<in> set ps. s4_onceEmitted other)"
    using assms(4-8) s by (auto simp: Let_def ps_def filter_empty_conv)
  have "i \<in> set (map fst (k4_pools c))" using map_of_SomeD [OF assms(3)] by force
  then have keys: "map fst ps = map fst (k4_pools c)" by (simp add: ps_def mput_def update_keys)
  then have "distinct (map fst ps)" using assms(2) by simp
  then have m: "(j, s) \<in> set ps \<longleftrightarrow> map_of ps j = Some s" for j s by simp
  have all: "(\<forall>(_, other) \<in> set ps. s4_onceEmitted other) \<longleftrightarrow> emitted c3 = pool_keys c3"
  proof
    assume "\<forall>(_, other) \<in> set ps. s4_onceEmitted other"
    then have "s4_onceEmitted s" if "map_of ps j = Some s" for j s using that m by blast
    then show "emitted c3 = pool_keys c3" by (auto simp: emitted_def pool_keys_def c3)
  next
    assume e: "emitted c3 = pool_keys c3"
    have "s4_onceEmitted s" if "map_of ps j = Some s" for j s
    proof -
      have "j \<in> emitted c3" unfolding e using that by (auto simp: pool_keys_def c3)
      with that show ?thesis by (simp add: emitted_def c3)
    qed
    then show "\<forall>(_, other) \<in> set ps. s4_onceEmitted other" using m by blast
  qed
  have em: "emitted c3 = insert i (emitted c)" using st' by (auto simp: emitted_def c3 ps_def split: if_splits)
  have dm: "pool_keys c3 = pool_keys c" using keys by (simp add: pool_keys_def c3 dom_map_of_conv_image_fst) (metis list.set_map)
  have "emitted c \<noteq> pool_keys c \<and> emitted c3 = pool_keys c3 \<Longrightarrow> \<not> s4_onceEmitted st"
    using em dm assms(3) by (auto simp: emitted_def insert_absorb)
  then show ?thesis using em dm c3(2) keys all fin by (auto simp: once_step_def c3(1))
qed

subsection \<open>Frames and streams in once mode\<close>

lemma once_step_swap:
  assumes "c4_Once (k4_cfg c)" and "distinct (map fst (k4_pools c))"
  shows "once_step c (fst (handleSwapEvent E P A now l c)) (snd (handleSwapEvent E P A now l c))"
proof (rule handleSwapEvent_cases [of E P A now l c])
  fix n assume "handleSwapEvent E P A now l c = (None, c\<lparr>k4_unknownPoolEvents := n\<rparr>)"
  then show ?thesis by (simp add: once_step_same)
next
  fix i st price1 price0 vals c1 status c2 c3
  assume st: "map_of (k4_pools c) i = Some st"
    and c1: "c1 = count_error (ratToFloat64 (Some price0)) (count_error (ratToFloat64 (Some price1)) c)"
    and s: "storeSwapMetrics i (swap_numbers A (s4_meta st) vals price1 price0) now c1 = (Some status, c2)"
    and c3: "c3 = v4_updatePricing E P (s4_meta st) (ratToFloat64 (Some price1)) (ratToFloat64 (Some price0))
            (m4_weight (swap_numbers A (s4_meta st) vals price1 price0)) now
            (if s4_registered st then c2
             else v4_registerToken P (p4_Token1 (s4_meta st)) (v4_registerToken P (p4_Token0 (s4_meta st)) c2))"
    and r: "handleSwapEvent E P A now l c =
         (if c4_Once (k4_cfg c3) \<and> os_marked status \<and> os_completed status then Some OnceComplete else None, c3)"
  have p: "k4_pools c1 = k4_pools c" "k4_cfg c1 = k4_cfg c" "k4_pools c3 = k4_pools c2" "k4_cfg c3 = k4_cfg c2"
    by (simp_all add: c1 c3)
  note os = once_step_store [OF assms st p(1,2) s p(3,4), THEN conjunct1]
  then have "c4_Once (k4_cfg c3)" using assms(1) by (simp add: once_step_def)
  with os show ?thesis by (simp add: r)
qed

lemma swap_log_seen:
  assumes "c4_Once (k4_cfg c)" and "distinct (map fst (k4_pools c))" and "swap_log E A i l" and "i \<in> pool_keys c"
  shows "i \<in> emitted (snd (handleSwapEvent E P A now l c))"
proof -
  define d where "d = trim_space (l4_Data l)"
  obtain st where st: "map_of (k4_pools c) i = Some st" using assms(4) by (auto simp: pool_keys_def)
  obtain payload vals sqp where f: "\<not> length (l4_Topics l) < 2" "eth_HexToHash E (l4_Topics l ! 1) = i" "d \<noteq> []" "\<not> equal_fold d ''0x''"
    "ab_decode A d = Some payload" "ab_unpack A payload = Some vals" "bigIntField A vals ''sqrtPriceX96'' = Some sqp" "0 < sqp"
    using assms(3) by (auto simp: swap_log_def d_def simp del: One_nat_def split: option.splits)
  from prices_of_sqrt [OF f(8)] obtain price1 price0
    where p: "sqrtPriceToDirectionalPrices (s4_meta st) (Some sqp) = (Some price1, Some price0)" .
  define c1 where "c1 = count_error (ratToFloat64 (Some price0)) (count_error (ratToFloat64 (Some price1)) c)"
  define m where "m = swap_numbers A (s4_meta st) vals price1 price0"
  have c1: "k4_pools c1 = k4_pools c" "k4_cfg c1 = k4_cfg c" by (simp_all add: c1_def)
  with st have "map_of (k4_pools c1) i = Some st" by simp
  from storeSwapMetrics_Some [OF this, of m now] obtain status c2 where s: "storeSwapMetrics i m now c1 = (Some status, c2)"
    unfolding Let_def by blast
  obtain err c3 where r: "handleSwapEvent E P A now l c = (err, c3)" and c3: "k4_pools c3 = k4_pools c2" "k4_cfg c3 = k4_cfg c2"
    using st f p s
    by (simp add: handleSwapEvent_def d_def [symmetric] c1_def [symmetric] m_def [symmetric] Let_def del: One_nat_def)
  from once_step_store [OF assms(1,2) st c1 s c3] show ?thesis by (simp add: r)
qed

lemma once_step_frame:
  assumes "c4_Once (k4_cfg c)" and "distinct (map fst (k4_pools c))" and "handleFrame E P A now raw c = ((st, err), c')"
  shows "once_step c err c'" and "swap_frame E A i (XFrame now raw slept written) \<Longrightarrow> i \<in> pool_keys c \<Longrightarrow> i \<in> emitted c'"
proof -
  have log: "once_step c (fst (handleLog E P A now l c)) (snd (handleLog E P A now l c))" for l
    using once_step_swap [OF assms(1,2)] by (auto simp: handleLog_def once_step_same split: list.split option.split)
  show "once_step c err c'"
  proof (cases "parseAck (f4_ack raw)")
    case None
    show ?thesis
    proof (cases "parseNote (f4_note raw)")
      case (Some nt)
      with None assms(3) log [of "n4_Result nt"] show ?thesis by (auto simp: handleFrame_def split: prod.splits)
    qed (use None assms(3) in \<open>auto simp: handleFrame_def intro: once_step_same\<close>)
  qed (use assms(3) in \<open>auto simp: handleFrame_def intro: once_step_same\<close>)
  assume sw: "swap_frame E A i (XFrame now raw slept written)" and i: "i \<in> pool_keys c"
  then obtain nt where nt: "parseAck (f4_ack raw) = None" "parseNote (f4_note raw) = Some nt" "swap_log E A i (n4_Result nt)"
    by (auto simp: swap_frame_def split: option.splits)
  then have "handleLog E P A now (n4_Result nt) c = handleSwapEvent E P A now (n4_Result nt) c"
    by (cases "l4_Topics (n4_Result nt)") (auto simp: handleLog_def swap_log_def)
  with swap_log_seen [OF assms(1,2) nt(3) i, of P now] nt assms(3) show "i \<in> emitted c'"
    by (auto simp: handleFrame_def split: prod.splits)
qed

lemma once_stream:
  assumes "list_all undisturbed es" and "c4_Once (k4_cfg c)" and "distinct (map fst (k4_pools c))"
    and "emitted c \<noteq> pool_keys c" and "\<forall>i \<in> pool_keys c - emitted c. \<exists>e \<in> set es. swap_frame E A i e"
  shows "\<exists>c'. runStream E P A es False f c = ([], Closed (Some OnceComplete), c')"
  using assms
proof (induction es arbitrary: f c)
  case Nil
  moreover have "emitted c \<subseteq> pool_keys c" by (auto simp: emitted_def pool_keys_def)
  ultimately show ?case by auto
next
  case (Cons x es)
  show ?case
  proof (cases x)
    case (XAckTimeout slept written)
    then have "\<forall>i \<in> pool_keys c - emitted c. \<exists>e \<in> set es. swap_frame E A i e"
      using Cons.prems(5) by (auto simp: swap_frame_def)
    with Cons XAckTimeout show ?thesis by simp
  next
    case (XFrame now raw slept written)
    obtain st err d where h: "handleFrame E P A now raw c = ((st, err), d)" by (metis surj_pair)
    note step = once_step_frame [OF Cons.prems(2,3) h]
    have st: "st \<noteq> AckRefused" using handleFrame_ack(2) [OF h, of slept written] Cons.prems(1) by (simp add: XFrame undisturbed_def)
    have d: "k4_cfg d = k4_cfg c" "map fst (k4_pools d) = map fst (k4_pools c)" "emitted c \<subseteq> emitted d"
      using step(1) by (simp_all add: once_step_def)
    have keys: "pool_keys d = pool_keys c"
      using d(2) by (simp add: pool_keys_def dom_map_of_conv_image_fst) (metis list.set_map)
    have rest: "\<forall>i \<in> pool_keys d - emitted d. \<exists>e \<in> set es. swap_frame E A i e"
    proof
      fix i assume i: "i \<in> pool_keys d - emitted d"
      then obtain e where "e \<in> set (x # es)" "swap_frame E A i e" using Cons.prems(5) d(3) keys by blast
      with i step(2) [of i slept written] show "\<exists>e \<in> set es. swap_frame E A i e" by (auto simp: keys XFrame)
    qed
    show ?thesis
    proof (cases err)
      case None
      then have "emitted d \<noteq> pool_keys d" using step(1) Cons.prems(4) by (auto simp: once_step_def)
      with Cons.IH [OF _ _ _ _ rest] Cons.prems(1-3) d
      have "\<exists>c'. runStream E P A es False f' d = ([], Closed (Some OnceComplete), c')" for f' by simp
      with st None show ?thesis by (cases st) (auto simp: XFrame h)
    next
      case (Some er)
      with step(1) have "er = OnceComplete" by (simp add: once_step_def)
      with Some st show ?thesis by (cases st) (simp_all add: XFrame h)
    qed
  qed (use Cons.prems(1) in \<open>simp_all add: undisturbed_def\<close>)
qed

text \<open>C12. Once mode comes to an end: a connector in once mode whose pools have not all been seen returns without an
  error from the first round that connects, is acknowledged and then delivers, among whatever other frames, a
  usable Swap log of every pool not yet seen. It does not reconnect and does not pause.\<close>

theorem V4_once_returns:
  assumes "c4_Once (k4_cfg c)" and "distinct (map fst (k4_pools c))" and "emitted c \<noteq> pool_keys c"
    and "r4_dial r" and "r4_written r" and "\<not> r4_cancelled r" and "\<not> r4_stopped r"
    and "r4_events r = ack # es" and "acknowledges ack" and "list_all undisturbed es"
    and "\<forall>i \<in> pool_keys c - emitted c. \<exists>e \<in> set es. swap_frame E A i e"
  shows "\<exists>c'. v4_rounds E P A (r # rs) backoff c = ([Request (v4_subscribe E A c)], Returned None, c')"
proof -
  obtain now raw slept written where ack: "ack = XFrame now raw slept written"
    using assms(9) by (cases ack) (simp_all add: acknowledges_def)
  then have "handleFrame E P A now raw c = ((AckSuccess, None), c)"
    using assms(9) by (auto simp: handleFrame_def acknowledges_def split: option.splits)
  then have "runStream E P A (r4_events r) True 0 c = runStream E P A es False 0 c" by (simp add: assms(8) ack)
  with once_stream [OF assms(10,1,2,3,11), of P 0] obtain c' where
    "runStream E P A (r4_events r) True 0 c = ([], Closed (Some OnceComplete), c')" by auto
  with assms(4-7) show ?thesis by (simp add: Let_def)
qed

text \<open>A manager whose Swap logs decode to a square root price of \<open>2\<^sup>9\<^sup>6\<close>, and a round with one Swap of the pool 11.\<close>

definition swap_abi :: v4_abi where
  "swap_abi = \<lparr>ab_swapID = Some 77, ab_event = (\<lambda>_. Some ''Swap''), ab_decode = (\<lambda>_. Some []),
     ab_unpack = (\<lambda>_. Some (\<lambda>f. if f = ''sqrtPriceX96'' then Some (VBig (2 ^ 96)) else None)), ab_decodeBig = (\<lambda>_. None)\<rparr>"

definition demo_swap :: v4_event where
  "demo_swap = XFrame 0 \<lparr>f4_ack = None, f4_note = Some \<lparr>n4_Method = ''eth_subscription'',
     n4_Result = \<lparr>l4_Data = ''0x01'', l4_Topics = [''0x07'', ''0x0b''], l4_Removed = False\<rparr>\<rparr>\<rparr> True True"

definition demo_once :: "GraphPricer V4Connector" where
  "demo_once = demo_v4\<lparr>k4_cfg := demo_cfg4\<lparr>c4_Once := True\<rparr>, k4_pools := [(11, fresh_state demo_pool4)]\<rparr>"

theorem V4_once_returns_witness:
  "\<exists>c'. v4_rounds plain_eth demo_pricer swap_abi [demo_round4\<lparr>r4_events := [approval, demo_swap]\<rparr>] backoff_start demo_once
     = ([Request (v4_subscribe plain_eth swap_abi demo_once)], Returned None, c')"
proof -
  have h: "hex_read 0 (trim_prefix ''0x0b'' ''0x'') = 11" "trim_space ''0x01'' = ''0x01''" "\<not> equal_fold ''0x01'' ''0x''"
    "equal_fold ''eth_subscription'' ''eth_subscription''" by code_simp+
  have sw: "swap_frame plain_eth swap_abi 11 demo_swap"
    by (simp add: swap_frame_def demo_swap_def parseAck_def parseNote_def swap_log_def swap_abi_def plain_eth_def h bigIntField_def)
  have k: "pool_keys demo_once = {11}" "emitted demo_once = {}"
    by (auto simp: pool_keys_def emitted_def demo_once_def fresh_state_def split: if_splits)
  have "\<exists>c'. v4_rounds plain_eth demo_pricer swap_abi [demo_round4\<lparr>r4_events := approval # [demo_swap]\<rparr>] backoff_start demo_once
     = ([Request (v4_subscribe plain_eth swap_abi demo_once)], Returned None, c')"
  proof (rule V4_once_returns [where ack = approval and es = "[demo_swap]"])
    show "acknowledges approval" by (simp add: acknowledges_def approval_def parseAck_def)
    show "list_all undisturbed [demo_swap]" by (simp add: undisturbed_def demo_swap_def refuses_def parseAck_def)
  qed (use sw in \<open>simp_all add: k demo_round4_def\<close>, simp_all add: demo_once_def)
  then show ?thesis by simp
qed

end
