(* ===== verification/Token_Validator.thy ===== *)
theory Token_Validator
  imports Assets Util
begin

text \<open>
  \<open>test_scripts/assets/validate_tokens.go\<close>: the maintenance tool that checks the token registry and keeps the two
  lists of stable symbols in the Go sources, \<open>stableSkipSet\<close> and \<open>stablecoins\<close>, in step with it. A Go file is what
  the tool sees of its syntax tree: the variable specifications and the assignments in the order of the
  traversal. Reading and parsing a file are one parameter, formatting and writing it another. Warnings and
  progress messages are left out.
\<close>

subsection \<open>Go sources\<close>

text \<open>A composite literal says whether its type is an array type.\<close>

datatype go_expr = GoString string | GoKeyValue go_expr go_expr | GoComposite bool "go_expr list" | GoOther

record go_assign =
  ga_define :: bool
  ga_lhs :: "string option list"
  ga_rhs :: "go_expr list"

record go_file =
  gf_vars :: "(string list \<times> go_expr list) list"
  gf_assigns :: "go_assign list"

type_synonym go_files = "string \<Rightarrow> go_file option"

text \<open>\<open>strings.Trim(s, "\"")\<close> and \<open>strconv.Quote\<close>.\<close>

definition quotes :: char where "quotes = CHR 0x22"
definition backslash :: char where "backslash = CHR 0x5C"

definition trim_quotes :: "string \<Rightarrow> string" where
  "trim_quotes s = rev (dropWhile (\<lambda>c. c = quotes) (rev (dropWhile (\<lambda>c. c = quotes) s)))"

definition quote_char :: "char \<Rightarrow> string" where
  "quote_char c =
     (if c = quotes \<or> c = backslash then [backslash, c]
      else if c = CHR 0x07 then [backslash, CHR ''a''] else if c = CHR 0x08 then [backslash, CHR ''b'']
      else if c = CHR 0x0C then [backslash, CHR ''f''] else if c = CHR 0x0A then [backslash, CHR ''n'']
      else if c = CHR 0x0D then [backslash, CHR ''r''] else if c = CHR 0x09 then [backslash, CHR ''t'']
      else if c = CHR 0x0B then [backslash, CHR ''v'']
      else if (of_char c :: nat) < 32 \<or> c = CHR 0x7F then [backslash, CHR ''x''] @ hex_digits 2 (of_char c)
      else [c])"

definition go_quote :: "string \<Rightarrow> string" where
  "go_quote s = [quotes] @ concat (map quote_char s) @ [quotes]"

subsection \<open>The registry\<close>

record rawToken =
  rt_Symbol :: string
  rt_Address :: string
  rt_Decimals :: int

record rawNetwork =
  rn_ChainID :: "64 word"
  rn_Stable :: "rawToken list"
  rn_Native :: "rawToken list"

datatype tool_error =
    RegistryFailed assets_error | RawUnreadable | RawUndecodable | RegistryEmpty | RawChainID string | RawEmptySymbol string
  | RawInvalidAddress string string | RawInvalidDecimals string string int | NoStables | PathFailed
  | ParseFailed string | UnexpectedInitializer string | NotComposite string | SkipSetNotFound string | SliceNotFound string
  | WriteFailed string | DryRunUpdates "string list" "string list"

fun check_tokens :: "eth_lib \<Rightarrow> string \<Rightarrow> rawToken list \<Rightarrow> (tool_error, unit) result" where
  "check_tokens E name [] = Inr ()"
| "check_tokens E name (t # ts) =
     (if trim_space (rt_Symbol t) = [] then Inl (RawEmptySymbol name)
      else if \<not> eth_IsHexAddress E (trim_space (rt_Address t)) then Inl (RawInvalidAddress name (rt_Symbol t))
      else if rt_Decimals t \<le> 0 \<or> rt_Decimals t > 255 then Inl (RawInvalidDecimals name (rt_Symbol t) (rt_Decimals t))
      else check_tokens E name ts)"

fun check_networks :: "eth_lib \<Rightarrow> (string \<times> rawNetwork) list \<Rightarrow> (tool_error, unit) result" where
  "check_networks E [] = Inr ()"
| "check_networks E ((name, network) # rest) =
     (if rn_ChainID network = 0 then Inl (RawChainID name)
      else bind_res (check_tokens E name (rn_Stable network @ rn_Native network)) (\<lambda>_. check_networks E rest))"

definition validateRawRegistry :: "eth_lib \<Rightarrow> (string \<times> rawNetwork) list \<Rightarrow> (tool_error, unit) result" where
  "validateRawRegistry E raw = (if raw = [] then Inl RegistryEmpty else check_networks E raw)"

definition loadRawRegistry ::
    "(string \<Rightarrow> string option) \<Rightarrow> (string \<Rightarrow> (string \<times> rawNetwork) list option) \<Rightarrow> string
     \<Rightarrow> (tool_error, (string \<times> rawNetwork) list) result" where
  "loadRawRegistry read_file decode_raw path =
     (case read_file path of None \<Rightarrow> Inl RawUnreadable
      | Some data \<Rightarrow> (case decode_raw data of None \<Rightarrow> Inl RawUndecodable | Some raw \<Rightarrow> Inr raw))"

definition uniqueSortedSymbols :: "string list \<Rightarrow> string list" where
  "uniqueSortedSymbols symbols = sort (remdups symbols)"

text \<open>The first part of \<open>execute\<close>: the stable symbols of the registry.\<close>

definition registry_stables ::
    "eth_lib \<Rightarrow> (string \<Rightarrow> string option) \<Rightarrow> (string \<Rightarrow> (string \<times> fileNetwork) list option)
     \<Rightarrow> (string \<Rightarrow> (string \<times> rawNetwork) list option) \<Rightarrow> string \<Rightarrow> (tool_error, string list) result" where
  "registry_stables E read_file decode decode_raw path =
     (case LoadRegistryFromFile E read_file decode path of Inl e \<Rightarrow> Inl (RegistryFailed e)
      | Inr catalogs \<Rightarrow>
          bind_res (loadRawRegistry read_file decode_raw path) (\<lambda>raw.
          bind_res (validateRawRegistry E raw) (\<lambda>_.
            let stableList = uniqueSortedSymbols (concat (map (\<lambda>(_, c). map CanonicalSymbol (nc_Stable c)) catalogs)) in
            if stableList = [] then Inl NoStables else Inr stableList)))"

subsection \<open>The two lists\<close>

definition string_key :: "go_expr \<Rightarrow> string option" where
  "string_key e = (case e of GoString v \<Rightarrow> (let key = trim_quotes v in if key = [] then None else Some key) | _ \<Rightarrow> None)"

definition skip_keys :: "go_expr list \<Rightarrow> string list" where
  "skip_keys elts = List.map_filter (\<lambda>e. case e of GoKeyValue k v \<Rightarrow> string_key k | _ \<Rightarrow> None) elts"

definition slice_keys :: "go_expr list \<Rightarrow> string list" where
  "slice_keys elts = List.map_filter string_key elts"

definition makeStringLit :: "string \<Rightarrow> go_expr" where
  "makeStringLit s = GoString (go_quote s)"

definition makeMapEntry :: "string \<Rightarrow> go_expr" where
  "makeMapEntry s = GoKeyValue (GoString (go_quote s)) (GoComposite False [])"

definition missing_symbols :: "string list \<Rightarrow> string list \<Rightarrow> string list" where
  "missing_symbols stables currentOrder = sort (filter (\<lambda>s. s \<notin> set currentOrder) stables)"

definition union_keys :: "string list \<Rightarrow> string list \<Rightarrow> string list" where
  "union_keys currentOrder missing = sort (remdups (currentOrder @ missing))"

text \<open>The last specification of \<open>stableSkipSet\<close>, with its position.\<close>

fun find_skip ::
    "string \<Rightarrow> nat \<Rightarrow> (string list \<times> go_expr list) list \<Rightarrow> (nat \<times> bool \<times> go_expr list) option
     \<Rightarrow> (tool_error, (nat \<times> bool \<times> go_expr list) option) result" where
  "find_skip path i [] lit = Inr lit"
| "find_skip path i ((names, vals) # specs) lit =
     (if names \<noteq> [''stableSkipSet''] then find_skip path (Suc i) specs lit
      else if length vals \<noteq> 1 then Inl (UnexpectedInitializer path)
      else case hd vals of GoComposite arr elts \<Rightarrow> find_skip path (Suc i) specs (Some (i, arr, elts))
         | _ \<Rightarrow> Inl (NotComposite path))"

definition ensureStableSkipSet ::
    "(string \<Rightarrow> bool) \<Rightarrow> bool \<Rightarrow> string \<Rightarrow> string list \<Rightarrow> go_files \<Rightarrow> (tool_error, string list \<times> bool) result \<times> go_files" where
  "ensureStableSkipSet saves dryRun path stables fs =
     (case fs path of None \<Rightarrow> (Inl (ParseFailed path), fs)
      | Some file \<Rightarrow> (case find_skip path 0 (gf_vars file) None of Inl e \<Rightarrow> (Inl e, fs)
         | Inr None \<Rightarrow> (Inl (SkipSetNotFound path), fs)
         | Inr (Some (i, arr, elts)) \<Rightarrow>
             (let currentOrder = skip_keys elts; missing = missing_symbols stables currentOrder;
                  keys = union_keys currentOrder missing
              in if missing = [] \<and> currentOrder = keys then (Inr ([], False), fs)
                 else if dryRun then (Inr (missing, True), fs)
                 else if \<not> saves path then (Inl (WriteFailed path), fs)
                 else (Inr (missing, True), fs(path \<mapsto> file\<lparr>gf_vars := (gf_vars file)[i :=
                   ([''stableSkipSet''], [GoComposite arr (map makeMapEntry keys)])]\<rparr>)))))"

text \<open>The last assignment that defines \<open>stablecoins\<close> as an array literal.\<close>

fun find_slice :: "nat \<Rightarrow> go_assign list \<Rightarrow> (nat \<times> go_expr list) option \<Rightarrow> (nat \<times> go_expr list) option" where
  "find_slice i [] target = target"
| "find_slice i (a # assigns) target =
     find_slice (Suc i) assigns
       (if ga_define a \<and> ga_lhs a = [Some ''stablecoins''] \<and> length (ga_rhs a) = 1
        then (case hd (ga_rhs a) of GoComposite True elts \<Rightarrow> Some (i, elts) | _ \<Rightarrow> target) else target)"

definition ensureStableSlice ::
    "(string \<Rightarrow> bool) \<Rightarrow> bool \<Rightarrow> string \<Rightarrow> string list \<Rightarrow> go_files \<Rightarrow> (tool_error, string list \<times> bool) result \<times> go_files" where
  "ensureStableSlice saves dryRun path stables fs =
     (case fs path of None \<Rightarrow> (Inl (ParseFailed path), fs)
      | Some file \<Rightarrow> (case find_slice 0 (gf_assigns file) None of None \<Rightarrow> (Inl (SliceNotFound path), fs)
         | Some (i, elts) \<Rightarrow>
             (let currentOrder = slice_keys elts; missing = missing_symbols stables currentOrder;
                  keys = union_keys currentOrder missing
              in if missing = [] \<and> currentOrder = keys then (Inr ([], False), fs)
                 else if dryRun then (Inr (missing, True), fs)
                 else if \<not> saves path then (Inl (WriteFailed path), fs)
                 else (Inr (missing, True), fs(path \<mapsto> file\<lparr>gf_assigns := (gf_assigns file)[i :=
                   (gf_assigns file ! i)\<lparr>ga_rhs := [GoComposite True (map makeStringLit keys)]\<rparr>]\<rparr>)))))"

definition execute ::
    "eth_lib \<Rightarrow> (string \<Rightarrow> string option) \<Rightarrow> (string \<Rightarrow> string option) \<Rightarrow> (string \<Rightarrow> (string \<times> fileNetwork) list option)
     \<Rightarrow> (string \<Rightarrow> (string \<times> rawNetwork) list option) \<Rightarrow> (string \<Rightarrow> bool) \<Rightarrow> bool \<Rightarrow> string \<Rightarrow> string \<Rightarrow> string \<Rightarrow> go_files
     \<Rightarrow> (tool_error, unit) result \<times> go_files" where
  "execute E abs_path read_file decode decode_raw saves dryRun tokensPath symbolLoaderPath symbolsFilePath fs =
     (case abs_path tokensPath of None \<Rightarrow> (Inl PathFailed, fs)
      | Some absTokens \<Rightarrow> (case registry_stables E read_file decode decode_raw absTokens of Inl e \<Rightarrow> (Inl e, fs)
      | Inr stableList \<Rightarrow> (case abs_path symbolLoaderPath of None \<Rightarrow> (Inl PathFailed, fs)
      | Some absSymbolLoader \<Rightarrow> (case abs_path symbolsFilePath of None \<Rightarrow> (Inl PathFailed, fs)
      | Some absSymbolsFile \<Rightarrow> (case ensureStableSkipSet saves dryRun absSymbolLoader stableList fs of
          (Inl e, fs) \<Rightarrow> (Inl e, fs)
        | (Inr (missingSkip, rewroteSkip), fs) \<Rightarrow>
            (case ensureStableSlice saves dryRun absSymbolsFile stableList fs of
               (Inl e, fs) \<Rightarrow> (Inl e, fs)
             | (Inr (missingSlice, rewroteSlice), fs) \<Rightarrow>
                 (if dryRun \<and> (rewroteSkip \<or> rewroteSlice) then Inl (DryRunUpdates missingSkip missingSlice) else Inr (), fs)))))))"

subsection \<open>Lemmas: quoting and keys\<close>

text \<open>Symbols without characters that need an escape.\<close>

definition plain_key :: "string \<Rightarrow> bool" where
  "plain_key s \<longleftrightarrow> s \<noteq> [] \<and> list_all (\<lambda>c. quote_char c = [c] \<and> c \<noteq> quotes) s"

lemma concat_plain: "list_all (\<lambda>c. quote_char c = [c] \<and> c \<noteq> quotes) s \<Longrightarrow> concat (map quote_char s) = s"
  by (induction s) auto

lemma trim_quotes_plain: "list_all (\<lambda>c. c \<noteq> quotes) s \<Longrightarrow> trim_quotes ([quotes] @ s @ [quotes]) = s"
proof -
  assume s: "list_all (\<lambda>c. c \<noteq> quotes) s"
  have d: "dropWhile (\<lambda>c. c = quotes) t = t" if "list_all (\<lambda>c. c \<noteq> quotes) t" for t using that by (cases t) auto
  have r: "list_all (\<lambda>c. c \<noteq> quotes) (rev s)" using s by (simp add: list_all_iff)
  have "dropWhile (\<lambda>c. c = quotes) ([quotes] @ s @ [quotes]) = (if s = [] then [] else s @ [quotes])" using s by (cases s) auto
  then show ?thesis using d [OF r] by (simp add: trim_quotes_def)
qed

lemma key_roundtrip: "plain_key s \<Longrightarrow> string_key (makeStringLit s) = Some s"
proof -
  assume s: "plain_key s"
  then have "list_all (\<lambda>c. c \<noteq> quotes) s" by (auto simp: plain_key_def list_all_iff)
  from trim_quotes_plain [OF this] concat_plain s show ?thesis
    by (simp add: string_key_def makeStringLit_def go_quote_def plain_key_def)
qed

lemma keys_roundtrip:
  assumes "list_all plain_key ks"
  shows "slice_keys (map makeStringLit ks) = ks" and "skip_keys (map makeMapEntry ks) = ks"
  using assms
  by (induction ks)
    (simp_all add: slice_keys_def skip_keys_def map_filter_simps makeMapEntry_def key_roundtrip [unfolded makeStringLit_def]
      key_roundtrip)

text \<open>A list is in step with a set of symbols when the tool has nothing to do.\<close>

lemma union_keys_value:
  "union_keys current (missing_symbols stables current) = sorted_list_of_set (set current \<union> set stables)"
proof -
  have "set (current @ missing_symbols stables current) = set current \<union> set stables" by (auto simp: missing_symbols_def)
  then show ?thesis by (simp add: union_keys_def sorted_list_of_set_sort_remdups [symmetric] del: set_append)
qed

lemma in_step_iff:
  "missing_symbols stables current = [] \<and> current = union_keys current (missing_symbols stables current) \<longleftrightarrow>
     current = sorted_list_of_set (set current \<union> set stables)"
proof -
  have "current = sorted_list_of_set (set current \<union> set stables) \<Longrightarrow> set stables \<subseteq> set current"
    by (metis List.finite_set finite_UnI set_sorted_list_of_set sup.cobounded2)
  moreover have "missing_symbols stables current = [] \<longleftrightarrow> set stables \<subseteq> set current"
    unfolding missing_symbols_def by (subst set_empty [symmetric]) auto
  ultimately show ?thesis unfolding union_keys_value by blast
qed

subsection \<open>Lemmas: literals after an update\<close>

lemma find_skip_range:
  "find_skip p i specs lit = Inr r \<Longrightarrow>
     (r = lit \<and> (\<forall>l. find_skip p i specs l = Inr l)) \<or> (\<exists>j arr elts. r = Some (j, arr, elts) \<and> i \<le> j \<and> j < i + length specs)"
proof (induction p i specs lit rule: find_skip.induct)
  case (2 p i names vals specs lit)
  show ?case
  proof (cases "names = [''stableSkipSet'']")
    case True
    with 2(3) obtain arr elts where v: "length vals = 1" "hd vals = GoComposite arr elts"
      "find_skip p (Suc i) specs (Some (i, arr, elts)) = Inr r"
      by (auto split: if_splits go_expr.splits)
    from 2(2) [OF _ _ v(2,3)] True v(1) show ?thesis by force
  next
    case False
    with 2(3) have "find_skip p (Suc i) specs lit = Inr r" by simp
    with 2(1) False show ?thesis by force
  qed
qed simp

lemma find_skip_update:
  assumes "find_skip p i specs lit = Inr (Some (j, arr, elts))" and "lit = None \<or> (\<exists>k x. lit = Some (k, x) \<and> k < i)" and "i \<le> j"
  shows "find_skip p i (specs[j - i := ([''stableSkipSet''], [GoComposite arr es])]) l = Inr (Some (j, arr, es))"
  using assms
proof (induction p i specs lit arbitrary: l rule: find_skip.induct)
  case (2 p i names vals specs lit)
  show ?case
  proof (cases "names = [''stableSkipSet'']")
    case True
    with 2(3) obtain arr' elts' where v: "length vals = 1" "hd vals = GoComposite arr' elts'"
      "find_skip p (Suc i) specs (Some (i, arr', elts')) = Inr (Some (j, arr, elts))"
      by (auto split: if_splits go_expr.splits)
    show ?thesis
    proof (cases "j = i")
      case True
      from find_skip_range [OF v(3)] True have "arr' = arr" "\<forall>l. find_skip p (Suc i) specs l = Inr l" by auto
      with True show ?thesis by simp
    next
      case False
      with 2(5) have "j - i = Suc (j - Suc i)" by simp
      with 2(2) [OF _ _ v(2,3)] False 2(5) True v(1,2) show ?thesis by simp
    qed
  next
    case False
    with 2(3) have f: "find_skip p (Suc i) specs lit = Inr (Some (j, arr, elts))" by simp
    have "j \<noteq> i" using find_skip_range [OF f] 2(4) by auto
    with 2(5) have "j - i = Suc (j - Suc i)" by simp
    with 2(1) [OF False f] 2(4,5) \<open>j \<noteq> i\<close> False show ?thesis by force
  qed
qed auto

definition slice_lit :: "go_assign \<Rightarrow> go_expr list option" where
  "slice_lit a = (if ga_define a \<and> ga_lhs a = [Some ''stablecoins''] \<and> length (ga_rhs a) = 1
     then (case hd (ga_rhs a) of GoComposite True elts \<Rightarrow> Some elts | _ \<Rightarrow> None) else None)"

lemma find_slice_acc: "find_slice i assigns l = (case find_slice i assigns None of None \<Rightarrow> l | Some r \<Rightarrow> Some r)"
proof (induction assigns arbitrary: i l)
  case (Cons a assigns)
  let ?t = "\<lambda>t. if ga_define a \<and> ga_lhs a = [Some ''stablecoins''] \<and> length (ga_rhs a) = 1
        then (case hd (ga_rhs a) of GoComposite True elts \<Rightarrow> Some (i, elts) | _ \<Rightarrow> t) else t"
  have t: "?t t = (case ?t None of None \<Rightarrow> t | Some r \<Rightarrow> Some r)" for t by (auto split: go_expr.split bool.split)
  show ?case unfolding find_slice.simps Cons.IH [of "Suc i" "?t l"] Cons.IH [of "Suc i" "?t None"]
    by (subst t) (simp split: option.split)
qed simp

lemma find_slice_Cons:
  "find_slice i (a # assigns) None =
     (case find_slice (Suc i) assigns None of Some r \<Rightarrow> Some r | None \<Rightarrow> map_option (Pair i) (slice_lit a))"
  unfolding find_slice.simps by (subst find_slice_acc) (auto simp: slice_lit_def split: option.split go_expr.split bool.split)

declare find_slice.simps(2) [simp del]

lemma find_slice_update:
  assumes "find_slice i assigns None = Some (j, elts)"
  shows "i \<le> j \<and> j < i + length assigns \<and>
    find_slice i (assigns[j - i := (assigns ! (j - i))\<lparr>ga_rhs := [GoComposite True es]\<rparr>]) None = Some (j, es)"
  using assms
proof (induction assigns arbitrary: i)
  case (Cons a assigns)
  show ?case
  proof (cases "find_slice (Suc i) assigns None")
    case None
    with Cons.prems obtain "j = i" "slice_lit a = Some elts" by (auto simp: find_slice_Cons)
    moreover from this have "slice_lit (a\<lparr>ga_rhs := [GoComposite True es]\<rparr>) = Some es" by (simp add: slice_lit_def split: if_splits)
    ultimately show ?thesis using None by (simp add: find_slice_Cons)
  next
    case (Some r)
    with Cons.prems have "find_slice (Suc i) assigns None = Some (j, elts)" by (simp add: find_slice_Cons)
    note IH = Cons.IH [OF this]
    then have "j - i = Suc (j - Suc i)" by linarith
    with IH show ?thesis by (simp add: find_slice_Cons)
  qed
qed simp

text \<open>The two lists as a reader of the sources sees them.\<close>

definition skip_list :: "go_files \<Rightarrow> string \<Rightarrow> string list option" where
  "skip_list fs path = (case fs path of None \<Rightarrow> None
     | Some file \<Rightarrow> (case find_skip path 0 (gf_vars file) None of Inr (Some (i, arr, elts)) \<Rightarrow> Some (skip_keys elts) | _ \<Rightarrow> None))"

definition slice_list :: "go_files \<Rightarrow> string \<Rightarrow> string list option" where
  "slice_list fs path = (case fs path of None \<Rightarrow> None
     | Some file \<Rightarrow> map_option (slice_keys \<circ> snd) (find_slice 0 (gf_assigns file) None))"

text \<open>One step: the list gets the union with the stable symbols, sorted; everything else stays.\<close>

definition synced :: "string list \<Rightarrow> string list \<Rightarrow> string list" where
  "synced stables old = sorted_list_of_set (set old \<union> set stables)"

lemma synced_synced [simp]: "synced stables (synced stables old) = synced stables old"
  by (simp add: synced_def Un_assoc)

lemma set_synced [simp]: "set (synced stables old) = set old \<union> set stables"
  by (simp add: synced_def)

lemma ensureStableSkipSet_ok:
  assumes "ensureStableSkipSet saves dry path stables fs = (Inr (m, b), fs')" and "skip_list fs path = Some old"
    and "list_all plain_key (stables @ old)"
  shows "if dry then fs' = fs \<and> (b \<longleftrightarrow> old \<noteq> synced stables old)
    else skip_list fs' path = Some (synced stables old) \<and> (\<forall>p. p \<noteq> path \<longrightarrow> fs' p = fs p) \<and> (\<forall>p. slice_list fs' p = slice_list fs p)"
proof -
  obtain src where src: "fs path = Some src" using assms(2) by (auto simp: skip_list_def split: option.splits)
  then obtain i arr elts where f: "find_skip path 0 (gf_vars src) None = Inr (Some (i, arr, elts))" and old: "skip_keys elts = old"
    using assms(2) by (auto simp: skip_list_def split: sum.splits option.splits)
  note st = in_step_iff [of stables old, folded synced_def]
  have u: "union_keys old (missing_symbols stables old) = synced stables old" by (simp add: union_keys_value synced_def)
  have pk: "list_all plain_key (synced stables old)" using assms(3) by (auto simp: list_all_iff)
  show ?thesis
  proof (cases "old = synced stables old")
    case True
    with assms(1) st have "fs' = fs" "\<not> b"
      by (auto simp: ensureStableSkipSet_def src f old Let_def u)
    with True assms(2) show ?thesis by auto
  next
    case False
    with st u have n: "\<not> (missing_symbols stables old = [] \<and> old = synced stables old)" by auto
    show ?thesis
    proof (cases dry)
      case True
      with n assms(1) False show ?thesis by (auto simp: ensureStableSkipSet_def src f old Let_def u)
    next
      case nd: False
      with n assms(1) have fs': "fs' = fs(path \<mapsto> src\<lparr>gf_vars := (gf_vars src)[i :=
          ([''stableSkipSet''], [GoComposite arr (map makeMapEntry (synced stables old))])]\<rparr>)"
        by (auto simp: ensureStableSkipSet_def src f old Let_def u split: if_splits)
      from find_skip_update [OF f] have "skip_list fs' path = Some (synced stables old)"
        by (simp add: fs' skip_list_def keys_roundtrip [OF pk])
      then show ?thesis using nd src by (auto simp: fs' slice_list_def)
    qed
  qed
qed

lemma ensureStableSlice_ok:
  assumes "ensureStableSlice saves dry path stables fs = (Inr (m, b), fs')" and "slice_list fs path = Some old"
    and "list_all plain_key (stables @ old)"
  shows "if dry then fs' = fs \<and> (b \<longleftrightarrow> old \<noteq> synced stables old)
    else slice_list fs' path = Some (synced stables old) \<and> (\<forall>p. p \<noteq> path \<longrightarrow> fs' p = fs p) \<and> (\<forall>p. skip_list fs' p = skip_list fs p)"
proof -
  obtain src where src: "fs path = Some src" using assms(2) by (auto simp: slice_list_def split: option.splits)
  then obtain i elts where f: "find_slice 0 (gf_assigns src) None = Some (i, elts)" and old: "slice_keys elts = old"
    using assms(2) by (auto simp: slice_list_def)
  note st = in_step_iff [of stables old, folded synced_def]
  have u: "union_keys old (missing_symbols stables old) = synced stables old" by (simp add: union_keys_value synced_def)
  have pk: "list_all plain_key (synced stables old)" using assms(3) by (auto simp: list_all_iff)
  show ?thesis
  proof (cases "old = synced stables old")
    case True
    with assms(1) st have "fs' = fs" "\<not> b"
      by (auto simp: ensureStableSlice_def src f old Let_def u)
    with True assms(2) show ?thesis by auto
  next
    case False
    with st u have n: "\<not> (missing_symbols stables old = [] \<and> old = synced stables old)" by auto
    show ?thesis
    proof (cases dry)
      case True
      with n assms(1) False show ?thesis by (auto simp: ensureStableSlice_def src f old Let_def u)
    next
      case nd: False
      with n assms(1) have fs': "fs' = fs(path \<mapsto> src\<lparr>gf_assigns := (gf_assigns src)[i :=
          (gf_assigns src ! i)\<lparr>ga_rhs := [GoComposite True (map makeStringLit (synced stables old))]\<rparr>]\<rparr>)"
        by (auto simp: ensureStableSlice_def src f old Let_def u split: if_splits)
      from find_slice_update [OF f] have "slice_list fs' path = Some (synced stables old)"
        by (simp add: fs' slice_list_def keys_roundtrip [OF pk])
      then show ?thesis using nd src by (auto simp: fs' skip_list_def)
    qed
  qed
qed

text \<open>A list that is in step stays as it is, in both modes.\<close>

lemma ensure_idle:
  "skip_list fs path = Some (synced stables old) \<Longrightarrow> ensureStableSkipSet saves dry path stables fs = (Inr ([], False), fs)"
  "slice_list fs path = Some (synced stables old) \<Longrightarrow> ensureStableSlice saves dry path stables fs = (Inr ([], False), fs)"
proof -
  have st: "missing_symbols stables (synced stables old) = []"
    "union_keys (synced stables old) [] = synced stables old"
    using in_step_iff [of stables "synced stables old", folded synced_def, simplified] by auto
  show "ensureStableSkipSet saves dry path stables fs = (Inr ([], False), fs)" if "skip_list fs path = Some (synced stables old)"
    using that st by (auto simp: skip_list_def ensureStableSkipSet_def Let_def split: option.splits sum.splits)
  show "ensureStableSlice saves dry path stables fs = (Inr ([], False), fs)" if "slice_list fs path = Some (synced stables old)"
    using that st by (auto simp: slice_list_def ensureStableSlice_def Let_def split: option.splits)
qed

subsection \<open>Properties of the tool\<close>


text \<open>A dry run writes nothing, and it ends without an error exactly when both lists are in step.\<close>

lemma ensure_dry: "snd (ensureStableSkipSet saves True path stables fs) = fs" "snd (ensureStableSlice saves True path stables fs) = fs"
  by (auto simp: ensureStableSkipSet_def ensureStableSlice_def Let_def split: option.split sum.split)

lemma dry_run_writes_nothing:
  "snd (execute E abs_path read_file decode decode_raw saves True tokens loader symbols fs) = fs"
proof -
  have s: "fs' = fs" if "ensureStableSkipSet saves True path stables fs = (r, fs')" for r path stables fs fs'
    using ensure_dry(1) [of saves path stables fs] that by simp
  have t: "fs' = fs" if "ensureStableSlice saves True path stables fs = (r, fs')" for r path stables fs fs'
    using ensure_dry(2) [of saves path stables fs] that by simp
  show ?thesis by (auto simp: execute_def dest!: s t split: option.split sum.split prod.split)
qed

text \<open>The check of the raw file repeats the loader's: decoding the same file with fewer fields, it accepts every
  registry that the loader accepts.\<close>

definition forget_token :: "fileToken \<Rightarrow> rawToken" where
  "forget_token t = \<lparr>rt_Symbol = ft_Symbol t, rt_Address = ft_Address t, rt_Decimals = ft_Decimals t\<rparr>"

definition forget_network :: "fileNetwork \<Rightarrow> rawNetwork" where
  "forget_network n = \<lparr>rn_ChainID = fn_ChainID n, rn_Stable = map forget_token (fn_Stable n), rn_Native = map forget_token (fn_Native n)\<rparr>"

lemma check_tokens_append:
  "check_tokens E name (as @ bs) = Inr () \<longleftrightarrow> check_tokens E name as = Inr () \<and> check_tokens E name bs = Inr ()"
  by (induction as) auto

lemma convert_loop_checked:
  "convert_loop E chain typ network idx ss sa ts = Inr infos \<Longrightarrow> check_tokens E name (map forget_token ts) = Inr ()"
proof (induction E chain "typ" network idx ss sa ts arbitrary: infos rule: convert_loop.induct)
  case (2 E chain "typ" network idx ss sa t ts)
  then obtain info where i: "convertToken E t chain typ network idx = Inr info" by (auto split: sum.splits)
  then have "to_upper (trim_space (ft_Symbol t)) \<noteq> []" "eth_IsHexAddress E (trim_space (ft_Address t))"
    "0 < ft_Decimals t" "ft_Decimals t \<le> 255"
    by (auto simp: convertToken_def Let_def split: if_splits)
  moreover from i 2(2) obtain rest where "convert_loop E chain typ network (Suc idx) (CanonicalSymbol info # ss)
      (lower_hex E (ti_Address info) # sa) ts = Inr rest"
    by (auto simp: Let_def split: if_splits sum.splits)
  moreover note 2(1) [OF i refl refl _ _ this]
  ultimately show ?case using 2(2) i by (auto simp: forget_token_def Let_def to_upper_def split: if_splits)
qed simp

lemma raw_check_redundant:
  assumes "LoadRegistryFromFile E read_file decode path = Inr catalogs"
    and "\<And>data. decode_raw data = map_option (map (\<lambda>(n, net). (n, forget_network net))) (decode data)"
  shows "\<exists>raw. loadRawRegistry read_file decode_raw path = Inr raw \<and> validateRawRegistry E raw = Inr ()"
proof -
  from assms(1) obtain data raw where d: "read_file path = Some data" "decode data = Some raw" "raw \<noteq> []"
    and m: "map_res (\<lambda>(name, net). bind_res (convertNetwork E name net) (\<lambda>c. Inr (name, c))) raw = Inr catalogs"
    by (auto simp: LoadRegistryFromFile_def ParseRegistryYAML_def split: option.splits if_splits)
  have "check_networks E (map (\<lambda>(n, net). (n, forget_network net)) raw) = Inr ()"
    using m
  proof (induction raw arbitrary: catalogs)
    case (Cons x raw)
    obtain n net where x: "x = (n, net)" by (cases x)
    with Cons.prems obtain c cs where "convertNetwork E n net = Inr c"
      and cs: "map_res (\<lambda>(name, net). bind_res (convertNetwork E name net) (\<lambda>c. Inr (name, c))) raw = Inr cs"
      by (auto simp: bind_res_Inr_iff split: sum.splits)
    then have "fn_ChainID net \<noteq> 0" "check_tokens E n (map forget_token (fn_Stable net)) = Inr ()"
      "check_tokens E n (map forget_token (fn_Native net)) = Inr ()"
      by (auto simp: convertNetwork_def Let_def bind_res_Inr_iff convertTokens_def dest: convert_loop_checked split: if_splits)
    then have "fn_ChainID net \<noteq> 0" "check_tokens E n (rn_Stable (forget_network net) @ rn_Native (forget_network net)) = Inr ()"
      by (simp_all add: check_tokens_append forget_network_def)
    moreover have "rn_ChainID (forget_network net) = fn_ChainID net" by (simp add: forget_network_def)
    ultimately show ?case using Cons.IH [OF cs] by (simp add: x)
  qed simp
  with d assms(2) show ?thesis by (simp add: loadRawRegistry_def validateRawRegistry_def)
qed

subsection \<open>A concrete run\<close>

definition demo_net :: fileNetwork where
  "demo_net = \<lparr>fn_ChainID = 1, fn_Stable = [\<lparr>ft_Symbol = ''usdc'', ft_Address = ''0x'' @ replicate 39 CHR ''0'' @ ''5'',
     ft_Decimals = 6, ft_Wrapped = False\<rparr>], fn_Native = []\<rparr>"

definition demo_files :: go_files where
  "demo_files = [''symbol_loader.go'' \<mapsto> \<lparr>gf_vars = [([''x''], []), ([''stableSkipSet''], [GoComposite False [makeMapEntry ''USD'', makeMapEntry ''DAI'']])],
       gf_assigns = []\<rparr>,
     ''symbols.go'' \<mapsto> \<lparr>gf_vars = [], gf_assigns = [\<lparr>ga_define = True, ga_lhs = [Some ''stablecoins''],
       ga_rhs = [GoComposite True [makeStringLit ''USDC'']]\<rparr>]\<rparr>]"

lemma tool_stables:
  "registry_stables plain_eth (\<lambda>_. Some ''yaml'') (\<lambda>_. Some [(''ethereum'', demo_net)])
     (\<lambda>_. Some [(''ethereum'', forget_network demo_net)]) ''tokens.yaml'' = Inr [''USDC'']"
proof -
  let ?a = "''0x'' @ replicate 39 CHR ''0'' @ ''5''"
  have c: "length (trim_prefix (trim_space ?a) ''0x'') = 40 \<and> list_all (\<lambda>c. hex_val c \<noteq> None) (trim_prefix (trim_space ?a) ''0x'') \<and>
     hex_read 0 (trim_prefix (trim_space ?a) ''0x'') = 5" by code_simp
  have h: "eth_IsHexAddress plain_eth (trim_space ?a)"
    using c unfolding plain_eth_def Let_def by (simp del: not_None_eq replicate.simps)
  have v: "eth_HexToAddress plain_eth (trim_space ?a) = 5" using c by (simp add: plain_eth_def del: replicate.simps)
  have t: "to_upper (trim_space ''usdc'') = ''USDC''" "to_upper (trim_space ''USDC'') = ''USDC''" "to_upper ''usdc'' = ''USDC''" "to_upper ''USDC'' = ''USDC''" "trim_space ''usdc'' = ''usdc''"
    "trim_space ''USDC'' = ''USDC''" "trim_space ''ethereum'' = ''ethereum''" by code_simp+
  have n: "convertNetwork plain_eth ''ethereum'' demo_net = Inr \<lparr>nc_Name = ''ethereum'', nc_Chain = 1,
      nc_Stable = [\<lparr>ti_Symbol = ''USDC'', ti_Address = 5, ti_Decimals = 6, ti_Type = TokenTypeStable, ti_ChainID = 1, ti_Wrapped = False\<rparr>],
      nc_Native = []\<rparr>"
    unfolding convertNetwork_def convertTokens_def demo_net_def
    by (simp add: convertToken_def h v t WithType_def IsZero_def Let_def del: replicate.simps append.simps)
  have "check_tokens plain_eth ''ethereum'' (map forget_token (fn_Stable demo_net)) = Inr ()"
    unfolding demo_net_def by (simp add: forget_token_def h t del: replicate.simps append.simps)
  moreover have "fn_ChainID demo_net = 1" "fn_Native demo_net = []" by (simp_all add: demo_net_def)
  ultimately show ?thesis
    by (simp add: registry_stables_def LoadRegistryFromFile_def ParseRegistryYAML_def n loadRawRegistry_def validateRawRegistry_def
        forget_network_def uniqueSortedSymbols_def CanonicalSymbol_def t)
qed


end
