(* ===== verification/Bitget_Filter.thy ===== *)
theory Bitget_Filter
  imports Util
begin

text \<open>
  \<open>test_scripts/bitget/filter_symbols.go\<close>: the offline tool that asks Bitget for its spot symbols, keeps those of a
  file of base symbols and writes the lines of a symbols file. A response is what is left after the request, the
  status and the decoding: code and data, or \<open>None\<close>. Messages are left out.
\<close>

record bitget_symbol =
  bs_Symbol :: string
  bs_InstId :: string
  bs_BaseCoin :: string
  bs_QuoteCoin :: string

type_synonym bitget_response = "(string \<times> bitget_symbol list) option"

datatype filter_error = BaseSymbols loader_error | RequestFailed | ApiCode string

definition firstNonEmpty :: "string \<Rightarrow> string \<Rightarrow> string" where
  "firstNonEmpty a b = (if trim_space a \<noteq> [] then a else b)"

definition setToSlice :: "string list \<Rightarrow> string list" where
  "setToSlice xs = sort (remdups xs)"

definition trim_spbl :: "string \<Rightarrow> string" where
  "trim_spbl s = (if has_suffix s ''_SPBL'' then take (length s - 5) s else s)"

definition symbol_v2 :: "bitget_symbol \<Rightarrow> string" where
  "symbol_v2 d =
     (let sym = to_upper (firstNonEmpty (bs_Symbol d) (bs_InstId d)) in
      if sym = [] \<and> bs_BaseCoin d \<noteq> [] \<and> bs_QuoteCoin d \<noteq> [] then to_upper (bs_BaseCoin d @ bs_QuoteCoin d) else sym)"

definition symbol_v1 :: "bitget_symbol \<Rightarrow> string" where
  "symbol_v1 d =
     (let sym = to_upper (bs_Symbol d);
          sym = (if sym = [] \<and> bs_BaseCoin d \<noteq> [] \<and> bs_QuoteCoin d \<noteq> [] then to_upper (bs_BaseCoin d @ bs_QuoteCoin d) else sym)
      in trim_spbl sym)"

definition request_symbols :: "(bitget_symbol \<Rightarrow> string) \<Rightarrow> bitget_response \<Rightarrow> (filter_error, string list) result" where
  "request_symbols symbol resp =
     (case resp of None \<Rightarrow> Inl RequestFailed
      | Some (code, data) \<Rightarrow>
          if code \<noteq> ''00000'' then Inl (ApiCode code)
          else Inr (setToSlice (filter (\<lambda>s. s \<noteq> []) (map symbol data))))"

definition requestBitgetSymbolsV2 :: "bitget_response \<Rightarrow> (filter_error, string list) result" where
  "requestBitgetSymbolsV2 = request_symbols symbol_v2"

definition requestBitgetSymbolsV1 :: "bitget_response \<Rightarrow> (filter_error, string list) result" where
  "requestBitgetSymbolsV1 = request_symbols symbol_v1"

fun filter_loop :: "string list \<Rightarrow> string list \<Rightarrow> string list" where
  "filter_loop seen [] = []"
| "filter_loop seen (raw # rest) =
     (let s = trim_spbl (to_upper (trim_space raw)) in
      if \<not> has_suffix s ''USDT'' then filter_loop seen rest
      else if s \<in> set seen then filter_loop seen rest
      else s # filter_loop (s # seen) rest)"

definition normalizeAndFilterUSDT :: "string list \<Rightarrow> string list" where
  "normalizeAndFilterUSDT symbols = sort (filter_loop [] symbols)"

text \<open>The second endpoint is asked when the first fails or gives nothing.\<close>

definition fetchBitgetSpotUSDT :: "bitget_response \<Rightarrow> bitget_response \<Rightarrow> (filter_error, string list) result" where
  "fetchBitgetSpotUSDT v2 v1 =
     (case requestBitgetSymbolsV2 v2 of
        Inr (s # ss) \<Rightarrow> Inr (normalizeAndFilterUSDT (s # ss))
      | _ \<Rightarrow> bind_res (requestBitgetSymbolsV1 v1) (\<lambda>syms. Inr (normalizeAndFilterUSDT syms)))"

definition baseFile :: string where "baseFile = ''Temp/all_contracts_merged_reformatted.json''"

text \<open>The lines that are written, or the error the tool dies of.\<close>

definition filter_main ::
    "(string \<Rightarrow> 'b option) \<Rightarrow> ('b \<Rightarrow> string list option) \<Rightarrow> ('b \<Rightarrow> string list option) \<Rightarrow> bitget_response \<Rightarrow> bitget_response
     \<Rightarrow> (filter_error, string list) result" where
  "filter_main read_file decode_gecko decode_legacy v2 v1 =
     (case LoadSymbolsFromFile read_file decode_gecko decode_legacy baseFile of Inl e \<Rightarrow> Inl (BaseSymbols e)
      | Inr baseSymbols \<Rightarrow>
          (let baseSet = map to_upper baseSymbols in
           bind_res (fetchBitgetSpotUSDT v2 v1) (\<lambda>bitgetSymbols. Inr (sort (filter (\<lambda>s. s \<in> set baseSet) bitgetSymbols)))))"

subsection \<open>Lemmas\<close>

lemma filter_loop_first_by:
  "filter_loop seen raws = first_by id seen
     (filter (\<lambda>s. has_suffix s ''USDT'') (map (\<lambda>raw. trim_spbl (to_upper (trim_space raw))) raws))"
  by (induction seen raws rule: filter_loop.induct) (simp_all add: Let_def)

lemma normalizeAndFilterUSDT_ok:
  "sorted (normalizeAndFilterUSDT raws)" "distinct (normalizeAndFilterUSDT raws)"
  "set (normalizeAndFilterUSDT raws) = {s \<in> (\<lambda>raw. trim_spbl (to_upper (trim_space raw))) ` set raws. has_suffix s ''USDT''}"
proof -
  let ?xs = "filter (\<lambda>s. has_suffix s ''USDT'') (map (\<lambda>raw. trim_spbl (to_upper (trim_space raw))) raws)"
  show "sorted (normalizeAndFilterUSDT raws)" by (simp add: normalizeAndFilterUSDT_def)
  show "distinct (normalizeAndFilterUSDT raws)"
    using first_by_distinct [of id "[]" ?xs] by (simp add: normalizeAndFilterUSDT_def filter_loop_first_by)
  show "set (normalizeAndFilterUSDT raws) = {s \<in> (\<lambda>raw. trim_spbl (to_upper (trim_space raw))) ` set raws. has_suffix s ''USDT''}"
    using first_by_keys [of id "[]" ?xs] by (auto simp: normalizeAndFilterUSDT_def filter_loop_first_by)
qed

lemma fetch_ok:
  assumes "fetchBitgetSpotUSDT v2 v1 = Inr syms"
  obtains raws where "syms = normalizeAndFilterUSDT raws"
  using assms by (auto simp: fetchBitgetSpotUSDT_def bind_res_Inr_iff split: sum.splits list.splits)

text \<open>What the tool writes: sorted lines without duplicates, each a USDT symbol that the base file names. Of the base
  file only symbols that end in USDT themselves can match: with a file of bare base symbols, such as the one in
  the repository, nothing is written, whatever Bitget answers.\<close>

theorem filter_main_lines:
  assumes "filter_main read_file decode_gecko decode_legacy v2 v1 = Inr ls"
  shows "sorted ls \<and> distinct ls \<and>
    (\<exists>base syms. LoadSymbolsFromFile read_file decode_gecko decode_legacy baseFile = Inr base \<and> fetchBitgetSpotUSDT v2 v1 = Inr syms \<and>
       set ls = set syms \<inter> to_upper ` set base \<and> (\<forall>s \<in> set ls. has_suffix s ''USDT'') \<and>
       (list_all (\<lambda>b. \<not> has_suffix (to_upper b) ''USDT'') base \<longrightarrow> ls = []))"
proof -
  obtain base syms where b: "LoadSymbolsFromFile read_file decode_gecko decode_legacy baseFile = Inr base"
    and f: "fetchBitgetSpotUSDT v2 v1 = Inr syms" and ls: "ls = sort (filter (\<lambda>s. s \<in> to_upper ` set base) syms)"
    using assms by (auto simp: filter_main_def bind_res_Inr_iff split: sum.splits)
  obtain raws where r: "syms = normalizeAndFilterUSDT raws" using f by (rule fetch_ok)
  have suffix: "\<forall>s \<in> set syms. has_suffix s ''USDT''" using normalizeAndFilterUSDT_ok(3) [of raws] by (auto simp: r)
  have s: "set ls = set syms \<inter> to_upper ` set base" by (auto simp: ls)
  have "ls = []" if "list_all (\<lambda>b. \<not> has_suffix (to_upper b) ''USDT'') base"
    using that suffix s by (auto simp: list_all_iff simp flip: set_empty)
  moreover have "sorted ls" "distinct ls" using normalizeAndFilterUSDT_ok(2) [of raws] by (simp_all add: ls r)
  ultimately show ?thesis using b f s suffix by blast
qed

theorem filter_main_lines_witness:
  "filter_main (\<lambda>_. Some ()) (\<lambda>_. None) (\<lambda>_. Some [''BTC'', ''ETH''])
     (Some (''00000'', [\<lparr>bs_Symbol = ''BTCUSDT'', bs_InstId = [], bs_BaseCoin = ''BTC'', bs_QuoteCoin = ''USDT''\<rparr>])) None = Inr []"
proof -
  have "(case filter_main (\<lambda>_. Some ()) (\<lambda>_. None) (\<lambda>_. Some [''BTC'', ''ETH''])
     (Some (''00000'', [\<lparr>bs_Symbol = ''BTCUSDT'', bs_InstId = [], bs_BaseCoin = ''BTC'', bs_QuoteCoin = ''USDT''\<rparr>])) None of
       Inr ls \<Rightarrow> True | Inl e \<Rightarrow> False)" by code_simp
  then obtain ls where f: "filter_main (\<lambda>_. Some ()) (\<lambda>_. None) (\<lambda>_. Some [''BTC'', ''ETH''])
     (Some (''00000'', [\<lparr>bs_Symbol = ''BTCUSDT'', bs_InstId = [], bs_BaseCoin = ''BTC'', bs_QuoteCoin = ''USDT''\<rparr>])) None = Inr ls"
    by (auto split: sum.splits)
  have "LoadSymbolsFromFile (\<lambda>_. Some ()) (\<lambda>_. None) (\<lambda>_. Some [''BTC'', ''ETH'']) baseFile = Inr [''BTC'', ''ETH'']" by code_simp
  moreover have "list_all (\<lambda>b. \<not> has_suffix (to_upper b) ''USDT'') [''BTC'', ''ETH'']" by code_simp
  ultimately show ?thesis using filter_main_lines [OF f] f by auto
qed

end
