(* ===== verification/V4_Scripts.thy ===== *)
theory V4_Scripts
  imports Uniswap_V4
begin

text \<open>
  The two scripts that print the prices of V4 pools, kept beside the connector that grew out of them:
  \<open>test_scripts/uniswap/v4/connect_uniswap_v4.go\<close> (names with \<open>v4\<close>) and its first draft
  \<open>test_scripts/uniswap/connect_uniswap_v4.go\<close> (the same names without it, and \<open>draft_main\<close>). Both read the pools of
  two pairs from a file, subscribe to the logs of the pool manager and print a line for a swap. The contract ABI,
  the JSON decoding and the node are parameters; of the output the price lines are kept.
\<close>

subsection \<open>Data\<close>

datatype field_value = FBig int | FInt64 int | FUint64 "64 word" | FText string | FOther

record script_abi =
  sa_event :: "hash \<Rightarrow> string option"
  sa_decode :: "string \<Rightarrow> nat list option"
  sa_unpack :: "hash \<Rightarrow> nat list \<Rightarrow> (string \<rightharpoonup> field_value) option"
  sa_decodeBig :: "string \<Rightarrow> int option"
  sa_decodeUint64 :: "string \<Rightarrow> 64 word option"

record 'd script_token =
  st_Address :: string
  st_Symbol :: string
  st_Decimals :: 'd

record 'd v4PoolEntry =
  se_Dex :: string
  se_PairName :: string
  se_PoolID :: string
  se_Token0 :: "'d script_token"
  se_Token1 :: "'d script_token"

text \<open>The draft has no \<open>GotFirst\<close>.\<close>

record v4PoolMeta =
  sp_PoolID :: hash
  sp_PairName :: string
  sp_Symbol0 :: string
  sp_Symbol1 :: string
  sp_Addr0 :: address
  sp_Addr1 :: address
  sp_Decimals0 :: int
  sp_Decimals1 :: int
  sp_BaseIs0 :: bool
  sp_LastPrice :: "rat option"
  sp_GotFirst :: bool

record v4LogItem =
  sl_BlockNumber :: string
  sl_Data :: string
  sl_Removed :: bool
  sl_Topics :: "string list"
  sl_TransactionHash :: string

record v4SubAck =
  sk_Result :: string
  sk_Error :: "(int \<times> string) option"

record v4SubNote =
  sn_Method :: string
  sn_Result :: v4LogItem

text \<open>A frame, as each of the two decodings sees it.\<close>

record script_frame =
  sf_ack :: "v4SubAck option"
  sf_note :: "v4SubNote option"

text \<open>What is printed of a swap: the figures are the texts of the square root price, the two amounts, the liquidity,
  the tick and the fee.\<close>

record price_line =
  pl_Pair :: string
  pl_Base :: string
  pl_Quote :: string
  pl_Price :: string
  pl_Block :: "64 word"
  pl_Tx :: string
  pl_Figures :: "string list"

record script_state =
  ss_pools :: "(hash, v4PoolMeta) gomap"
  ss_lines :: "price_line list"
  ss_exited :: bool

datatype script_error =
    AbiFailed | PoolsUnreadable | PoolsUndecodable | NoTargetPools | NoEndpoint | NoManager | InvalidManager string
  | DialFailed | SubscribeFailed

subsection \<open>Loading the pools\<close>

definition v4Wanted :: "string list" where
  "v4Wanted = [''UNI/USDC'', ''LINK/USDC'']"

definition v4IntOrString_UnmarshalJSON :: "(string \<Rightarrow> string option) \<Rightarrow> (string \<Rightarrow> int option) \<Rightarrow> string \<Rightarrow> int option" where
  "v4IntOrString_UnmarshalJSON json_string json_int b =
     (let bb = trim_space b in
      if bb = [] then Some 0
      else if hd bb = CHR 0x22 then
        (case json_string bb of None \<Rightarrow> None
         | Some s0 \<Rightarrow> (let s = trim_space s0 in if s = [] then Some 0 else parse_int64 s))
      else json_int bb)"

definition v4Base :: "v4PoolMeta \<Rightarrow> string" where
  "v4Base m = (if sp_BaseIs0 m then sp_Symbol0 m else sp_Symbol1 m)"

definition v4Quote :: "v4PoolMeta \<Rightarrow> string" where
  "v4Quote m = (if sp_BaseIs0 m then sp_Symbol1 m else sp_Symbol0 m)"

definition script_stable :: "string \<Rightarrow> bool" where
  "script_stable s \<longleftrightarrow> s \<in> set [''USDC'', ''USDT'', ''DAI'', ''TUSD'', ''FDUSD'', ''USDD'']"

definition entry_pool :: "eth_lib \<Rightarrow> hash \<Rightarrow> int v4PoolEntry \<Rightarrow> v4PoolMeta" where
  "entry_pool E poolID e =
     (let symbol0 = to_upper (st_Symbol (se_Token0 e)); symbol1 = to_upper (st_Symbol (se_Token1 e)) in
      \<lparr>sp_PoolID = poolID, sp_PairName = se_PairName e, sp_Symbol0 = symbol0, sp_Symbol1 = symbol1,
        sp_Addr0 = eth_HexToAddress E (st_Address (se_Token0 e)), sp_Addr1 = eth_HexToAddress E (st_Address (se_Token1 e)),
        sp_Decimals0 = st_Decimals (se_Token0 e), sp_Decimals1 = st_Decimals (se_Token1 e),
        sp_BaseIs0 = (if script_stable symbol0 \<and> \<not> script_stable symbol1 then False else True),
        sp_LastPrice = None, sp_GotFirst = False\<rparr>)"

text \<open>The loops over the entries of the file end early when there are as many pools as wanted pairs; the draft counts
  the entries it takes, also when two have the same identifier.\<close>

fun v4_load_loop :: "eth_lib \<Rightarrow> int v4PoolEntry list \<Rightarrow> (hash, v4PoolMeta) gomap \<Rightarrow> (hash, v4PoolMeta) gomap" where
  "v4_load_loop E [] pools = pools"
| "v4_load_loop E (e # es) pools =
     (if \<not> equal_fold (se_Dex e) ''uniswap_v4'' then v4_load_loop E es pools
      else if se_PairName e \<notin> set v4Wanted then v4_load_loop E es pools
      else let pid = to_lower (trim_space (se_PoolID e)) in
        if \<not> has_prefix pid ''0x'' \<or> length pid \<noteq> 66 then v4_load_loop E es pools
        else let poolID = eth_HexToHash E pid; pools = mput poolID (entry_pool E poolID e) pools in
          if length pools = length v4Wanted then pools else v4_load_loop E es pools)"

definition pools_path :: "(string \<Rightarrow> string) \<Rightarrow> string" where
  "pools_path getenv =
     (let path = getenv ''GECKO_POOLS_JSON'' in if path = [] then ''ticker_source/geckoterminal_pools.json'' else path)"

definition v4LoadPools ::
    "eth_lib \<Rightarrow> (string \<Rightarrow> string) \<Rightarrow> (string \<Rightarrow> string option) \<Rightarrow> (string \<Rightarrow> int v4PoolEntry list option)
     \<Rightarrow> (script_error, (hash, v4PoolMeta) gomap) result" where
  "v4LoadPools E getenv read_file decode =
     (case read_file (pools_path getenv) of None \<Rightarrow> Inl PoolsUnreadable
      | Some data \<Rightarrow> (case decode data of None \<Rightarrow> Inl PoolsUndecodable | Some entries \<Rightarrow> Inr (v4_load_loop E entries [])))"

definition parseDecimals :: "string \<Rightarrow> int option" where
  "parseDecimals raw = (let s = trim_space raw in if s = [] then None else parse_int64 s)"

definition draft_base_is0 :: "string v4PoolEntry \<Rightarrow> bool" where
  "draft_base_is0 e =
     (if has_suffix (to_upper (se_PairName e)) ''/USDC'' then True
      else contains (to_upper (se_PairName e)) (st_Symbol (se_Token0 e)) \<and> contains (to_upper (se_PairName e)) ''USDC'' \<and>
        \<not> contains (to_upper (st_Symbol (se_Token1 e))) ''USDC'')"

fun draft_load_loop ::
    "eth_lib \<Rightarrow> string v4PoolEntry list \<Rightarrow> nat \<Rightarrow> (hash, v4PoolMeta) gomap \<Rightarrow> (hash, v4PoolMeta) gomap" where
  "draft_load_loop E [] n pools = pools"
| "draft_load_loop E (e # es) n pools =
     (if \<not> equal_fold (se_Dex e) ''uniswap_v4'' then draft_load_loop E es n pools
      else if se_PairName e \<notin> set v4Wanted then draft_load_loop E es n pools
      else let pid = to_lower (trim_space (se_PoolID e)) in
        if \<not> has_prefix pid ''0x'' \<or> length pid \<noteq> 66 then draft_load_loop E es n pools
        else let h = eth_HexToHash E pid in
        case parseDecimals (st_Decimals (se_Token0 e)) of None \<Rightarrow> draft_load_loop E es n pools
        | Some dec0 \<Rightarrow> (case parseDecimals (st_Decimals (se_Token1 e)) of None \<Rightarrow> draft_load_loop E es n pools
          | Some dec1 \<Rightarrow>
             (let pools = mput h \<lparr>sp_PoolID = h, sp_PairName = se_PairName e, sp_Symbol0 = st_Symbol (se_Token0 e),
                  sp_Symbol1 = st_Symbol (se_Token1 e), sp_Addr0 = eth_HexToAddress E (st_Address (se_Token0 e)),
                  sp_Addr1 = eth_HexToAddress E (st_Address (se_Token1 e)), sp_Decimals0 = dec0, sp_Decimals1 = dec1,
                  sp_BaseIs0 = draft_base_is0 e, sp_LastPrice = None, sp_GotFirst = False\<rparr> pools
              in if Suc n = length v4Wanted then pools else draft_load_loop E es (Suc n) pools)))"

definition loadPools ::
    "eth_lib \<Rightarrow> (string \<Rightarrow> string) \<Rightarrow> (string \<Rightarrow> string option) \<Rightarrow> (string \<Rightarrow> string v4PoolEntry list option)
     \<Rightarrow> (script_error, (hash, v4PoolMeta) gomap) result" where
  "loadPools E getenv read_file decode =
     (case read_file (pools_path getenv) of None \<Rightarrow> Inl PoolsUnreadable
      | Some data \<Rightarrow> (case decode data of None \<Rightarrow> Inl PoolsUndecodable | Some entries \<Rightarrow> Inr (draft_load_loop E entries 0 [])))"

definition v4LoadABI :: "(string \<Rightarrow> string option) \<Rightarrow> (string \<Rightarrow> script_abi option) \<Rightarrow> (script_error, script_abi) result" where
  "v4LoadABI read_file parse_abi =
     (case read_file ''ABI/Uniswap/V4/UniswapV4PoolManager.json'' of None \<Rightarrow> Inl AbiFailed
      | Some b \<Rightarrow> (case parse_abi b of None \<Rightarrow> Inl AbiFailed | Some A \<Rightarrow> Inr A))"

definition v4ResolveWS :: "(string \<Rightarrow> string) \<Rightarrow> (script_error, string) result" where
  "v4ResolveWS getenv =
     (let direct = trim_space (getenv ''ALCHEMY_WS_URL''); api = trim_space (getenv ''ALCHEMY_API_KEY'') in
      if direct \<noteq> [] then Inr direct else if api = [] then Inl NoEndpoint
      else Inr (''wss://eth-mainnet.g.alchemy.com/v2/'' @ api))"

subsection \<open>Prices\<close>

definition v4Big :: "script_abi \<Rightarrow> field_value option \<Rightarrow> int option" where
  "v4Big A v =
     (case v of Some (FBig x) \<Rightarrow> Some x
      | Some (FInt64 x) \<Rightarrow> Some x
      | Some (FUint64 x) \<Rightarrow> Some (uint x)
      | Some (FText x) \<Rightarrow> if has_prefix x ''0x'' then sa_decodeBig A x else None
      | _ \<Rightarrow> None)"

text \<open>\<open>Exp\<close> of a negative exponent is 1.\<close>

definition v4TenPow :: "int \<Rightarrow> int" where
  "v4TenPow dec = (if dec \<le> 0 then 1 else 10 ^ nat dec)"

definition v4Abs :: "int \<Rightarrow> int" where
  "v4Abs v = (if v < 0 then - v else v)"

definition v4Ratio :: "int \<Rightarrow> int \<Rightarrow> int \<Rightarrow> int \<Rightarrow> rat option" where
  "v4Ratio num numDec den denDec =
     (if den = 0 then None
      else Some ((of_int num / of_int (v4TenPow numDec)) / (of_int den / of_int (v4TenPow denDec))))"

definition derivePrice :: "v4PoolMeta \<Rightarrow> int \<Rightarrow> int \<Rightarrow> int \<Rightarrow> rat option" where
  "derivePrice meta amount0 amount1 sqp =
     (if sqp > 0 then
        (let p0over1 = of_int (sqp * sqp) / 2 ^ 192 * (of_int (v4TenPow (sp_Decimals0 meta)) / of_int (v4TenPow (sp_Decimals1 meta)))
         in Some (if sp_BaseIs0 meta then p0over1 else inverse p0over1))
      else (let abs0 = v4Abs amount0; abs1 = v4Abs amount1 in
        if sp_BaseIs0 meta then v4Ratio abs1 (sp_Decimals1 meta) abs0 (sp_Decimals0 meta)
        else v4Ratio abs0 (sp_Decimals0 meta) abs1 (sp_Decimals1 meta)))"

text \<open>The later script also takes a log without the figures.\<close>

definition amounts_price :: "v4PoolMeta \<Rightarrow> int option \<Rightarrow> int option \<Rightarrow> rat option" where
  "amounts_price meta amount0 amount1 =
     (case (amount0, amount1) of
        (Some a0, Some a1) \<Rightarrow>
          (let abs0 = v4Abs a0; abs1 = v4Abs a1 in
           if sp_BaseIs0 meta then v4Ratio abs1 (sp_Decimals1 meta) abs0 (sp_Decimals0 meta)
           else v4Ratio abs0 (sp_Decimals0 meta) abs1 (sp_Decimals1 meta))
      | _ \<Rightarrow> None)"

definition v4Price :: "v4PoolMeta \<Rightarrow> int option \<Rightarrow> int option \<Rightarrow> int option \<Rightarrow> rat option" where
  "v4Price meta amount0 amount1 sqp =
     (case sqp of None \<Rightarrow> amounts_price meta amount0 amount1
      | Some s \<Rightarrow>
          if s > 0 then
            (let p0over1 = of_int (s * s) / 2 ^ 192 * (of_int (v4TenPow (sp_Decimals0 meta)) / of_int (v4TenPow (sp_Decimals1 meta)))
             in Some (if sp_BaseIs0 meta then p0over1 else inverse p0over1))
          else amounts_price meta amount0 amount1)"

subsection \<open>Price lines\<close>

text \<open>The text of a rational number with a fixed number of digits, by way of a float of 256 bits.\<close>

definition v4Format :: "rat \<Rightarrow> nat \<Rightarrow> string" where
  "v4Format r prec =
     (let n = round_half_even (round_prec 256 r * 10 ^ prec);
          digits = show_nat (nat \<bar>n\<bar>);
          padded = replicate (Suc prec - length digits) CHR ''0'' @ digits
      in (if r < 0 then ''-'' else []) @ take (length padded - prec) padded @
           (if prec = 0 then [] else ''.'' @ drop (length padded - prec) padded))"

definition v4BigStr :: "int option \<Rightarrow> string" where
  "v4BigStr v = (case v of None \<Rightarrow> [] | Some n \<Rightarrow> show_int n)"

definition v4Block :: "script_abi \<Rightarrow> string \<Rightarrow> 64 word" where
  "v4Block A h = (case sa_decodeUint64 A h of None \<Rightarrow> 0 | Some bn \<Rightarrow> bn)"

definition price_line_of :: "script_abi \<Rightarrow> v4PoolMeta \<Rightarrow> rat \<Rightarrow> v4LogItem \<Rightarrow> int option list \<Rightarrow> price_line" where
  "price_line_of A meta price l figures =
     \<lparr>pl_Pair = sp_PairName meta, pl_Base = v4Base meta, pl_Quote = v4Quote meta, pl_Price = v4Format price 8,
       pl_Block = v4Block A (sl_BlockNumber l), pl_Tx = sl_TransactionHash l, pl_Figures = map v4BigStr figures\<rparr>"

text \<open>In once mode the process exits as soon as every pool has its first price.\<close>

definition v4Publish ::
    "script_abi \<Rightarrow> bool \<Rightarrow> hash \<Rightarrow> v4PoolMeta \<Rightarrow> rat option \<Rightarrow> v4LogItem \<Rightarrow> int option list \<Rightarrow> script_state \<Rightarrow> script_state" where
  "v4Publish A v4Once pid meta price l figures st =
     (case price of None \<Rightarrow> st
      | Some p \<Rightarrow>
          if (case sp_LastPrice meta of None \<Rightarrow> False
              | Some last_price \<Rightarrow> p - last_price = 0 \<or> \<bar>p - last_price\<bar> < last_price / 10000) then st
          else let pools = mput pid (meta\<lparr>sp_LastPrice := Some p, sp_GotFirst := True\<rparr>) (ss_pools st) in
            st\<lparr>ss_pools := pools, ss_lines := ss_lines st @ [price_line_of A meta p l figures],
              ss_exited := (\<not> sp_GotFirst meta \<and> v4Once \<and> list_all (\<lambda>(_, m). sp_GotFirst m) pools)\<rparr>)"

text \<open>The draft means to compare the change with the threshold, but \<open>x.Abs(price)\<close> overwrites the difference \<open>x\<close> with the
  absolute value of its argument.\<close>

definition publishPrice ::
    "script_abi \<Rightarrow> hash \<Rightarrow> v4PoolMeta \<Rightarrow> rat option \<Rightarrow> v4LogItem \<Rightarrow> int option list \<Rightarrow> script_state \<Rightarrow> script_state" where
  "publishPrice A pid meta price l figures st =
     (case price of None \<Rightarrow> st
      | Some p \<Rightarrow>
          if (case sp_LastPrice meta of None \<Rightarrow> True | Some last_price \<Rightarrow> \<bar>p\<bar> > last_price / 10000) then
            st\<lparr>ss_pools := mput pid (meta\<lparr>sp_LastPrice := Some p\<rparr>) (ss_pools st),
              ss_lines := ss_lines st @ [price_line_of A meta p l figures]\<rparr>
          else st)"

text \<open>The pool of a log and the decoded figures, for a log that both scripts look at.\<close>

definition swap_of :: "eth_lib \<Rightarrow> script_abi \<Rightarrow> v4LogItem \<Rightarrow> script_state \<Rightarrow> (hash \<times> v4PoolMeta \<times> (string \<rightharpoonup> field_value)) option" where
  "swap_of E A l st =
     (if sl_Removed l then None
      else case sl_Topics l of [] \<Rightarrow> None
      | topic # rest \<Rightarrow>
          let sig = eth_HexToHash E topic in
          if sa_event A sig \<noteq> Some ''Swap'' then None
          else (case rest of [] \<Rightarrow> None
            | topic1 # _ \<Rightarrow>
                let pid = eth_HexToHash E topic1 in
                case map_of (ss_pools st) pid of None \<Rightarrow> None
                | Some meta \<Rightarrow>
                    if sl_Data l = ''0x'' then Some (pid, meta, Map.empty)
                    else (case sa_decode A (sl_Data l) of None \<Rightarrow> None
                      | Some b \<Rightarrow> map_option (\<lambda>vals. (pid, meta, vals)) (sa_unpack A sig b))))"

definition v4Process :: "eth_lib \<Rightarrow> script_abi \<Rightarrow> bool \<Rightarrow> v4LogItem \<Rightarrow> script_state \<Rightarrow> script_state" where
  "v4Process E A v4Once l st =
     (case swap_of E A l st of None \<Rightarrow> st
      | Some (pid, meta, vals) \<Rightarrow>
          (let amount0 = v4Big A (vals ''amount0''); amount1 = v4Big A (vals ''amount1'');
               sqp = v4Big A (vals ''sqrtPriceX96''); liq = v4Big A (vals ''liquidity'');
               tick = v4Big A (vals ''tick''); fee = v4Big A (vals ''fee'')
           in v4Publish A v4Once pid meta (v4Price meta amount0 amount1 sqp) l [sqp, amount0, amount1, liq, tick, fee] st))"

definition processLog :: "eth_lib \<Rightarrow> script_abi \<Rightarrow> v4LogItem \<Rightarrow> script_state \<Rightarrow> script_state" where
  "processLog E A l st =
     (case swap_of E A l st of None \<Rightarrow> st
      | Some (pid, meta, vals) \<Rightarrow>
          (let liquidity = v4Big A (vals ''liquidity''); tick = v4Big A (vals ''tick''); fee = v4Big A (vals ''fee'') in
           case (v4Big A (vals ''amount0''), v4Big A (vals ''amount1''), v4Big A (vals ''sqrtPriceX96'')) of
             (Some amount0, Some amount1, Some sqp) \<Rightarrow>
               publishPrice A pid meta (derivePrice meta amount0 amount1 sqp) l
                 [Some sqp, Some amount0, Some amount1, liquidity, tick, fee] st
           | _ \<Rightarrow> st))"

subsection \<open>Frames and the main loop\<close>

definition v4TryAck :: "v4SubAck option \<Rightarrow> v4SubAck option" where
  "v4TryAck decoded =
     (case decoded of None \<Rightarrow> None | Some a \<Rightarrow> if sk_Result a = [] \<and> sk_Error a = None then None else Some a)"

definition v4TryNote :: "v4SubNote option \<Rightarrow> v4SubNote option" where
  "v4TryNote decoded =
     (case decoded of None \<Rightarrow> None | Some n \<Rightarrow> if \<not> equal_fold (sn_Method n) ''eth_subscription'' then None else Some n)"

definition v4Handle :: "(v4LogItem \<Rightarrow> script_state \<Rightarrow> script_state) \<Rightarrow> script_frame \<Rightarrow> script_state \<Rightarrow> script_state" where
  "v4Handle process raw st =
     (case v4TryAck (sf_ack raw) of Some _ \<Rightarrow> st
      | None \<Rightarrow> (case v4TryNote (sf_note raw) of None \<Rightarrow> st | Some note0 \<Rightarrow> process (sn_Result note0) st))"

text \<open>What \<open>select\<close> delivers to the loop of \<open>main\<close>.\<close>

datatype script_event = SMessage script_frame | SClosed | SReadError | SInterrupt | STimeout

datatype script_end = SRunning | SReturned | SExited

fun script_loop ::
    "(v4LogItem \<Rightarrow> script_state \<Rightarrow> script_state) \<Rightarrow> script_event list \<Rightarrow> script_state \<Rightarrow> script_end \<times> script_state" where
  "script_loop process [] st = (SRunning, st)"
| "script_loop process (SMessage raw # es) st =
     (let st = v4Handle process raw st in if ss_exited st then (SExited, st) else script_loop process es st)"
| "script_loop process (e # es) st = (SReturned, st)"

definition start_state :: "(hash, v4PoolMeta) gomap \<Rightarrow> script_state" where
  "start_state pools = \<lparr>ss_pools = pools, ss_lines = [], ss_exited = False\<rparr>"

text \<open>The checks and the subscription before the loop; \<open>dialed\<close> and \<open>written\<close> say whether the endpoint can be reached and
  the request for the logs of an address be sent.\<close>

definition script_start ::
    "eth_lib \<Rightarrow> (string \<Rightarrow> string) \<Rightarrow> (string \<Rightarrow> bool) \<Rightarrow> (string \<Rightarrow> bool)
     \<Rightarrow> (script_error, (hash, v4PoolMeta) gomap) result \<Rightarrow> (script_error, script_state) result" where
  "script_start E getenv dialed written loaded =
     bind_res loaded (\<lambda>pools.
       if pools = [] then Inl NoTargetPools
       else bind_res (v4ResolveWS getenv) (\<lambda>wsURL.
         let pmAddr = trim_space (getenv ''POOLMANAGER_V4'') in
         if pmAddr = [] then Inl NoManager
         else if \<not> eth_IsHexAddress E pmAddr then Inl (InvalidManager pmAddr)
         else if \<not> dialed wsURL then Inl DialFailed
         else if \<not> written pmAddr then Inl SubscribeFailed
         else Inr (start_state pools)))"

definition v4_main ::
    "eth_lib \<Rightarrow> (string \<Rightarrow> string) \<Rightarrow> (string \<Rightarrow> string option) \<Rightarrow> (string \<Rightarrow> script_abi option) \<Rightarrow> (string \<Rightarrow> int v4PoolEntry list option)
     \<Rightarrow> (string \<Rightarrow> bool) \<Rightarrow> (string \<Rightarrow> bool) \<Rightarrow> bool \<Rightarrow> script_event list \<Rightarrow> (script_error, script_end \<times> script_state) result" where
  "v4_main E getenv read_file parse_abi decode dialed written v4Once events =
     bind_res (v4LoadABI read_file parse_abi) (\<lambda>A.
     bind_res (script_start E getenv dialed written (v4LoadPools E getenv read_file decode)) (\<lambda>st.
       Inr (script_loop (v4Process E A v4Once) events st)))"

definition draft_main ::
    "eth_lib \<Rightarrow> (string \<Rightarrow> string) \<Rightarrow> (string \<Rightarrow> string option) \<Rightarrow> (string \<Rightarrow> script_abi option) \<Rightarrow> (string \<Rightarrow> string v4PoolEntry list option)
     \<Rightarrow> (string \<Rightarrow> bool) \<Rightarrow> (string \<Rightarrow> bool) \<Rightarrow> script_event list \<Rightarrow> (script_error, script_end \<times> script_state) result" where
  "draft_main E getenv read_file parse_abi decode dialed written events =
     bind_res (v4LoadABI read_file parse_abi) (\<lambda>A.
     bind_res (script_start E getenv dialed written (loadPools E getenv read_file decode)) (\<lambda>st.
       Inr (script_loop (processLog E A) events st)))"

subsection \<open>Lemmas: prices\<close>

lemma v4TenPow_eq: "v4TenPow d = pow10Int d"
  by (simp add: v4TenPow_def pow10Int_def)

lemma v4TenPow_pos [simp]: "0 < v4TenPow d"
  by (simp add: v4TenPow_def)

lemma v4Abs_eq [simp]: "v4Abs v = \<bar>v\<bar>"
  by (simp add: v4Abs_def)

lemma v4Price_sqrt:
  "0 < s \<Longrightarrow> v4Price meta a0 a1 (Some s) = Some (let p = of_int (s * s) / 2 ^ 192 *
      (of_int (v4TenPow (sp_Decimals0 meta)) / of_int (v4TenPow (sp_Decimals1 meta))) in if sp_BaseIs0 meta then p else inverse p)"
  by (simp add: v4Price_def Let_def)

lemma v4Price_pos: "0 < s \<Longrightarrow> v4Price meta a0 a1 (Some s) = Some p \<Longrightarrow> 0 < p"
  by (auto simp: v4Price_sqrt Let_def)

lemma derivePrice_eq: "0 < s \<Longrightarrow> derivePrice meta x y s = v4Price meta a0 a1 (Some s)"
  by (simp add: v4Price_sqrt derivePrice_def Let_def)

lemma amounts_price_value:
  "x \<noteq> 0 \<Longrightarrow> y \<noteq> 0 \<Longrightarrow> v4Price meta (Some x) (Some y) None = Some (let p = of_int \<bar>y\<bar> / of_int \<bar>x\<bar> *
      (of_int (v4TenPow (sp_Decimals0 meta)) / of_int (v4TenPow (sp_Decimals1 meta))) in if sp_BaseIs0 meta then p else inverse p)"
  by (simp add: v4Price_def amounts_price_def v4Ratio_def Let_def)

text \<open>C38. The scripts and the connector agree on the price of a swap with a square root price: it is the connector's
  directed price for the side the pool's base is on. And it is the price that the later script takes from the
  amounts when the square root price is missing, if the amounts were exchanged at exactly that price.\<close>

theorem scripts_price_agrees:
  assumes "0 < sqp" and "sp_Decimals0 meta = tm_Decimals (p4_Token0 pool)" and "sp_Decimals1 meta = tm_Decimals (p4_Token1 pool)"
    and "sp_BaseIs0 meta = p4_BaseIsToken0 pool"
  shows "derivePrice meta x y sqp = v4Price meta a0 a1 (Some sqp) \<and>
    v4Price meta a0 a1 (Some sqp) =
      (if p4_BaseIsToken0 pool then fst else snd) (sqrtPriceToDirectionalPrices pool (Some sqp)) \<and>
    (x \<noteq> 0 \<and> sqp * sqp * \<bar>x\<bar> = 2 ^ 192 * \<bar>y\<bar> \<longrightarrow> v4Price meta (Some x) (Some y) None = v4Price meta a0 a1 (Some sqp))"
proof (intro conjI impI)
  show "derivePrice meta x y sqp = v4Price meta a0 a1 (Some sqp)" using assms(1) by (rule derivePrice_eq)
  have "of_int (sqp * sqp) / 2 ^ 192 *
      (of_int (pow10Int (tm_Decimals (p4_Token0 pool))) / of_int (pow10Int (tm_Decimals (p4_Token1 pool)))) \<noteq> (0 :: rat)"
    using assms(1) v4TenPow_pos by (simp flip: v4TenPow_eq add: less_imp_neq [symmetric])
  then show "v4Price meta a0 a1 (Some sqp) =
      (if p4_BaseIsToken0 pool then fst else snd) (sqrtPriceToDirectionalPrices pool (Some sqp))"
    using assms by (simp add: v4Price_sqrt sqrtPriceToDirectionalPrices_def invertRat_def Let_def v4TenPow_eq inverse_eq_divide)
  assume a: "x \<noteq> 0 \<and> sqp * sqp * \<bar>x\<bar> = 2 ^ 192 * \<bar>y\<bar>"
  then have "of_int (sqp * sqp) * of_int \<bar>x\<bar> = (2 ^ 192 * of_int \<bar>y\<bar> :: rat)"
    by (metis of_int_mult of_int_numeral of_int_power)
  then have "of_int (sqp * sqp) / 2 ^ 192 = (of_int \<bar>y\<bar> / of_int \<bar>x\<bar> :: rat)"
    using a by (simp add: field_simps)
  moreover have "y \<noteq> 0" using a assms(1) by auto
  ultimately show "v4Price meta (Some x) (Some y) None = v4Price meta a0 a1 (Some sqp)"
    using a amounts_price_value [of x y meta] by (simp only: v4Price_sqrt [OF assms(1)] Let_def) simp
qed

subsection \<open>Lemmas: a swap that is repeated\<close>

lemma swap_of_pool: "swap_of E A l st = Some (pid, meta, vals) \<Longrightarrow> map_of (ss_pools st) pid = Some meta"
  by (auto simp: swap_of_def Let_def split: if_splits list.splits option.splits)

lemma swap_of_again:
  assumes "swap_of E A l st = Some (pid, meta, vals)" and "map_of (ss_pools st') pid = Some meta'"
  shows "swap_of E A l st' = Some (pid, meta', vals)"
  using assms by (auto simp: swap_of_def Let_def split: if_splits list.splits option.splits)

lemma derivePrice_frame [simp]:
  "derivePrice (meta\<lparr>sp_LastPrice := lp, sp_GotFirst := g\<rparr>) x y s = derivePrice meta x y s"
  "derivePrice (meta\<lparr>sp_LastPrice := lp\<rparr>) x y s = derivePrice meta x y s"
  "v4Price (meta\<lparr>sp_LastPrice := lp, sp_GotFirst := g\<rparr>) a0 a1 sq = v4Price meta a0 a1 sq"
  by (simp_all add: derivePrice_def v4Price_def amounts_price_def Let_def split: option.split)

lemma v4_repeated:
  assumes "swap_of E A l st = Some (pid, meta, vals)" and "v4Big A (vals ''sqrtPriceX96'') = Some s" and "0 < s"
    and "sp_LastPrice meta = None"
  shows "length (ss_lines ((v4Process E A once l ^^ Suc n) st)) = Suc (length (ss_lines st))"
proof -
  obtain p where p: "v4Price meta (v4Big A (vals ''amount0'')) (v4Big A (vals ''amount1'')) (Some s) = Some p"
    using v4Price_sqrt [OF assms(3)] by simp
  define st1 where "st1 = v4Process E A once l st"
  define meta1 where "meta1 = meta\<lparr>sp_LastPrice := Some p, sp_GotFirst := True\<rparr>"
  have st1: "length (ss_lines st1) = Suc (length (ss_lines st))" "map_of (ss_pools st1) pid = Some meta1"
    using assms p by (simp_all add: st1_def meta1_def v4Process_def v4Publish_def Let_def)
  from swap_of_again [OF assms(1) st1(2)] assms(2) p have "v4Process E A once l st1 = st1"
    by (simp add: v4Process_def v4Publish_def Let_def meta1_def)
  then have "(v4Process E A once l ^^ n) st1 = st1" by (induction n) auto
  then show ?thesis using st1(1) by (simp add: funpow_Suc_right st1_def del: funpow.simps)
qed

lemma draft_repeated:
  assumes "swap_of E A l st = Some (pid, meta, vals)" and "v4Big A (vals ''sqrtPriceX96'') = Some s" and "0 < s"
    and "v4Big A (vals ''amount0'') = Some x" and "v4Big A (vals ''amount1'') = Some y" and "derivePrice meta x y s = Some p"
    and "sp_LastPrice meta = None \<or> sp_LastPrice meta = Some p"
  shows "length (ss_lines ((processLog E A l ^^ n) st)) = length (ss_lines st) + n"
  using assms(1,6,7)
proof (induction n arbitrary: st meta)
  case (Suc n)
  have "0 < p" using Suc.prems(2) derivePrice_eq [OF assms(3)] v4Price_pos [OF assms(3)] by metis
  then have new: "case sp_LastPrice meta of None \<Rightarrow> True | Some last_price \<Rightarrow> \<bar>p\<bar> > last_price / 10000"
    using Suc.prems(3) by auto
  define st1 where "st1 = processLog E A l st"
  have st1: "length (ss_lines st1) = Suc (length (ss_lines st))" "map_of (ss_pools st1) pid = Some (meta\<lparr>sp_LastPrice := Some p\<rparr>)"
    using new assms(2,4,5) Suc.prems(1,2) by (simp_all add: st1_def processLog_def publishPrice_def Let_def)
  from Suc.IH [OF swap_of_again [OF Suc.prems(1) st1(2)]] Suc.prems(2)
  have "length (ss_lines ((processLog E A l ^^ n) st1)) = length (ss_lines st1) + n" by simp
  then show ?case using st1(1) by (simp add: funpow_Suc_right st1_def del: funpow.simps)
qed simp


text \<open>A pool with equal decimals, and a swap of it at the price 1.\<close>

definition demo_script_pool :: v4PoolMeta where
  "demo_script_pool = \<lparr>sp_PoolID = 11, sp_PairName = ''UNI/USDC'', sp_Symbol0 = ''UNI'', sp_Symbol1 = ''USDC'', sp_Addr0 = 1, sp_Addr1 = 2,
     sp_Decimals0 = 18, sp_Decimals1 = 18, sp_BaseIs0 = True, sp_LastPrice = None, sp_GotFirst = False\<rparr>"

definition demo_script_abi :: script_abi where
  "demo_script_abi = \<lparr>sa_event = (\<lambda>_. Some ''Swap''), sa_decode = (\<lambda>_. Some []),
     sa_unpack = (\<lambda>_ _. Some (\<lambda>f. if f = ''sqrtPriceX96'' then Some (FBig (2 ^ 96)) else if f = ''amount0'' then Some (FBig 5)
       else if f = ''amount1'' then Some (FBig (- 5)) else None)),
     sa_decodeBig = (\<lambda>_. None), sa_decodeUint64 = (\<lambda>_. None)\<rparr>"

definition demo_script_log :: v4LogItem where
  "demo_script_log = \<lparr>sl_BlockNumber = ''0x1'', sl_Data = ''0x01'', sl_Removed = False, sl_Topics = [''0x07'', ''0x0b''],
     sl_TransactionHash = []\<rparr>"

theorem scripts_price_agrees_witness:
  "v4Price demo_script_pool (Some 5) (Some (- 5)) None =
     fst (sqrtPriceToDirectionalPrices (demo_pool4\<lparr>p4_Token0 := demo_token 1 ''UNI'' 18, p4_Token1 := demo_token 2 ''USDC'' 18, p4_BaseIsToken0 := True\<rparr>) (Some (2 ^ 96)))"
  using scripts_price_agrees [of "2 ^ 96" demo_script_pool
      "demo_pool4\<lparr>p4_Token0 := demo_token 1 ''UNI'' 18, p4_Token1 := demo_token 2 ''USDC'' 18, p4_BaseIsToken0 := True\<rparr>" 5 "- 5" None None]
  by (simp add: demo_script_pool_def demo_token_def)


end
