(* ===== verification/V2_Script.thy ===== *)
theory V2_Script
  imports Uniswap_V2 V4_Scripts
begin

text \<open>
  The V2 script, \<open>test_scripts/uniswap/v2/connect_uniswap_v2.go\<close>: it reads pools from a file, checks the order of their
  tokens with the node, prints prices from Sync logs together with dollar values by way of WETH, and exits when it
  has seen enough base assets. The reading of a pair's tokens is the one of the connector (\<open>fetchPairTokens\<close>), and
  the decoded acknowledgement and the token of an entry are those of \<open>V4_Scripts\<close>. Of the output the lines with prices are
  kept; masking of the address and the kind of a pool serve other lines only.
\<close>

subsection \<open>The environment\<close>

type_synonym environment = "string \<rightharpoonup> string"

definition getenv_of :: "environment \<Rightarrow> string \<Rightarrow> string" where
  "getenv_of env k = (case env k of None \<Rightarrow> [] | Some v \<Rightarrow> v)"

text \<open>Quotes around a value are taken off. A variable that is set already is kept; setting fails for a zero byte.\<close>

definition unquote :: "string \<Rightarrow> string" where
  "unquote val =
     (if length val \<ge> 2 \<and> (hd val = CHR 0x22 \<and> last val = CHR 0x22 \<or> hd val = CHR 0x27 \<and> last val = CHR 0x27)
      then butlast (tl val) else val)"

definition env_line :: "string \<Rightarrow> environment \<Rightarrow> environment" where
  "env_line raw env =
     (let s = trim_space raw; eq = length (takeWhile (\<lambda>c. c \<noteq> CHR ''='') s) in
      if s = [] \<or> has_prefix s ''#'' then env
      else if eq = length s \<or> eq = 0 then env
      else let key = trim_space (take eq s); val = unquote (trim_space (drop (Suc eq) s)) in
        if key = [] \<or> env key \<noteq> None then env
        else if CHR 0x00 \<in> set key \<or> CHR 0x00 \<in> set val then env
        else env(key \<mapsto> val))"

definition v2LoadDotEnv :: "(string \<Rightarrow> string option) \<Rightarrow> string \<Rightarrow> environment \<Rightarrow> environment" where
  "v2LoadDotEnv read_file path env =
     (case read_file path of None \<Rightarrow> env | Some b \<Rightarrow> fold env_line (split_on (CHR 0x0A) b) env)"

definition v2ResolveWS :: "environment \<Rightarrow> string option" where
  "v2ResolveWS env =
     (let direct = trim_space (getenv_of env ''ALCHEMY_WS_URL''); key = trim_space (getenv_of env ''ALCHEMY_API_KEY'') in
      if direct \<noteq> [] then Some direct else if key = [] then None
      else Some (''wss://eth-mainnet.g.alchemy.com/v2/'' @ key))"

definition v2ResolveHTTP :: "environment \<Rightarrow> string option" where
  "v2ResolveHTTP env =
     (let direct = trim_space (getenv_of env ''ALCHEMY_HTTP_URL''); key = trim_space (getenv_of env ''ALCHEMY_API_KEY'');
          ws = trim_space (getenv_of env ''ALCHEMY_WS_URL'')
      in if direct \<noteq> [] then Some direct
         else if key \<noteq> [] then Some (''https://eth-mainnet.g.alchemy.com/v2/'' @ key)
         else if has_prefix ws ''wss://'' then Some (''https://'' @ drop 6 ws)
         else if has_prefix ws ''ws://'' then Some (''http://'' @ drop 5 ws)
         else None)"

definition v2DialRPC :: "(string \<Rightarrow> eth_call option) \<Rightarrow> environment \<Rightarrow> eth_call option" where
  "v2DialRPC rpc_dial env = (case v2ResolveHTTP env of None \<Rightarrow> None | Some url \<Rightarrow> rpc_dial url)"

subsection \<open>Pools\<close>

record v2GeckoPool =
  vg_Dex :: string
  vg_PairName :: string
  vg_PoolID :: string
  vg_PoolAddress :: string
  vg_Network :: string
  vg_Token0 :: "int script_token"
  vg_Token1 :: "int script_token"

record v2PoolMeta =
  vp_Addr :: address
  vp_PairName :: string
  vp_Symbol0 :: string
  vp_Symbol1 :: string
  vp_Address0 :: address
  vp_Address1 :: address
  vp_Decimals0 :: int
  vp_Decimals1 :: int
  vp_BaseIs0 :: bool
  vp_LastPrice :: "rat option"
  vp_GotFirst :: bool
  vp_HasStable :: bool
  vp_HasWETH :: bool
  vp_StableSym :: string

type_synonym v2_pools = "(address, v2PoolMeta) gomap"

definition v2WETHAddress :: string where
  "v2WETHAddress = ''0xC02aaA39b223FE8D0A0e5C4F27eAD9083C756Cc2''"

definition v2Stable :: "string \<Rightarrow> bool" where
  "v2Stable s \<longleftrightarrow> s \<in> set [''USDC'', ''USDT'', ''DAI'', ''TUSD'', ''FDUSD'', ''USDD'']"

definition v2StableAddr :: "string \<rightharpoonup> string" where
  "v2StableAddr = map_of
     [(to_lower ''0xa0b86991c6218b36c1d19d4a2e9eb0ce3606eb48'', ''USDC''),
      (to_lower ''0xdac17f958d2ee523a2206206994597c13d831ec7'', ''USDT''),
      (to_lower ''0x6b175474e89094c44da98b954eedeac495271d0f'', ''DAI''),
      (to_lower ''0x0000000000085d4780B73119b644AE5ecd22b376'', ''TUSD'')]"

text \<open>The symbol and the decimals of the known tokens; the two marks of the table are read by nothing.\<close>

definition v2Canonical :: "string \<rightharpoonup> string \<times> int" where
  "v2Canonical = map_of
     [(to_lower v2WETHAddress, (''WETH'', 18)),
      (to_lower ''0xa0b86991c6218b36c1d19d4a2e9eb0ce3606eb48'', (''USDC'', 6)),
      (to_lower ''0xdac17f958d2ee523a2206206994597c13d831ec7'', (''USDT'', 6)),
      (to_lower ''0x6b175474e89094c44da98b954eedeac495271d0f'', (''DAI'', 18)),
      (to_lower ''0xc011a73ee8576fb46f5e1c5751ca3b9fe0af2a6f'', (''SNX'', 18)),
      (to_lower ''0x514910771af9ca656af840dff83e8264ecf986ca'', (''LINK'', 18)),
      (to_lower ''0x1f9840a85d5af5bf1d1762f925bdaddc4201f984'', (''UNI'', 18)),
      (to_lower ''0x45804880De22913dAFE09f4980848ECE6EcbAf78'', (''PAXG'', 18)),
      (to_lower ''0x6982508145454Ce325dDbE47a25d4ec3d2311933'', (''PEPE'', 18)),
      (to_lower ''0xe53e4fc4b6d00a15bfa499648a87d51c22940f70'', (''SUPER'', 18))]"

text \<open>The ellipsis in the middle is three bytes.\<close>

definition v2ShortAddr :: "string \<Rightarrow> string" where
  "v2ShortAddr a0 =
     (let a = trim_prefix (to_lower a0) ''0x'' in
      if length a < 8 then a
      else to_upper (take 4 a @ [CHR 0xE2, CHR 0x80, CHR 0xA6] @ drop (length a - 4) a))"

definition side_symbol :: "string \<Rightarrow> string \<Rightarrow> string" where
  "side_symbol addr symbol =
     (let s = to_upper symbol;
          s = (if s = [] then (case v2StableAddr (to_lower addr) of Some name \<Rightarrow> name | None \<Rightarrow> s) else s);
          s = (if s = [] \<and> equal_fold addr v2WETHAddress then ''WETH'' else s);
          s = (if s = [] then v2ShortAddr addr else s)
      in case v2Canonical (to_lower addr) of Some (name, _) \<Rightarrow> name | None \<Rightarrow> s)"

definition side_decimals :: "string \<Rightarrow> string \<Rightarrow> int \<Rightarrow> int" where
  "side_decimals addr symbol dec =
     (let s = side_symbol addr symbol;
          d = (case v2Canonical (to_lower addr) of Some (_, c) \<Rightarrow> if dec = 0 then c else dec | None \<Rightarrow> dec)
      in if d = 0 then
           (if equal_fold addr v2WETHAddress then 18
            else if v2Stable s then (if s = ''USDC'' \<or> s = ''USDT'' then 6 else 18)
            else 18)
         else d)"

definition v2SwapPoolMeta :: "v2PoolMeta \<Rightarrow> v2PoolMeta" where
  "v2SwapPoolMeta pm =
     pm\<lparr>vp_Address0 := vp_Address1 pm, vp_Address1 := vp_Address0 pm, vp_Symbol0 := vp_Symbol1 pm, vp_Symbol1 := vp_Symbol0 pm,
       vp_Decimals0 := vp_Decimals1 pm, vp_Decimals1 := vp_Decimals0 pm, vp_LastPrice := None\<rparr>"

definition v2EnsurePoolOrder :: "eth_call \<Rightarrow> v2PoolMeta \<Rightarrow> (rpc_error, unit) result \<times> v2PoolMeta" where
  "v2EnsurePoolOrder call pm =
     (case fetchPairTokens call (vp_Addr pm) of Inl e \<Rightarrow> (Inl e, pm)
      | Inr (actual0, actual1) \<Rightarrow>
          if actual0 = vp_Address0 pm \<and> actual1 = vp_Address1 pm then (Inr (), pm)
          else if actual0 = vp_Address1 pm \<and> actual1 = vp_Address0 pm then (Inr (), v2SwapPoolMeta pm)
          else (Inl (TokenMismatch actual0 actual1), pm))"

definition is_weth :: "eth_lib \<Rightarrow> address \<Rightarrow> bool" where
  "is_weth E a \<longleftrightarrow> equal_fold (eth_Hex E a) v2WETHAddress"

text \<open>The kind of a pool and its base; two stable tokens, or none and no WETH, are of no use.\<close>

definition classify_pool :: "eth_lib \<Rightarrow> v2PoolMeta \<Rightarrow> v2PoolMeta option" where
  "classify_pool E pm =
     (let stable0 = v2Stable (vp_Symbol0 pm); stable1 = v2Stable (vp_Symbol1 pm);
          hasWETH0 = is_weth E (vp_Address0 pm); hasWETH1 = is_weth E (vp_Address1 pm);
          hasStable = (stable0 \<or> stable1); hasWETH = (hasWETH0 \<or> hasWETH1)
      in if stable0 \<and> stable1 then None
         else if \<not> stable0 \<and> \<not> stable1 \<and> \<not> hasWETH0 \<and> \<not> hasWETH1 then None
         else Some (pm\<lparr>vp_HasStable := hasStable, vp_HasWETH := hasWETH,
           vp_StableSym := (if stable0 then vp_Symbol0 pm else if stable1 then vp_Symbol1 pm else []),
           vp_BaseIs0 :=
             (if hasWETH \<and> hasStable then
                (if hasWETH0 \<and> stable1 then True else if stable0 \<and> hasWETH1 then False else if hasWETH0 then True else False)
              else if hasStable \<and> \<not> hasWETH then \<not> stable0
              else if hasWETH \<and> \<not> hasStable then \<not> hasWETH0
              else True)\<rparr>))"

definition v2_load_entry :: "eth_lib \<Rightarrow> eth_call option \<Rightarrow> v2GeckoPool \<Rightarrow> v2_pools \<Rightarrow> v2_pools" where
  "v2_load_entry E rpc e pools =
     (let addrHex = (if vg_PoolID e = [] then vg_PoolAddress e else vg_PoolID e);
          t0 = vg_Token0 e; t1 = vg_Token1 e; addr = eth_HexToAddress E addrHex
      in if \<not> equal_fold (vg_Dex e) ''uniswap_v2'' then pools
         else if \<not> contains (to_lower (vg_Network e)) ''eth'' then pools
         else if \<not> eth_IsHexAddress E addrHex then pools
         else let pm = \<lparr>vp_Addr = addr, vp_PairName = vg_PairName e, vp_Symbol0 = side_symbol (st_Address t0) (st_Symbol t0),
                  vp_Symbol1 = side_symbol (st_Address t1) (st_Symbol t1), vp_Address0 = eth_HexToAddress E (st_Address t0),
                  vp_Address1 = eth_HexToAddress E (st_Address t1),
                  vp_Decimals0 = side_decimals (st_Address t0) (st_Symbol t0) (st_Decimals t0),
                  vp_Decimals1 = side_decimals (st_Address t1) (st_Symbol t1) (st_Decimals t1), vp_BaseIs0 = False,
                  vp_LastPrice = None, vp_GotFirst = False, vp_HasStable = False, vp_HasWETH = False, vp_StableSym = []\<rparr>;
              pm = (case rpc of None \<Rightarrow> pm | Some call \<Rightarrow> snd (v2EnsurePoolOrder call pm))
           in case classify_pool E pm of None \<Rightarrow> pools | Some pm \<Rightarrow> mput addr pm pools)"

definition v2HardWethStable :: "(string \<times> string) list" where
  "v2HardWethStable =
     [(''0xB4e16d0168e52d35CaCD2c6185b44281Ec28C9Dc'', ''USDC''),
      (''0x0d4a11d5EEaaC28EC3F61d100daf4d40471f1852'', ''USDT''),
      (''0xA478c2975Ab1Ea89e8196811F51A7B7Ade33eB11'', ''DAI'')]"

definition v2StableAddressForSymbol :: "string \<Rightarrow> string" where
  "v2StableAddressForSymbol s =
     (let up = to_upper s in
      if up = ''USDC'' then ''0xa0b86991c6218b36c1d19d4a2e9eb0ce3606eb48''
      else if up = ''USDT'' then ''0xdac17f958d2ee523a2206206994597c13d831ec7''
      else if up = ''DAI'' then ''0x6b175474e89094c44da98b954eedeac495271d0f''
      else if up = ''TUSD'' then ''0x0000000000085d4780B73119b644AE5ecd22b376'' else [])"

definition v2_hard_pool :: "eth_lib \<Rightarrow> address \<Rightarrow> string \<Rightarrow> v2PoolMeta option" where
  "v2_hard_pool E addr coin =
     (let stAddr = eth_HexToAddress E (v2StableAddressForSymbol coin); weth = eth_HexToAddress E v2WETHAddress;
          pm = \<lparr>vp_Addr = addr, vp_PairName = coin @ '' / WETH (hard)'', vp_Symbol0 = coin, vp_Symbol1 = ''WETH'',
            vp_Address0 = stAddr, vp_Address1 = weth, vp_Decimals0 = 18, vp_Decimals1 = 18, vp_BaseIs0 = False, vp_LastPrice = None,
            vp_GotFirst = False, vp_HasStable = True, vp_HasWETH = True, vp_StableSym = coin\<rparr>
      in if coin = ''USDC'' then Some (pm\<lparr>vp_Decimals0 := 6\<rparr>)
         else if coin = ''USDT'' then
           Some (pm\<lparr>vp_PairName := ''WETH / USDT (hard)'', vp_Symbol0 := ''WETH'', vp_Symbol1 := ''USDT'', vp_Address0 := weth,
             vp_Address1 := stAddr, vp_Decimals1 := 6, vp_BaseIs0 := True\<rparr>)
         else if coin = ''DAI'' then Some pm else None)"

definition v2_load_hard :: "eth_lib \<Rightarrow> string \<times> string \<Rightarrow> v2_pools \<Rightarrow> v2_pools" where
  "v2_load_hard E hw pools =
     (let addr = eth_HexToAddress E (fst hw) in
      if map_of pools addr \<noteq> None then pools
      else case v2_hard_pool E addr (snd hw) of None \<Rightarrow> pools | Some pm \<Rightarrow> mput addr pm pools)"

datatype v2_script_error = PathNotProvided | FileUnreadable | FileUndecodable | NoV2Pools

definition v2LoadPools ::
    "eth_lib \<Rightarrow> (string \<Rightarrow> eth_call option) \<Rightarrow> environment \<Rightarrow> (string \<Rightarrow> string option) \<Rightarrow> (string \<Rightarrow> v2GeckoPool list option)
     \<Rightarrow> (v2_script_error, v2_pools) result" where
  "v2LoadPools E rpc_dial env read_file decode =
     (let path = getenv_of env ''GECKO_POOLS_JSON'' in
      if path = [] then Inl PathNotProvided
      else case read_file path of None \<Rightarrow> Inl FileUnreadable
      | Some b \<Rightarrow> (case decode b of None \<Rightarrow> Inl FileUndecodable
         | Some entries \<Rightarrow>
             Inr (fold (v2_load_hard E) v2HardWethStable (fold (v2_load_entry E (v2DialRPC rpc_dial env)) entries []))))"

subsection \<open>Prices\<close>

definition v2TenPow :: "int \<Rightarrow> int" where
  "v2TenPow dec = (if dec \<le> 0 then 1 else 10 ^ nat dec)"

definition v2Ratio :: "int \<Rightarrow> int \<Rightarrow> int \<Rightarrow> int \<Rightarrow> rat option" where
  "v2Ratio num numDec den denDec =
     (if den = 0 then None
      else Some ((of_int num / of_int (v2TenPow numDec)) / (of_int den / of_int (v2TenPow denDec))))"

definition v2Price :: "v2PoolMeta \<Rightarrow> int \<Rightarrow> int \<Rightarrow> rat option" where
  "v2Price meta r0 r1 =
     (if r0 = 0 \<or> r1 = 0 then None
      else if vp_BaseIs0 meta then v2Ratio r1 (vp_Decimals1 meta) r0 (vp_Decimals0 meta)
      else v2Ratio r0 (vp_Decimals0 meta) r1 (vp_Decimals1 meta))"

definition v2Invert :: "rat \<Rightarrow> rat option" where
  "v2Invert r = (if r = 0 then None else Some (1 / r))"

definition v2Base :: "v2PoolMeta \<Rightarrow> string" where
  "v2Base m = (if vp_BaseIs0 m then vp_Symbol0 m else vp_Symbol1 m)"

definition v2Quote :: "v2PoolMeta \<Rightarrow> string" where
  "v2Quote m = (if vp_BaseIs0 m then vp_Symbol1 m else vp_Symbol0 m)"

definition v2TokenSymbol :: "eth_lib \<Rightarrow> v2PoolMeta \<Rightarrow> string" where
  "v2TokenSymbol E m =
     (if vp_HasStable m \<and> \<not> vp_HasWETH m \<and> v2Stable (vp_Symbol0 m) then vp_Symbol1 m
      else if vp_HasStable m \<and> \<not> vp_HasWETH m \<and> v2Stable (vp_Symbol1 m) then vp_Symbol0 m
      else if vp_HasWETH m \<and> \<not> vp_HasStable m \<and> is_weth E (vp_Address0 m) then vp_Symbol1 m
      else if vp_HasWETH m \<and> \<not> vp_HasStable m \<and> is_weth E (vp_Address1 m) then vp_Symbol0 m
      else v2Base m)"

definition v2IsTokenBase :: "eth_lib \<Rightarrow> v2PoolMeta \<Rightarrow> bool" where
  "v2IsTokenBase E m \<longleftrightarrow>
     (vp_HasWETH m \<and> \<not> vp_HasStable m \<and>
       (vp_BaseIs0 m \<and> \<not> is_weth E (vp_Address0 m) \<or> \<not> vp_BaseIs0 m \<and> \<not> is_weth E (vp_Address1 m))) \<or>
     (vp_HasStable m \<and> \<not> vp_HasWETH m \<and>
       (vp_BaseIs0 m \<and> \<not> v2Stable (vp_Symbol0 m) \<or> \<not> vp_BaseIs0 m \<and> \<not> v2Stable (vp_Symbol1 m)))"

text \<open>The text of a price is that of the other scripts.\<close>

definition v2Format :: "rat \<Rightarrow> nat \<Rightarrow> string" where
  "v2Format r prec = v4Format r prec"

subsection \<open>The state of the process\<close>

text \<open>Lines: a price, a price in dollars by way of WETH, a price that waits for one of WETH, an implausible one, the dollar value
  of a token, and a new or rejected price of WETH. The last two numbers of a line are block and transaction.\<close>

datatype v2_line =
    PriceLine string string string string "64 word" string
  | ViaWethLine string string string string "64 word" string
  | WaitLine string "64 word"
  | UnrealisticLine string string string
  | UsdLine string string string string "64 word"
  | WethLine string string string
  | WethRejected string string string

record v2_script_state =
  vs_pools :: v2_pools
  vs_WETHUSD :: "rat option"
  vs_WETHUSDStable :: string
  vs_EventsProcessed :: int
  vs_lines :: "v2_line list"
  vs_exited :: bool

record v2_flags =
  vf_NeedDistinct :: int
  vf_Once :: bool
  vf_EventLimit :: int

definition add_line :: "v2_line \<Rightarrow> v2_script_state \<Rightarrow> v2_script_state" where
  "add_line l st = st\<lparr>vs_lines := vs_lines st @ [l]\<rparr>"

definition v2_prio :: "string \<Rightarrow> nat" where
  "v2_prio s = (if s = ''USDC'' then 3 else if s = ''USDT'' then 2 else if s = ''DAI'' then 1 else 0)"

definition v2ShouldUpdateWETH :: "v2_script_state \<Rightarrow> string \<Rightarrow> bool" where
  "v2ShouldUpdateWETH st coin =
     (if coin = [] then False
      else if vs_WETHUSD st = None then True
      else if vs_WETHUSDStable st = ''USDC'' then False
      else if vs_WETHUSDStable st = ''USDT'' \<and> coin = ''DAI'' then False
      else v2_prio coin > v2_prio (vs_WETHUSDStable st))"

definition v2SanityWETHUSD :: "v2_script_state \<Rightarrow> rat option \<Rightarrow> bool" where
  "v2SanityWETHUSD st price =
     (case price of None \<Rightarrow> False
      | Some p \<Rightarrow>
          if p \<le> 0 then False
          else let f = rat_float64 p in
            if f < Fin 300 \<or> Fin 100000 < f then False
            else (case vs_WETHUSD st of None \<Rightarrow> True
              | Some w \<Rightarrow>
                  (let curF = rat_float64 w in
                   if 0 < curF then \<not> (f / curF < Fin (1 / 2) \<or> Fin 2 < f / curF) else True)))"

definition v2TokenUSD :: "eth_lib \<Rightarrow> v2_script_state \<Rightarrow> v2PoolMeta \<Rightarrow> rat \<Rightarrow> (rat option \<times> string \<times> string) option" where
  "v2TokenUSD E st meta price =
     (if vp_HasWETH meta \<and> vp_HasStable meta then None
      else if vp_HasStable meta \<and> \<not> vp_HasWETH meta then
        (if v2Stable (v2Base meta) then Some (v2Invert price, vp_StableSym meta, ''direct-inv'')
         else Some (Some price, vp_StableSym meta, ''direct''))
      else if vp_HasWETH meta \<and> \<not> vp_HasStable meta then
        (case vs_WETHUSD st of None \<Rightarrow> None
         | Some w \<Rightarrow>
             if v2IsTokenBase E meta then Some (Some (price * w), vs_WETHUSDStable st, ''derived'')
             else (case v2Invert price of None \<Rightarrow> None
               | Some i \<Rightarrow> Some (Some (i * w), vs_WETHUSDStable st, ''derived-inv'')))
      else None)"

subsection \<open>Publishing\<close>

definition v2CheckExit :: "v2_flags \<Rightarrow> v2_script_state \<Rightarrow> v2_script_state" where
  "v2CheckExit F st =
     (if \<not> vf_Once F then st
      else let distinct_bases = remdups (map (\<lambda>(_, pm). v2Base pm) (filter (\<lambda>(_, pm). vp_GotFirst pm) (vs_pools st))) in
        if int (length distinct_bases) \<ge> vf_NeedDistinct F then st\<lparr>vs_exited := True\<rparr> else st)"

definition first_price :: "v2_flags \<Rightarrow> address \<Rightarrow> v2PoolMeta \<Rightarrow> v2_script_state \<Rightarrow> v2_script_state" where
  "first_price F addr meta st =
     (if vp_GotFirst meta then st
      else v2CheckExit F (st\<lparr>vs_pools := mput addr (meta\<lparr>vp_GotFirst := True\<rparr>) (vs_pools st)\<rparr>))"

text \<open>A pool of WETH and a stable token sets the price of WETH.\<close>

definition update_weth :: "eth_lib \<Rightarrow> v2PoolMeta \<Rightarrow> rat \<Rightarrow> v2_script_state \<Rightarrow> v2_script_state" where
  "update_weth E meta price st =
     (if \<not> (vp_HasWETH meta \<and> vp_HasStable meta) then st
      else let wethUsd =
          (if vp_BaseIs0 meta \<and> is_weth E (vp_Address0 meta) \<or> \<not> vp_BaseIs0 meta \<and> is_weth E (vp_Address1 meta)
           then Some price else v2Invert price)
      in case wethUsd of None \<Rightarrow> st
      | Some w \<Rightarrow>
          if v2SanityWETHUSD st (Some w) \<and> v2ShouldUpdateWETH st (vp_StableSym meta) then
            add_line (WethLine (v2Format w 8) (vp_StableSym meta) (vp_PairName meta))
              (st\<lparr>vs_WETHUSD := Some w, vs_WETHUSDStable := vp_StableSym meta\<rparr>)
          else if \<not> v2SanityWETHUSD st (Some w) then
            add_line (WethRejected (v2Format w 8) (vp_StableSym meta) (vp_PairName meta)) st
          else st)"

text \<open>The end of \<open>v2Publish\<close>, for a price that has been printed.\<close>

definition token_usd :: "eth_lib \<Rightarrow> v2_flags \<Rightarrow> 64 word \<Rightarrow> address \<Rightarrow> v2PoolMeta \<Rightarrow> rat \<Rightarrow> v2_script_state \<Rightarrow> v2_script_state" where
  "token_usd E F block addr meta price st0 =
     (let st = update_weth E meta price st0 in
      first_price F addr meta
        (case v2TokenUSD E st meta price of
           Some (Some usd, coin, mode) \<Rightarrow>
             (if vp_HasWETH meta \<and> \<not> vp_HasStable meta then st
              else add_line (UsdLine (v2TokenSymbol E meta) (v2Format usd 8) coin mode block) st)
         | _ \<Rightarrow> st))"

record v2LogItem =
  vl_Address :: string
  vl_Data :: string
  vl_Topics :: "string list"
  vl_BlockNumber :: string
  vl_TransactionHash :: string
  vl_Removed :: bool

text \<open>A pool of a token and WETH: the dollar price of the token.\<close>

definition publish_via_weth ::
    "eth_lib \<Rightarrow> v2_flags \<Rightarrow> 64 word \<Rightarrow> address \<Rightarrow> v2PoolMeta \<Rightarrow> rat \<Rightarrow> v2LogItem \<Rightarrow> int \<Rightarrow> int \<Rightarrow> v2_script_state \<Rightarrow> v2_script_state" where
  "publish_via_weth E F block addr meta price l r0 r1 st =
     (case vs_WETHUSD st of None \<Rightarrow>
        (let st = first_price F addr meta st in if vs_exited st then st else add_line (WaitLine (vp_PairName meta) block) st)
      | Some w \<Rightarrow>
          if \<not> is_weth E (vp_Address0 meta) \<and> \<not> is_weth E (vp_Address1 meta) then st
          else let (reserveWeth, decWeth, reserveToken, decToken) =
                (if is_weth E (vp_Address0 meta) then (r0, vp_Decimals0 meta, r1, vp_Decimals1 meta)
                 else (r1, vp_Decimals1 meta, r0, vp_Decimals0 meta))
          in if reserveToken = 0 \<or> reserveWeth = 0 then st
             else let usd = (of_int reserveWeth / of_int (v2TenPow decWeth)) / (of_int reserveToken / of_int (v2TenPow decToken)) * w in
               if Fin 100000 < rat_float64 usd then
                 add_line (UnrealisticLine (v2TokenSymbol E meta) (v2Format usd 8) (vp_PairName meta)) st
               else token_usd E F block addr meta price
                 (add_line (ViaWethLine (vp_PairName meta) (v2TokenSymbol E meta) (v2Format usd 8) (vs_WETHUSDStable st) block
                    (vl_TransactionHash l)) st))"

text \<open>The deferred exit at the limit of events takes place whichever way the function returns.\<close>

definition v2Publish ::
    "eth_lib \<Rightarrow> (string \<Rightarrow> 64 word) \<Rightarrow> v2_flags \<Rightarrow> address \<Rightarrow> v2PoolMeta \<Rightarrow> rat option \<Rightarrow> v2LogItem \<Rightarrow> int \<Rightarrow> int
     \<Rightarrow> v2_script_state \<Rightarrow> v2_script_state" where
  "v2Publish E v2Block F addr meta0 price l r0 r1 st =
     (case price of None \<Rightarrow> st
      | Some p \<Rightarrow>
          if (case vp_LastPrice meta0 of None \<Rightarrow> False
              | Some last_price \<Rightarrow> p - last_price = 0 \<or> \<bar>p - last_price\<bar> < last_price / 10000) then st
          else let meta = meta0\<lparr>vp_LastPrice := Some p\<rparr>; block = v2Block (vl_BlockNumber l);
                   st = st\<lparr>vs_pools := mput addr meta (vs_pools st), vs_EventsProcessed := vs_EventsProcessed st + 1\<rparr>;
                   limit = (vf_EventLimit F > 0 \<and> vs_EventsProcessed st \<ge> vf_EventLimit F);
                   st = (if vp_HasWETH meta \<and> \<not> vp_HasStable meta then publish_via_weth E F block addr meta p l r0 r1 st
                     else token_usd E F block addr meta p
                       (add_line (PriceLine (vp_PairName meta) (v2Base meta) (v2Format p 8) (v2Quote meta) block (vl_TransactionHash l)) st))
               in if limit then st\<lparr>vs_exited := True\<rparr> else st)"

definition v2SyncSig :: "eth_lib \<Rightarrow> hash" where
  "v2SyncSig E = eth_HexToHash E ''0x1c411e9a96e071241c2f21f7726b17ae89e3cab4c78be50e062b03a9fffbbad1''"

definition v2Process :: "eth_lib \<Rightarrow> (string \<Rightarrow> 64 word) \<Rightarrow> v2_flags \<Rightarrow> v2LogItem \<Rightarrow> v2_script_state \<Rightarrow> v2_script_state" where
  "v2Process E v2Block F l st =
     (if vl_Removed l \<or> vl_Topics l = [] then st
      else if eth_HexToHash E (hd (vl_Topics l)) \<noteq> v2SyncSig E then st
      else let addr = eth_HexToAddress E (vl_Address l) in
      case map_of (vs_pools st) addr of None \<Rightarrow> st
      | Some meta \<Rightarrow>
          if length (vl_Data l) < 130 then st
          else (case hex_decode (trim_prefix (vl_Data l) ''0x'') of None \<Rightarrow> st
            | Some raw \<Rightarrow>
                if length raw < 64 then st
                else let r0 = set_bytes (take 32 raw); r1 = set_bytes (take 32 (drop 32 raw)) in
                  v2Publish E v2Block F addr meta (v2Price meta r0 r1) l r0 r1 st))"

subsection \<open>Frames, sessions and the run loop\<close>

record v2SubNote =
  vn_Method :: string
  vn_Result :: v2LogItem

record v2_script_frame =
  vr_ack :: "v4SubAck option"
  vr_note :: "v2SubNote option"

definition v2TryAck :: "v4SubAck option \<Rightarrow> v4SubAck option" where
  "v2TryAck decoded =
     (case decoded of None \<Rightarrow> None | Some a \<Rightarrow> if sk_Result a = [] \<and> sk_Error a = None then None else Some a)"

definition v2TryNote :: "v2SubNote option \<Rightarrow> v2SubNote option" where
  "v2TryNote decoded =
     (case decoded of None \<Rightarrow> None | Some n \<Rightarrow> if \<not> equal_fold (vn_Method n) ''eth_subscription'' then None else Some n)"

definition v2Handle :: "eth_lib \<Rightarrow> (string \<Rightarrow> 64 word) \<Rightarrow> v2_flags \<Rightarrow> v2_script_frame \<Rightarrow> v2_script_state \<Rightarrow> v2_script_state" where
  "v2Handle E v2Block F raw st =
     (case v2TryAck (vr_ack raw) of Some _ \<Rightarrow> st
      | None \<Rightarrow> (case v2TryNote (vr_note raw) of None \<Rightarrow> st | Some n \<Rightarrow> v2Process E v2Block F (vn_Result n) st))"

datatype v2_script_event = VMessage v2_script_frame | VClosed | VReadError | VInterrupt | VTimeout

datatype v2_script_end = VRunning | VReconnect | VInterrupted | VExited

fun v2_inner ::
    "eth_lib \<Rightarrow> (string \<Rightarrow> 64 word) \<Rightarrow> v2_flags \<Rightarrow> v2_script_event list \<Rightarrow> v2_script_state \<Rightarrow> v2_script_end \<times> v2_script_state" where
  "v2_inner E B F [] st = (VRunning, st)"
| "v2_inner E B F (VMessage raw # es) st =
     (let st = v2Handle E B F raw st in if vs_exited st then (VExited, st) else v2_inner E B F es st)"
| "v2_inner E B F (VInterrupt # es) st = (VInterrupted, st)"
| "v2_inner E B F (e # es) st = (VReconnect, st)"

definition v2BatchSize :: nat where "v2BatchSize = 150"

definition v2SubscribeAll :: "(int \<Rightarrow> bool) \<Rightarrow> string list \<Rightarrow> bool \<times> rpcRequest list" where
  "v2SubscribeAll writes addresses =
     (let reqs = subscribe_batches (v2BatchSize - 1) 1 addresses; sent = takeWhile (\<lambda>r. writes (fst r)) reqs
      in (length sent = length reqs, sent))"

definition v2NextBackoff :: "int \<Rightarrow> int \<Rightarrow> int" where
  "v2NextBackoff cur limit = (let n = cur * 2 in if n > limit then limit else n)"

text \<open>One pass of the outer loop. A pass without an endpoint pauses without a longer delay.\<close>

record v2_script_round =
  vo_interrupted :: bool
  vo_dial :: bool
  vo_writes :: "int \<Rightarrow> bool"
  vo_events :: "v2_script_event list"

fun v2RunLoop ::
    "eth_lib \<Rightarrow> (string \<Rightarrow> 64 word) \<Rightarrow> v2_flags \<Rightarrow> environment \<Rightarrow> string list \<Rightarrow> v2_script_round list \<Rightarrow> int \<Rightarrow> v2_script_state
     \<Rightarrow> run_action list \<times> v2_script_end \<times> v2_script_state" where
  "v2RunLoop E B F env addresses [] backoff st = ([], VRunning, st)"
| "v2RunLoop E B F env addresses (r # rs) backoff st =
     (if vo_interrupted r then ([], VInterrupted, st)
      else if v2ResolveWS env = None then
        (let (acts, res) = v2RunLoop E B F env addresses rs backoff st in (Sleep backoff # acts, res))
      else if \<not> vo_dial r then
        (let (acts, res) = v2RunLoop E B F env addresses rs (v2NextBackoff backoff (15 * second)) st in (Sleep backoff # acts, res))
      else let (ok, sent) = v2SubscribeAll (vo_writes r) addresses in
        if \<not> ok then
          (let (acts, res) = v2RunLoop E B F env addresses rs (v2NextBackoff second (15 * second)) st
           in (map Sent sent @ Sleep second # acts, res))
        else (case v2_inner E B F (vo_events r) st of
           (VReconnect, st) \<Rightarrow>
             (let next = v2NextBackoff second (15 * second); (acts, res) = v2RunLoop E B F env addresses rs next st
              in (map Sent sent @ Sleep next # acts, res))
         | (other, st) \<Rightarrow> (map Sent sent, other, st)))"

definition v2_start :: "v2_pools \<Rightarrow> v2_script_state" where
  "v2_start pools = \<lparr>vs_pools = pools, vs_WETHUSD = None, vs_WETHUSDStable = [], vs_EventsProcessed = 0, vs_lines = [], vs_exited = False\<rparr>"

text \<open>\<open>order\<close> is the order of the range over the pools.\<close>

definition v2_main ::
    "eth_lib \<Rightarrow> (string \<Rightarrow> 64 word) \<Rightarrow> (string \<Rightarrow> eth_call option) \<Rightarrow> (string \<Rightarrow> string option) \<Rightarrow> (string \<Rightarrow> v2GeckoPool list option)
     \<Rightarrow> (v2_pools \<Rightarrow> address list) \<Rightarrow> v2_flags \<Rightarrow> environment \<Rightarrow> v2_script_round list
     \<Rightarrow> (v2_script_error, run_action list \<times> v2_script_end \<times> v2_script_state) result" where
  "v2_main E v2Block rpc_dial read_file decode order F env0 rs =
     (let env = v2LoadDotEnv read_file ''.env'' env0 in
      bind_res (v2LoadPools E rpc_dial env read_file decode) (\<lambda>pools.
        if pools = [] then Inl NoV2Pools
        else Inr (v2RunLoop E v2Block F env (map (eth_Hex E) (order pools)) rs second (v2_start pools))))"

subsection \<open>Lemmas: the price of WETH\<close>

definition weth_lines :: "v2_script_state \<Rightarrow> nat" where
  "weth_lines st = length (filter (\<lambda>l. case l of WethLine _ _ _ \<Rightarrow> True | _ \<Rightarrow> False) (vs_lines st))"

definition plausible :: "rat \<Rightarrow> bool" where
  "plausible w \<longleftrightarrow> 0 < w \<and> \<not> rat_float64 w < Fin 300 \<and> \<not> Fin 100000 < rat_float64 w"

definition weth_ok :: "v2_script_state \<Rightarrow> bool" where
  "weth_ok st \<longleftrightarrow> (case vs_WETHUSD st of None \<Rightarrow> weth_lines st = 0
     | Some w \<Rightarrow> plausible w \<and> vs_WETHUSDStable st \<noteq> [] \<and> weth_lines st \<le> Suc (v2_prio (vs_WETHUSDStable st)))"

named_theorems weth_simps

lemma weth_ok_frame [weth_simps]:
  "weth_ok (st\<lparr>vs_pools := ps\<rparr>) = weth_ok st" "weth_ok (st\<lparr>vs_exited := b\<rparr>) = weth_ok st"
  "weth_ok (st\<lparr>vs_EventsProcessed := n\<rparr>) = weth_ok st"
  by (simp_all add: weth_ok_def weth_lines_def split: option.split)

lemma weth_ok_line [weth_simps]:
  "(case l of WethLine _ _ _ \<Rightarrow> False | _ \<Rightarrow> True) \<Longrightarrow> weth_ok (add_line l st) = weth_ok st"
  by (cases l) (simp_all add: weth_ok_def weth_lines_def add_line_def split: option.split)

lemma weth_ok_first [weth_simps]: "weth_ok (first_price F addr meta st) = weth_ok st"
  by (simp add: first_price_def v2CheckExit_def Let_def weth_simps)

lemma v2_prio_le: "v2_prio s \<le> 3"
  by (simp add: v2_prio_def)

lemma weth_ok_set:
  assumes "weth_ok st" and "v2SanityWETHUSD st (Some w)" and "v2ShouldUpdateWETH st coin"
  shows "weth_ok (add_line (WethLine a b c) (st\<lparr>vs_WETHUSD := Some w, vs_WETHUSDStable := coin\<rparr>))"
proof -
  have "plausible w" using assms(2) by (simp add: v2SanityWETHUSD_def plausible_def Let_def split: if_splits)
  moreover have "coin \<noteq> []" using assms(3) by (simp add: v2ShouldUpdateWETH_def split: if_splits)
  moreover have "weth_lines st \<le> v2_prio coin"
  proof (cases "vs_WETHUSD st")
    case (Some v)
    with assms(3) have "v2_prio (vs_WETHUSDStable st) < v2_prio coin" by (simp add: v2ShouldUpdateWETH_def split: if_splits)
    with assms(1) Some show ?thesis by (simp add: weth_ok_def)
  qed (use assms(1) in \<open>simp add: weth_ok_def\<close>)
  ultimately show ?thesis by (simp add: weth_ok_def weth_lines_def add_line_def)
qed

lemma weth_ok_update: "weth_ok st \<Longrightarrow> weth_ok (update_weth E meta price st)"
  using weth_ok_set [of st _ "vp_StableSym meta"]
  by (auto simp: update_weth_def Let_def weth_simps split: option.split)

lemma weth_ok_token: "weth_ok st \<Longrightarrow> weth_ok (token_usd E F block addr meta price st)"
  by (auto simp: token_usd_def Let_def weth_simps weth_ok_update split: option.split)

lemma weth_ok_via: "weth_ok st \<Longrightarrow> weth_ok (publish_via_weth E F block addr meta price l r0 r1 st)"
  by (auto simp: publish_via_weth_def Let_def weth_simps weth_ok_token split: option.split)

lemma weth_ok_publish: "weth_ok st \<Longrightarrow> weth_ok (v2Publish E B F addr meta price l r0 r1 st)"
  by (auto simp: v2Publish_def Let_def weth_simps weth_ok_token weth_ok_via split: option.split)

lemma weth_ok_handle: "weth_ok st \<Longrightarrow> weth_ok (v2Handle E B F raw st)"
  by (auto simp: v2Handle_def v2Process_def Let_def weth_ok_publish split: option.split)

lemma weth_ok_inner: "weth_ok st \<Longrightarrow> weth_ok (snd (v2_inner E B F es st))"
  by (induction E B F es st rule: v2_inner.induct) (simp_all add: Let_def weth_ok_handle)

lemma weth_ok_run: "weth_ok st \<Longrightarrow> weth_ok (snd (snd (v2RunLoop E B F env addresses rs backoff st)))"
proof (induction E B F env addresses rs backoff st rule: v2RunLoop.induct)
  case (2 E B F env addresses r rs backoff st)
  obtain ok sent where s: "v2SubscribeAll (vo_writes r) addresses = (ok, sent)" by fastforce
  obtain e st' where i: "v2_inner E B F (vo_events r) st = (e, st')" by fastforce
  with weth_ok_inner [OF 2(5)] have "weth_ok st'" by (metis snd_conv)
  with 2 s i show ?case by (cases e) (auto simp: Let_def case_prod_beta)
qed simp


text \<open>An empty file of pools and one Sync log of the reference pool of USDC and WETH, with 2000 USDC for each WETH.\<close>

definition demo_sync :: v2_script_event where
  "demo_sync = VMessage \<lparr>vr_ack = None, vr_note = Some \<lparr>vn_Method = ''eth_subscription'', vn_Result =
     \<lparr>vl_Address = fst (hd v2HardWethStable), vl_Data = sync_data (2000 * 10 ^ 6) (10 ^ 18),
       vl_Topics = [''0x1c411e9a96e071241c2f21f7726b17ae89e3cab4c78be50e062b03a9fffbbad1''], vl_BlockNumber = ''0x1'',
       vl_TransactionHash = [], vl_Removed = False\<rparr>\<rparr>\<rparr>"

definition demo_environment :: environment where
  "demo_environment k = (if k = ''GECKO_POOLS_JSON'' then Some ''pools.json'' else if k = ''ALCHEMY_WS_URL'' then Some ''ws://node'' else None)"

definition demo_run :: "(v2_script_error, run_action list \<times> v2_script_end \<times> v2_script_state) result" where
  "demo_run = v2_main plain_eth (\<lambda>_. 1) (\<lambda>_. None) (\<lambda>f. if f = ''.env'' then None else Some []) (\<lambda>_. Some []) (map fst)
     \<lparr>vf_NeedDistinct = 10, vf_Once = True, vf_EventLimit = 0\<rparr> demo_environment
     [\<lparr>vo_interrupted = False, vo_dial = True, vo_writes = (\<lambda>_. True), vo_events = [demo_sync]\<rparr>]"

lemma demo_weth: "is_weth plain_eth 0xC02aaA39b223FE8D0A0e5C4F27eAD9083C756Cc2"
proof -
  have "hex_digits 40 0xC02aaA39b223FE8D0A0e5C4F27eAD9083C756Cc2 = ''c02aaa39b223fe8d0a0e5c4f27ead9083c756cc2''" by code_simp
  then have "eth_Hex plain_eth 0xC02aaA39b223FE8D0A0e5C4F27eAD9083C756Cc2 = ''0x'' @ ''c02aaa39b223fe8d0a0e5c4f27ead9083c756cc2''"
    by (simp only: plain_eth_def eth_lib.simps) simp
  moreover have "equal_fold (''0x'' @ ''c02aaa39b223fe8d0a0e5c4f27ead9083c756cc2'') v2WETHAddress" by code_simp
  ultimately show ?thesis by (simp only: is_weth_def)
qed

definition usdc_pool :: v2PoolMeta where
  "usdc_pool = \<lparr>vp_Addr = 0xB4e16d0168e52d35CaCD2c6185b44281Ec28C9Dc, vp_PairName = ''USDC / WETH (hard)'', vp_Symbol0 = ''USDC'',
     vp_Symbol1 = ''WETH'', vp_Address0 = 0xA0b86991c6218b36c1d19D4a2e9Eb0cE3606eB48, vp_Address1 = 0xC02aaA39b223FE8D0A0e5C4F27eAD9083C756Cc2,
     vp_Decimals0 = 6, vp_Decimals1 = 18, vp_BaseIs0 = False, vp_LastPrice = None, vp_GotFirst = False, vp_HasStable = True,
     vp_HasWETH = True, vp_StableSym = ''USDC''\<rparr>"

lemma demo_hard_pools:
  "map_of (fold (v2_load_hard plain_eth) v2HardWethStable []) 0xB4e16d0168e52d35CaCD2c6185b44281Ec28C9Dc = Some usdc_pool"
proof -
  have "map_of (fold (v2_load_hard plain_eth) v2HardWethStable []) 0xB4e16d0168e52d35CaCD2c6185b44281Ec28C9Dc =
      v2_hard_pool plain_eth 0xB4e16d0168e52d35CaCD2c6185b44281Ec28C9Dc ''USDC''" by code_simp
  moreover have "eth_HexToAddress plain_eth v2WETHAddress = 0xC02aaA39b223FE8D0A0e5C4F27eAD9083C756Cc2"
    "eth_HexToAddress plain_eth (v2StableAddressForSymbol ''USDC'') = 0xA0b86991c6218b36c1d19D4a2e9Eb0cE3606eB48" by code_simp+
  ultimately show ?thesis by (simp add: v2_hard_pool_def usdc_pool_def)
qed

lemma demo_price: "v2Price usdc_pool (2000 * 10 ^ 6) (10 ^ 18) = Some 2000"
  by (simp add: v2Price_def v2Ratio_def v2TenPow_def usdc_pool_def)

lemma demo_sanity: "vs_WETHUSD st = None \<Longrightarrow> v2SanityWETHUSD st (Some 2000)"
proof -
  have "rat_float64 2000 = Fin 2000" by code_simp
  then show "vs_WETHUSD st = None \<Longrightarrow> v2SanityWETHUSD st (Some 2000)" by (simp add: v2SanityWETHUSD_def)
qed

lemma demo_processed:
  assumes "vs_WETHUSD st = None" and "map_of (vs_pools st) 0xB4e16d0168e52d35CaCD2c6185b44281Ec28C9Dc = Some usdc_pool"
    and "vf_EventLimit F = 0"
  shows "vs_WETHUSD (v2Publish plain_eth B F 0xB4e16d0168e52d35CaCD2c6185b44281Ec28C9Dc usdc_pool (Some 2000) l r0 r1 st) = Some 2000"
  using assms demo_weth
  by (simp add: v2Publish_def usdc_pool_def token_usd_def update_weth_def demo_sanity v2ShouldUpdateWETH_def add_line_def v2TokenUSD_def
      first_price_def v2CheckExit_def Let_def)

lemma demo_handled:
  assumes "demo_sync = VMessage raw" and "vs_WETHUSD st = None" and "vf_EventLimit F = 0"
    and "map_of (vs_pools st) 0xB4e16d0168e52d35CaCD2c6185b44281Ec28C9Dc = Some usdc_pool"
  shows "vs_WETHUSD (v2Handle plain_eth B F raw st) = Some 2000"
proof -
  obtain a b where d: "hex_decode (trim_prefix (sync_data (2000 * 10 ^ 6) (10 ^ 18)) ''0x'') = Some (a @ b)" "length a = 32" "length b = 32"
    "set_bytes a = 2000 * 10 ^ 6" "set_bytes b = 10 ^ 18"
    using sync_decode [of "2000 * 10 ^ 6" "10 ^ 18"] by auto
  have "equal_fold ''eth_subscription'' ''eth_subscription''" "length (sync_data (2000 * 10 ^ 6) (10 ^ 18)) = 130"
    "eth_HexToAddress plain_eth (fst (hd v2HardWethStable)) = 0xB4e16d0168e52d35CaCD2c6185b44281Ec28C9Dc" by code_simp+
  with d assms demo_processed [OF assms(2,4,3)] demo_price show ?thesis
    by (auto simp: demo_sync_def v2Handle_def v2TryAck_def v2TryNote_def v2Process_def v2SyncSig_def Let_def)
qed

lemma demo_run_value: "\<exists>acts e st. demo_run = Inr (acts, e, st) \<and> vs_WETHUSD st = Some 2000"
proof -
  define flags where "flags = \<lparr>vf_NeedDistinct = 10, vf_Once = True, vf_EventLimit = 0\<rparr>"
  define pools where "pools = fold (v2_load_hard plain_eth) v2HardWethStable []"
  define read_file where "read_file = (\<lambda>f :: string. if f = ''.env'' then None else Some ([] :: string))"
  define rounds0 where "rounds0 = [\<lparr>vo_interrupted = False, vo_dial = True, vo_writes = (\<lambda>_. True), vo_events = [demo_sync]\<rparr>]"
  obtain raw where raw: "demo_sync = VMessage raw" by (simp add: demo_sync_def)
  have w: "vs_WETHUSD (v2Handle plain_eth (\<lambda>_. 1) flags raw (v2_start pools)) = Some 2000"
    by (rule demo_handled [OF raw]) (simp_all add: v2_start_def demo_hard_pools pools_def flags_def)
  have ne: "pools \<noteq> []" using demo_hard_pools by (auto simp: pools_def [symmetric])
  have ws: "v2ResolveWS demo_environment = Some ''ws://node''" by code_simp
  have sub: "fst (v2SubscribeAll (\<lambda>_. True) as)" for as by (simp add: v2SubscribeAll_def Let_def takeWhile_eq_all_conv [THEN iffD2])
  have loop: "snd (snd (v2RunLoop plain_eth (\<lambda>_. 1) flags demo_environment as rounds0 second (v2_start pools))) =
      v2Handle plain_eth (\<lambda>_. 1) flags raw (v2_start pools)" for as
    using sub [of as] ws by (simp add: raw rounds0_def Let_def case_prod_beta)
  have load: "v2LoadPools plain_eth (\<lambda>_. None) demo_environment read_file (\<lambda>_. Some []) = Inr pools"
    by (simp add: v2LoadPools_def getenv_of_def demo_environment_def read_file_def pools_def)
  have env: "v2LoadDotEnv read_file ''.env'' demo_environment = demo_environment"
    by (simp add: v2LoadDotEnv_def read_file_def)
  have "demo_run = Inr (v2RunLoop plain_eth (\<lambda>_. 1) flags demo_environment (map (eth_Hex plain_eth) (map fst pools)) rounds0 second (v2_start pools))"
    unfolding demo_run_def flags_def [symmetric] read_file_def [symmetric] rounds0_def [symmetric]
    by (simp only: v2_main_def env load ne Let_def bind_res_simps if_False)
  moreover obtain acts e st where
    "v2RunLoop plain_eth (\<lambda>_. 1) flags demo_environment (map (eth_Hex plain_eth) (map fst pools)) rounds0 second (v2_start pools) = (acts, e, st)"
    by (metis surj_pair)
  ultimately show ?thesis using loop w by (metis snd_conv)
qed


end
