(* ===== verification/Swap_Watcher.thy ===== *)
theory Swap_Watcher
  imports V4_Scripts
begin

text \<open>
  The watcher of one V3 pool, \<open>test_scripts/uniswap/connect_uniswap_ws.go\<close>: it asks the node for the two tokens of the
  pool, chooses the base, subscribes to the logs of the pool and prints every swap with its price from the amounts
  and from the square root price, other events with their fields. The contract ABIs (packing of calls, unpacking of
  results and of the data of a log), \<open>hexutil\<close> and the node are parameters; the arguments of an event are data of
  the ABI that the script itself walks through. Values that the script can only print are kept as their text.
\<close>

subsection \<open>Data\<close>

datatype arg_type = AddressTy | UintTy | IntTy | BoolTy | FixedBytesTy int | OtherTy

record abi_argument =
  aa_Name :: string
  aa_Indexed :: bool
  aa_Type :: arg_type

record abi_event =
  ev_Name :: string
  ev_Inputs :: "abi_argument list"

datatype event_value = EBig int | EText string | EHash hash | EBool bool | EAddress address | EBytes "nat list" | EShown string

type_synonym event_fields = "(string, event_value) gomap"

datatype decimals_value = DecUint8 "8 word" | DecBig int | DecOther

datatype symbol_value = SymText string | SymOther

record watch_abi =
  wa_events :: "(hash \<times> abi_event) list"
  wa_pack :: "string \<Rightarrow> nat list option"
  wa_unpack :: "abi_event \<Rightarrow> nat list \<Rightarrow> event_fields option"
  wa_unpackDecimals :: "nat list \<Rightarrow> decimals_value list option"
  wa_unpackSymbol :: "nat list \<Rightarrow> symbol_value list option"
  wa_decode :: "string \<Rightarrow> nat list option"
  wa_decodeBig :: "string \<Rightarrow> int option"
  wa_decodeUint64 :: "string \<Rightarrow> 64 word option"

text \<open>The events by the hash of their signature; the hashes of an ABI are distinct, so the order of the range does not matter.\<close>

definition eventBySig :: "watch_abi \<Rightarrow> (hash, abi_event) gomap" where
  "eventBySig A = fold (\<lambda>(k, v). mput k v) (wa_events A) []"

text \<open>A call of a contract: the address and the data.\<close>

type_synonym contract_call = "address \<Rightarrow> nat list \<Rightarrow> nat list option"

record logResult =
  lr_BlockNumber :: string
  lr_Data :: string
  lr_Topics :: "string list"
  lr_TransactionHash :: string

record decodedEvent =
  de_Name :: string
  de_Fields :: event_fields

record tokenMetadata =
  tk_Address :: address
  tk_Symbol :: string
  tk_Decimals :: "8 word"

record poolMetadata =
  pw_Pool :: address
  pw_Token0 :: tokenMetadata
  pw_Token1 :: tokenMetadata
  pw_Base :: tokenMetadata
  pw_Quote :: tokenMetadata
  pw_BaseIsToken0 :: bool
  pw_Guess :: bool

text \<open>\<open>Panics\<close> ends the process.\<close>

datatype watch_error =
    NoTopics | UnknownEvent | BadData | UnpackFailed | TopicMissing string | BadTopic string | Panics
  | FieldMissing string | FieldType string | BadField string | ZeroBase
  | WatchCall string | WatchPack string | ShortResponse | BadDecimals | BaseMismatch | BadIdentifier | IdentifierLength nat
  | WatchNoABI | WatchNoEndpoint | WatchDial | WatchSubscribe | NoPoolInfo

subsection \<open>Bytes\<close>

definition hex_encode :: "nat list \<Rightarrow> string" where
  "hex_encode bs = ''0x'' @ concat (map (\<lambda>b. hex_digits 2 (int b)) bs)"

definition text_of :: "nat list \<Rightarrow> string" where
  "text_of bs = map char_of bs"

text \<open>\<open>utf8.Valid\<close>\<close>

definition between :: "nat \<Rightarrow> nat \<Rightarrow> nat \<Rightarrow> bool" where
  "between a b x \<longleftrightarrow> a \<le> x \<and> x \<le> b"

definition continuation :: "nat \<Rightarrow> bool" where
  "continuation = between 0x80 0xBF"

fun utf8_valid :: "nat list \<Rightarrow> bool" where
  "utf8_valid [] = True"
| "utf8_valid (a # bs) =
     (if a < 0x80 then utf8_valid bs
      else case bs of [] \<Rightarrow> False
      | b # bs2 \<Rightarrow>
          if between 0xC2 0xDF a then continuation b \<and> utf8_valid bs2
          else (case bs2 of [] \<Rightarrow> False
          | c # bs3 \<Rightarrow>
              if between 0xE0 0xEF a then
                (if a = 0xE0 then between 0xA0 0xBF b else if a = 0xED then between 0x80 0x9F b else continuation b) \<and>
                continuation c \<and> utf8_valid bs3
              else (case bs3 of [] \<Rightarrow> False
              | d # bs4 \<Rightarrow>
                  between 0xF0 0xF4 a \<and>
                  (if a = 0xF0 then between 0x90 0xBF b else if a = 0xF4 then between 0x80 0x8F b else continuation b) \<and>
                  continuation c \<and> continuation d \<and> utf8_valid bs4)))"

definition trim_right_zero :: "nat list \<Rightarrow> nat list" where
  "trim_right_zero bs = rev (dropWhile (\<lambda>b. b = 0) (rev bs))"

definition decodeSignedBigInt :: "nat list \<Rightarrow> int" where
  "decodeSignedBigInt data =
     (if data \<noteq> [] \<and> hd data \<ge> 128 then set_bytes data - 2 ^ 256 else set_bytes data)"

subsection \<open>The pool and its tokens\<close>

definition defaultPoolIdentifier :: string where
  "defaultPoolIdentifier = ''0x00b9edc1583bf6ef09ff3a09f6c23ecb57fd7d0bb75625717ec81eed181e22d7''"

text \<open>The address and whether it was cut out of a longer identifier.\<close>

definition resolvePoolAddress :: "eth_lib \<Rightarrow> watch_abi \<Rightarrow> (string \<Rightarrow> string) \<Rightarrow> (watch_error, string \<times> bool) result" where
  "resolvePoolAddress E A getenv =
     (let raw = trim_space (getenv ''POOL_ADDRESS''); raw = (if raw = [] then defaultPoolIdentifier else raw);
          identifier = trim_space raw
      in if \<not> has_prefix identifier ''0x'' then Inl BadIdentifier
         else let canon = to_lower identifier; hexPart = drop 2 canon in
           if length hexPart = 40 then (if wa_decode A canon = None then Inl BadIdentifier else Inr (canon, False))
           else if length hexPart = 64 then
             (if wa_decode A canon = None then Inl BadIdentifier
              else Inr (to_lower (eth_Hex E (ucast (eth_HexToHash E canon) :: address)), True))
           else Inl (IdentifierLength (length hexPart)))"

definition callPoolAddress :: "watch_abi \<Rightarrow> contract_call \<Rightarrow> address \<Rightarrow> string \<Rightarrow> (watch_error, address) result" where
  "callPoolAddress A call poolAddr method_name =
     (case wa_pack A method_name of None \<Rightarrow> Inl (WatchPack method_name)
      | Some data \<Rightarrow> (case call poolAddr data of None \<Rightarrow> Inl (WatchCall method_name)
         | Some resp \<Rightarrow>
             if length resp < 32 then Inl ShortResponse else Inr (word_of_int (set_bytes (take 20 (drop 12 resp))))))"

definition callERC20Decimals :: "watch_abi \<Rightarrow> contract_call \<Rightarrow> address \<Rightarrow> (watch_error, 8 word) result" where
  "callERC20Decimals A call addr =
     (case wa_pack A ''decimals'' of None \<Rightarrow> Inl (WatchPack ''decimals'')
      | Some data \<Rightarrow> (case call addr data of None \<Rightarrow> Inl (WatchCall ''decimals'')
         | Some resp \<Rightarrow> (case wa_unpackDecimals A resp of None \<Rightarrow> Inl BadDecimals
            | Some [] \<Rightarrow> Inl BadDecimals
            | Some (DecUint8 v # _) \<Rightarrow> Inr v
            | Some (DecBig v # _) \<Rightarrow> Inr (word_of_int \<bar>v\<bar>)
            | Some (DecOther # _) \<Rightarrow> Inl BadDecimals)))"

definition symbolMethodID :: "nat list" where
  "symbolMethodID = [0x95, 0xd8, 0x9b, 0x41]"

definition symbol_fallback :: "contract_call \<Rightarrow> address \<Rightarrow> (watch_error, string) result" where
  "symbol_fallback call addr =
     (case call addr symbolMethodID of None \<Rightarrow> Inl (WatchCall ''symbol'')
      | Some resp \<Rightarrow>
          if length resp < 32 then Inl ShortResponse
          else let trimmed = trim_right_zero (take 32 resp) in
            Inr (if trimmed = [] then [] else if utf8_valid trimmed then text_of trimmed else hex_encode trimmed))"

definition callERC20Symbol :: "watch_abi \<Rightarrow> contract_call \<Rightarrow> address \<Rightarrow> (watch_error, string) result" where
  "callERC20Symbol A call addr =
     (case wa_pack A ''symbol'' of None \<Rightarrow> Inl (WatchPack ''symbol'')
      | Some data \<Rightarrow>
          (case Option.bind (call addr data) (wa_unpackSymbol A) of
             Some (SymText v # _) \<Rightarrow> Inr v
           | _ \<Rightarrow> symbol_fallback call addr))"

text \<open>A symbol that cannot be read is empty.\<close>

definition fetchTokenMetadata :: "watch_abi \<Rightarrow> contract_call \<Rightarrow> address \<Rightarrow> (watch_error, tokenMetadata) result" where
  "fetchTokenMetadata A call addr =
     bind_res (callERC20Decimals A call addr) (\<lambda>decimals.
       Inr \<lparr>tk_Address = addr, tk_Symbol = (case callERC20Symbol A call addr of Inl _ \<Rightarrow> [] | Inr s \<Rightarrow> s), tk_Decimals = decimals\<rparr>)"

definition chooseBase_ws ::
    "eth_lib \<Rightarrow> (string \<Rightarrow> string) \<Rightarrow> tokenMetadata \<Rightarrow> tokenMetadata \<Rightarrow> (watch_error, tokenMetadata \<times> tokenMetadata \<times> bool) result" where
  "chooseBase_ws E getenv token0 token1 =
     (let baseEnv = trim_space (getenv ''BASE_TOKEN_ADDRESS''); normalized = to_lower baseEnv;
          upper0 = to_upper (tk_Symbol token0); upper1 = to_upper (tk_Symbol token1)
      in if baseEnv \<noteq> [] then
           (if normalized = to_lower (eth_Hex E (tk_Address token0)) then Inr (token0, token1, False)
            else if normalized = to_lower (eth_Hex E (tk_Address token1)) then Inr (token1, token0, False)
            else Inl BaseMismatch)
         else if contains upper0 ''ETH'' \<and> \<not> contains upper1 ''ETH'' then Inr (token0, token1, True)
         else if contains upper1 ''ETH'' \<and> \<not> contains upper0 ''ETH'' then Inr (token1, token0, True)
         else if contains upper1 ''WETH'' \<or> contains upper1 ''ETH'' then Inr (token1, token0, True)
         else Inr (token0, token1, True))"

text \<open>\<open>dial_node\<close> is the client for the endpoint, if it can be reached.\<close>

definition loadPoolMetadata ::
    "eth_lib \<Rightarrow> watch_abi \<Rightarrow> (string \<Rightarrow> string) \<Rightarrow> (string \<Rightarrow> contract_call option) \<Rightarrow> string \<Rightarrow> address \<Rightarrow> (watch_error, poolMetadata) result" where
  "loadPoolMetadata E A getenv dial_node rpcURL poolAddr =
     (case dial_node rpcURL of None \<Rightarrow> Inl WatchDial
      | Some call \<Rightarrow>
          bind_res (callPoolAddress A call poolAddr ''token0'') (\<lambda>token0Addr.
          bind_res (callPoolAddress A call poolAddr ''token1'') (\<lambda>token1Addr.
          bind_res (fetchTokenMetadata A call token0Addr) (\<lambda>token0.
          bind_res (fetchTokenMetadata A call token1Addr) (\<lambda>token1.
          bind_res (chooseBase_ws E getenv token0 token1) (\<lambda>(base, quot, guessed).
            Inr \<lparr>pw_Pool = poolAddr, pw_Token0 = token0, pw_Token1 = token1, pw_Base = base, pw_Quote = quot,
              pw_BaseIsToken0 = (tk_Address base = tk_Address token0), pw_Guess = guessed\<rparr>))))))"

definition displaySymbol :: "eth_lib \<Rightarrow> tokenMetadata \<Rightarrow> string" where
  "displaySymbol E meta = (if tk_Symbol meta \<noteq> [] then tk_Symbol meta else eth_Hex E (tk_Address meta))"

subsection \<open>Logs\<close>

definition decodeTopicValue :: "eth_lib \<Rightarrow> watch_abi \<Rightarrow> arg_type \<Rightarrow> string \<Rightarrow> string \<Rightarrow> (watch_error, event_value) result" where
  "decodeTopicValue E A ty name topic =
     (case wa_decode A topic of None \<Rightarrow> Inl (BadTopic name)
      | Some [] \<Rightarrow> Inl (BadTopic name)
      | Some data \<Rightarrow> (case ty of
          AddressTy \<Rightarrow>
            if length data < 12 then Inl Panics else Inr (EText (eth_Hex E (word_of_int (set_bytes (drop 12 data)))))
        | UintTy \<Rightarrow> Inr (EBig (set_bytes data))
        | IntTy \<Rightarrow> Inr (EBig (decodeSignedBigInt data))
        | BoolTy \<Rightarrow> Inr (EBool (last data = 1))
        | FixedBytesTy sz \<Rightarrow>
            (let n = (if sz \<le> 0 \<or> sz > int (length data) then int (length data) else sz) in
             Inr (EText (hex_encode (take (nat n) data))))
        | OtherTy \<Rightarrow> Inr (EText topic)))"

text \<open>The topics after the signature, one for each indexed argument.\<close>

fun decodeIndexedArgs ::
    "eth_lib \<Rightarrow> watch_abi \<Rightarrow> abi_argument list \<Rightarrow> string list \<Rightarrow> event_fields \<Rightarrow> (watch_error, event_fields) result" where
  "decodeIndexedArgs E A [] topics vals = Inr vals"
| "decodeIndexedArgs E A (arg # args) topics vals =
     (if \<not> aa_Indexed arg then decodeIndexedArgs E A args topics vals
      else case topics of [] \<Rightarrow> Inl (TopicMissing (aa_Name arg))
      | topic # rest \<Rightarrow>
          bind_res (decodeTopicValue E A (aa_Type arg) (aa_Name arg) topic)
            (\<lambda>v. decodeIndexedArgs E A args rest (mput (aa_Name arg) v vals)))"

definition decodeLog :: "eth_lib \<Rightarrow> watch_abi \<Rightarrow> logResult \<Rightarrow> (watch_error, decodedEvent) result" where
  "decodeLog E A r =
     (case lr_Topics r of [] \<Rightarrow> Inl NoTopics
      | topic # topics \<Rightarrow> (case map_of (eventBySig A) (eth_HexToHash E topic) of None \<Rightarrow> Inl UnknownEvent
         | Some event \<Rightarrow>
             (let payload = trim_space (lr_Data r);
                  data_fields =
                    (if payload = [] \<or> payload = ''0x'' then Inr []
                     else case wa_decode A payload of None \<Rightarrow> Inl BadData
                     | Some bytes \<Rightarrow>
                         if list_all aa_Indexed (ev_Inputs event) then Inr []
                         else (case wa_unpack A event bytes of None \<Rightarrow> Inl UnpackFailed | Some fs \<Rightarrow> Inr fs))
              in bind_res data_fields (\<lambda>fs.
                 bind_res (decodeIndexedArgs E A (ev_Inputs event) topics []) (\<lambda>indexed.
                   Inr \<lparr>de_Name = ev_Name event, de_Fields = fold (\<lambda>(k, v). mput k v) indexed fs\<rparr>)))))"

definition requireBigInt :: "watch_abi \<Rightarrow> event_fields \<Rightarrow> string \<Rightarrow> (watch_error, int) result" where
  "requireBigInt A fs key =
     (case map_of fs key of None \<Rightarrow> Inl (FieldMissing key)
      | Some (EBig v) \<Rightarrow> Inr v
      | Some (EText v) \<Rightarrow>
          if has_prefix v ''0x'' then (case wa_decodeBig A v of None \<Rightarrow> Inl (BadField key) | Some n \<Rightarrow> Inr n)
          else Inl (FieldType key)
      | Some (EHash h) \<Rightarrow> Inr (uint h)
      | _ \<Rightarrow> Inl (FieldType key))"

subsection \<open>Prices and texts\<close>

definition watchTenPow :: "8 word \<Rightarrow> int" where
  "watchTenPow dec = 10 ^ unat dec"

definition priceFromAmounts :: "int \<Rightarrow> int \<Rightarrow> 8 word \<Rightarrow> 8 word \<Rightarrow> (watch_error, rat) result" where
  "priceFromAmounts baseAmount quoteAmount baseDecimals quoteDecimals =
     (if \<bar>baseAmount\<bar> = 0 then Inl ZeroBase
      else Inr ((of_int \<bar>quoteAmount\<bar> / of_int (watchTenPow quoteDecimals)) / (of_int \<bar>baseAmount\<bar> / of_int (watchTenPow baseDecimals))))"

definition decimalAdjust :: "8 word \<Rightarrow> 8 word \<Rightarrow> rat" where
  "decimalAdjust a b = of_int (watchTenPow a) / of_int (watchTenPow b)"

definition priceFromSqrt :: "int \<Rightarrow> poolMetadata \<Rightarrow> rat" where
  "priceFromSqrt sqp meta =
     (let raw = of_int (sqp * sqp) / 2 ^ 192 in
      if raw = 0 then raw
      else if pw_BaseIsToken0 meta then raw * decimalAdjust (tk_Decimals (pw_Token0 meta)) (tk_Decimals (pw_Token1 meta))
      else inverse raw * decimalAdjust (tk_Decimals (pw_Token1 meta)) (tk_Decimals (pw_Token0 meta)))"

definition formatTokenAmount :: "int \<Rightarrow> 8 word \<Rightarrow> nat \<Rightarrow> string" where
  "formatTokenAmount amount decimals prec =
     (if amount < 0 then ''-'' else []) @ v4Format (of_int \<bar>amount\<bar> / of_int (watchTenPow decimals)) prec"

definition tradeSide :: "int \<Rightarrow> string" where
  "tradeSide baseAmount = (if baseAmount < 0 then ''BUY'' else if baseAmount > 0 then ''SELL'' else ''FLAT'')"

definition stringFromField :: "eth_lib \<Rightarrow> event_value option \<Rightarrow> string \<Rightarrow> string" where
  "stringFromField E val def =
     (case val of Some (EText s) \<Rightarrow> s | Some (EAddress a) \<Rightarrow> eth_Hex E a | _ \<Rightarrow> def)"

definition formatBlockNumber :: "watch_abi \<Rightarrow> string \<Rightarrow> string" where
  "formatBlockNumber A blockHex =
     (case wa_decodeUint64 A blockHex of Some bn \<Rightarrow> show_nat (unat bn) | None \<Rightarrow> blockHex)"

definition normalizeValue :: "eth_lib \<Rightarrow> event_value \<Rightarrow> string" where
  "normalizeValue E v =
     (case v of EText s \<Rightarrow> s | EBool b \<Rightarrow> if b then ''true'' else ''false'' | EBig n \<Rightarrow> show_int n
      | EAddress a \<Rightarrow> eth_Hex E a | EHash h \<Rightarrow> eth_HashHex E h | EBytes bs \<Rightarrow> hex_encode bs | EShown s \<Rightarrow> s)"

definition formatFields :: "eth_lib \<Rightarrow> event_fields \<Rightarrow> string" where
  "formatFields E fs =
     (if fs = [] then ''{}''
      else let keys = sort (map fst fs);
               parts = map (\<lambda>k. k @ ''='' @ (case map_of fs k of Some v \<Rightarrow> normalizeValue E v | None \<Rightarrow> [])) keys
        in ''{'' @ join_with '', '' parts @ ''}'')"

subsection \<open>A swap\<close>

text \<open>What is printed of a swap.\<close>

record swap_line =
  sw_Block :: string
  sw_Tx :: string
  sw_Side :: string
  sw_Price :: string
  sw_PriceSqrt :: string
  sw_Base :: string
  sw_BaseAmount :: string
  sw_Quote :: string
  sw_QuoteAmount :: string
  sw_SqrtP :: string
  sw_Tick :: int
  sw_Liquidity :: string
  sw_Sender :: string
  sw_Recipient :: string

text \<open>\<open>Int64\<close> of the tick keeps its low 64 bits.\<close>

definition handleSwap :: "eth_lib \<Rightarrow> watch_abi \<Rightarrow> poolMetadata option \<Rightarrow> logResult \<Rightarrow> decodedEvent \<Rightarrow> (watch_error, swap_line) result" where
  "handleSwap E A poolInfo r evt =
     (case poolInfo of None \<Rightarrow> Inl NoPoolInfo
      | Some pool \<Rightarrow>
          let fs = de_Fields evt in
          bind_res (requireBigInt A fs ''amount0'') (\<lambda>amount0.
          bind_res (requireBigInt A fs ''amount1'') (\<lambda>amount1.
          bind_res (requireBigInt A fs ''sqrtPriceX96'') (\<lambda>sqp.
          bind_res (requireBigInt A fs ''liquidity'') (\<lambda>liquidity.
          bind_res (requireBigInt A fs ''tick'') (\<lambda>tick.
            let baseAmount = (if pw_BaseIsToken0 pool then amount0 else amount1);
                quoteAmount = (if pw_BaseIsToken0 pool then amount1 else amount0);
                baseDec = tk_Decimals (pw_Base pool); quoteDec = tk_Decimals (pw_Quote pool)
            in bind_res (priceFromAmounts baseAmount quoteAmount baseDec quoteDec) (\<lambda>priceRat.
              Inr \<lparr>sw_Block = formatBlockNumber A (lr_BlockNumber r), sw_Tx = lr_TransactionHash r, sw_Side = tradeSide baseAmount,
                sw_Price = v4Format priceRat 6, sw_PriceSqrt = v4Format (priceFromSqrt sqp pool) 6,
                sw_Base = displaySymbol E (pw_Base pool), sw_BaseAmount = formatTokenAmount baseAmount baseDec 6,
                sw_Quote = displaySymbol E (pw_Quote pool), sw_QuoteAmount = formatTokenAmount quoteAmount quoteDec 2,
                sw_SqrtP = show_int sqp, sw_Tick = sint (word_of_int tick :: 64 word),
                sw_Liquidity = formatTokenAmount liquidity baseDec 6,
                sw_Sender = stringFromField E (map_of fs ''sender'') ''?'',
                sw_Recipient = stringFromField E (map_of fs ''recipient'') ''?''\<rparr>)))))))"

subsection \<open>Frames and the loop\<close>

datatype watch_line =
    AckFailed int string | AckConfirmed string | DecodeError watch_error | SwapError watch_error | SwapPrinted swap_line
  | EventPrinted string string string string | RawPrinted string | MessagePrinted string

record subscriptionAck =
  wk_Result :: string
  wk_Error :: "(int \<times> string) option"

record subscriptionNotification =
  wn_Method :: string
  wn_Result :: logResult

text \<open>A frame as each decoding sees it; \<open>wf_pretty\<close> is the generic decoding, encoded again.\<close>

record watch_frame =
  wf_raw :: string
  wf_ack :: "subscriptionAck option"
  wf_note :: "subscriptionNotification option"
  wf_pretty :: "string option"

definition trySubscriptionAck :: "subscriptionAck option \<Rightarrow> subscriptionAck option" where
  "trySubscriptionAck decoded =
     (case decoded of None \<Rightarrow> None | Some a \<Rightarrow> if wk_Result a = [] \<and> wk_Error a = None then None else Some a)"

definition tryNotification :: "subscriptionNotification option \<Rightarrow> subscriptionNotification option" where
  "tryNotification decoded =
     (case decoded of None \<Rightarrow> None | Some n \<Rightarrow> if \<not> equal_fold (wn_Method n) ''eth_subscription'' then None else Some n)"

definition logRawJSON :: "watch_frame \<Rightarrow> watch_line" where
  "logRawJSON f = (case wf_pretty f of None \<Rightarrow> RawPrinted (wf_raw f) | Some t \<Rightarrow> MessagePrinted t)"

definition processDecodedEvent ::
    "eth_lib \<Rightarrow> watch_abi \<Rightarrow> poolMetadata option \<Rightarrow> logResult \<Rightarrow> decodedEvent \<Rightarrow> bool \<times> watch_line list" where
  "processDecodedEvent E A poolInfo r evt =
     (if poolInfo \<noteq> None \<and> de_Name evt = ''Swap'' then
        (True, case handleSwap E A poolInfo r evt of Inl e \<Rightarrow> [SwapError e] | Inr line \<Rightarrow> [SwapPrinted line])
      else (False, []))"

definition printDecodedEvent :: "eth_lib \<Rightarrow> watch_abi \<Rightarrow> logResult \<Rightarrow> decodedEvent \<Rightarrow> watch_line" where
  "printDecodedEvent E A r evt =
     EventPrinted (formatBlockNumber A (lr_BlockNumber r)) (lr_TransactionHash r) (de_Name evt) (formatFields E (de_Fields evt))"

text \<open>The lines a message prints, \<open>None\<close> when the process dies.\<close>

definition handleMessage :: "eth_lib \<Rightarrow> watch_abi \<Rightarrow> poolMetadata option \<Rightarrow> watch_frame \<Rightarrow> watch_line list option" where
  "handleMessage E A poolInfo raw =
     (case trySubscriptionAck (wf_ack raw) of
        Some ack \<Rightarrow> Some [case wk_Error ack of Some (code, m) \<Rightarrow> AckFailed code m | None \<Rightarrow> AckConfirmed (wk_Result ack)]
      | None \<Rightarrow> (case tryNotification (wf_note raw) of
          None \<Rightarrow> Some [logRawJSON raw]
        | Some note0 \<Rightarrow> (case decodeLog E A (wn_Result note0) of
            Inl Panics \<Rightarrow> None
          | Inl e \<Rightarrow> Some [DecodeError e, logRawJSON raw]
          | Inr decoded \<Rightarrow>
              (case processDecodedEvent E A poolInfo (wn_Result note0) decoded of
                 (handled, ls) \<Rightarrow> Some (if handled then ls else ls @ [printDecodedEvent E A (wn_Result note0) decoded])))))"

text \<open>What the reader and \<open>select\<close> deliver; the reader keeps pong frames to itself.\<close>

datatype watch_event = WMessage watch_frame | WPong | WClosed | WReadError | WTimeout | WInterrupt

datatype watch_end = WRunning | WReturned | WPanicked

fun watch_loop ::
    "eth_lib \<Rightarrow> watch_abi \<Rightarrow> poolMetadata option \<Rightarrow> watch_event list \<Rightarrow> watch_line list \<Rightarrow> watch_end \<times> watch_line list" where
  "watch_loop E A poolInfo [] ls = (WRunning, ls)"
| "watch_loop E A poolInfo (WMessage raw # es) ls =
     (case handleMessage E A poolInfo raw of None \<Rightarrow> (WPanicked, ls) | Some new \<Rightarrow> watch_loop E A poolInfo es (ls @ new))"
| "watch_loop E A poolInfo (WPong # es) ls = watch_loop E A poolInfo es ls"
| "watch_loop E A poolInfo (e # es) ls = (WReturned, ls)"

subsection \<open>Main\<close>

definition initABI :: "(string \<Rightarrow> string option) \<Rightarrow> (string \<Rightarrow> watch_abi option) \<Rightarrow> (watch_error, watch_abi) result" where
  "initABI read_file parse_abi =
     (case Option.bind (read_file ''ABI/Uniswap/V3/UniswapV3Pool.json'') parse_abi of None \<Rightarrow> Inl WatchNoABI | Some A \<Rightarrow> Inr A)"

definition resolveAlchemyWSURL :: "(string \<Rightarrow> string) \<Rightarrow> (watch_error, string) result" where
  "resolveAlchemyWSURL getenv =
     (let direct = trim_space (getenv ''ALCHEMY_WS_URL''); apiKey = trim_space (getenv ''ALCHEMY_API_KEY'') in
      if direct \<noteq> [] then Inr direct else if apiKey = [] then Inl WatchNoEndpoint
      else Inr (''wss://eth-mainnet.g.alchemy.com/v2/'' @ apiKey))"

text \<open>\<open>dialed\<close> and \<open>written\<close> say whether the endpoint can be reached and the request for the logs of an address be sent.\<close>

definition watch_main ::
    "eth_lib \<Rightarrow> (string \<Rightarrow> string) \<Rightarrow> (string \<Rightarrow> string option) \<Rightarrow> (string \<Rightarrow> watch_abi option) \<Rightarrow> (string \<Rightarrow> contract_call option)
     \<Rightarrow> (string \<Rightarrow> bool) \<Rightarrow> (string \<Rightarrow> bool) \<Rightarrow> watch_event list \<Rightarrow> (watch_error, watch_end \<times> watch_line list) result" where
  "watch_main E getenv read_file parse_abi dial_node dialed written events =
     bind_res (initABI read_file parse_abi) (\<lambda>A.
     bind_res (resolveAlchemyWSURL getenv) (\<lambda>wsURL.
     bind_res (resolvePoolAddress E A getenv) (\<lambda>(poolAddress, derived).
     bind_res (loadPoolMetadata E A getenv dial_node wsURL (eth_HexToAddress E poolAddress)) (\<lambda>meta.
       if \<not> dialed wsURL then Inl WatchDial
       else if \<not> written poolAddress then Inl WatchSubscribe
       else Inr (watch_loop E A (Some meta) events [])))))"

subsection \<open>Lemmas: topics\<close>

lemma set_bytes_append: "set_bytes (xs @ ys) = set_bytes xs * 256 ^ length ys + set_bytes ys"
proof (induction xs)
  case (Cons x xs)
  then show ?case by (simp add: set_bytes_Cons power_add algebra_simps)
qed (simp add: set_bytes_def)

lemma low_address:
  assumes "length bs = 32"
  shows "(word_of_int (set_bytes (drop 12 bs)) :: address) = ucast (word_of_int (set_bytes bs) :: hash)"
proof -
  have "set_bytes bs = set_bytes (take 12 bs) * 256 ^ 20 + set_bytes (drop 12 bs)"
    using set_bytes_append [of "take 12 bs" "drop 12 bs"] assms by simp
  moreover have "(256 :: int) ^ 20 = 2 ^ 160" by simp
  ultimately have "take_bit 160 (set_bytes bs) = take_bit 160 (set_bytes (drop 12 bs))"
    by (simp add: take_bit_eq_mod)
  then show ?thesis
    by (intro word_uint_eqI) (simp add: unsigned_ucast_eq take_bit_word_eq_self uint_word_of_int_eq min_def)
qed

lemma sint_of_bytes:
  assumes "0 \<le> n" "n < 2 ^ 256"
  shows "sint (word_of_int n :: hash) = (if n < 2 ^ 255 then n else n - 2 ^ 256)"
proof (cases "n < 2 ^ 255")
  case True
  then show ?thesis using assms by (simp add: signed_of_int signed_take_bit_int_eq_self)
next
  case False
  define m where "m = n - 2 ^ 256"
  have "(word_of_int n :: hash) = word_of_int m"
    unfolding m_def by (rule word_uint_eqI) (simp only: uint_word_of_int_eq, simp add: take_bit_eq_mod)
  moreover have "- (2 ^ 255) \<le> m" "m < 2 ^ 255" using assms False by (simp_all add: m_def)
  then have "sint (word_of_int m :: hash) = m" by (simp add: signed_of_int signed_take_bit_int_eq_self)
  ultimately have "sint (word_of_int n :: hash) = m" by (simp only:)
  then show ?thesis using False by (simp add: m_def)
qed

lemma top_bit:
  assumes "length bs = 32" "\<forall>b\<in>set bs. b < 256"
  shows "128 \<le> hd bs \<longleftrightarrow> 2 ^ 255 \<le> set_bytes bs"
proof -
  obtain b rest where bs: "bs = b # rest" "length rest = 31" using assms(1) by (cases bs) auto
  define c r where "c = int b" and "r = set_bytes rest"
  have r: "0 \<le> r" "r < 2 ^ 248"
    using set_bytes_less [of rest] assms(2) bs by (simp_all add: r_def)
  have v: "set_bytes bs = c * 2 ^ 248 + r" using bs by (simp add: set_bytes_Cons c_def r_def)
  show ?thesis
  proof
    assume "128 \<le> hd bs"
    then have "128 \<le> c" using bs by (simp add: c_def)
    then show "2 ^ 255 \<le> set_bytes bs" using v r by simp
  next
    assume a: "2 ^ 255 \<le> set_bytes bs"
    show "128 \<le> hd bs"
    proof (rule ccontr)
      assume "\<not> 128 \<le> hd bs"
      then have "c \<le> 127" using bs by (simp add: c_def)
      then show False using a v r by simp
    qed
  qed
qed

lemma decodeSignedBigInt_sint:
  assumes "length bs = 32" "\<forall>b\<in>set bs. b < 256"
  shows "decodeSignedBigInt bs = sint (word_of_int (set_bytes bs) :: hash)"
proof -
  have "set_bytes bs < 2 ^ 256" using set_bytes_less [OF assms(2)] assms(1) by simp
  moreover have "bs \<noteq> []" using assms(1) by auto
  ultimately show ?thesis
    by (simp only: decodeSignedBigInt_def sint_of_bytes [OF set_bytes_nonneg] top_bit [OF assms]) (simp del: power_numeral)
qed


text \<open>C39. A topic is read as the ABI encodes it: of a topic of 32 bytes the address is the low 160 bits, an unsigned
  number the value of the word and a signed number its two's complement value. Reading a topic that decodes ends
  the process exactly when an address is wanted and the topic has fewer than 12 bytes, but at least one.\<close>

theorem topic_values:
  assumes dec: "wa_decode A topic = Some bs" and bytes: "\<forall>b\<in>set bs. b < 256"
  shows "(decodeTopicValue E A ty arg topic = Inl Panics \<longleftrightarrow> ty = AddressTy \<and> 0 < length bs \<and> length bs < 12) \<and>
    (length bs = 32 \<longrightarrow>
      (let w = word_of_int (set_bytes bs) :: hash in
        decodeTopicValue E A AddressTy arg topic = Inr (EText (eth_Hex E (ucast w))) \<and>
        decodeTopicValue E A UintTy arg topic = Inr (EBig (uint w)) \<and>
        decodeTopicValue E A IntTy arg topic = Inr (EBig (sint w))))"
proof (intro conjI impI)
  show "decodeTopicValue E A ty arg topic = Inl Panics \<longleftrightarrow> ty = AddressTy \<and> 0 < length bs \<and> length bs < 12"
    by (cases ty) (auto simp: decodeTopicValue_def dec Let_def split: list.splits)
next
  assume len: "length bs = 32"
  then obtain b rest where bs: "bs = b # rest" by (cases bs) auto
  have u: "uint (word_of_int (set_bytes bs) :: hash) = set_bytes bs"
    using set_bytes_less [OF bytes] len by (simp add: uint_word_of_int_eq take_bit_int_eq_self)
  show "let w = word_of_int (set_bytes bs) :: hash in
        decodeTopicValue E A AddressTy arg topic = Inr (EText (eth_Hex E (ucast w))) \<and>
        decodeTopicValue E A UintTy arg topic = Inr (EBig (uint w)) \<and>
        decodeTopicValue E A IntTy arg topic = Inr (EBig (sint w))"
    using low_address [OF len] decodeSignedBigInt_sint [OF len bytes] u len
    by (simp add: decodeTopicValue_def dec bs Let_def)
qed

subsection \<open>Lemmas: prices\<close>

lemma watchTenPow_pos [simp]: "0 < watchTenPow d"
  by (simp add: watchTenPow_def)

text \<open>The base and the quote of loaded metadata are the two tokens of the pool in the order that the flag says. When the
  chain gives the same address twice, both tokens have the same metadata.\<close>

lemma fetchTokenMetadata_address: "fetchTokenMetadata A call addr = Inr t \<Longrightarrow> tk_Address t = addr"
  by (auto simp: fetchTokenMetadata_def bind_res_Inr_iff)

lemma choice_pair:
  "(if a then (if b then Inr (x, y, False) else if c then Inr (y, x, False) else Inl e)
    else if d then Inr (x, y, True) else if f then Inr (y, x, True) else if g then Inr (y, x, True) else Inr (x, y, True)) = Inr (bt, qt, k) \<Longrightarrow>
   (bt = x \<and> qt = y) \<or> (bt = y \<and> qt = x)"
  by (cases a; cases b; cases c; cases d; cases f; cases g) simp_all

lemma loadPoolMetadata_order:
  assumes "loadPoolMetadata E A getenv dial_node url addr = Inr meta"
  shows "pw_Base meta = (if pw_BaseIsToken0 meta then pw_Token0 meta else pw_Token1 meta)"
    and "pw_Quote meta = (if pw_BaseIsToken0 meta then pw_Token1 meta else pw_Token0 meta)"
proof -
  obtain call a0 a1 t0 t1 bt qt g where t: "fetchTokenMetadata A call a0 = Inr t0" "fetchTokenMetadata A call a1 = Inr t1"
    and ch: "chooseBase_ws E getenv t0 t1 = Inr (bt, qt, g)"
    and meta: "meta = \<lparr>pw_Pool = addr, pw_Token0 = t0, pw_Token1 = t1, pw_Base = bt, pw_Quote = qt,
              pw_BaseIsToken0 = (tk_Address bt = tk_Address t0), pw_Guess = g\<rparr>"
    using assms by (auto simp: loadPoolMetadata_def bind_res_Inr_iff split: option.splits)
  have same: "t0 = t1" if "tk_Address t0 = tk_Address t1"
    using that t fetchTokenMetadata_address [OF t(1)] fetchTokenMetadata_address [OF t(2)] by simp
  have "(bt = t0 \<and> qt = t1) \<or> (bt = t1 \<and> qt = t0)"
    by (rule choice_pair [OF ch [unfolded chooseBase_ws_def Let_def]])
  then have "bt = (if tk_Address bt = tk_Address t0 then t0 else t1) \<and> qt = (if tk_Address bt = tk_Address t0 then t1 else t0)"
    using same [OF sym] by (elim disjE conjE) (simp_all, metis)
  then show "pw_Base meta = (if pw_BaseIsToken0 meta then pw_Token0 meta else pw_Token1 meta)"
    and "pw_Quote meta = (if pw_BaseIsToken0 meta then pw_Token1 meta else pw_Token0 meta)"
    by (simp_all only: meta poolMetadata.simps)
qed

text \<open>A swap at the price of the pool: the amounts are in the ratio of the square root price.\<close>

lemma prices_agree:
  assumes order: "pw_Base meta = (if pw_BaseIsToken0 meta then pw_Token0 meta else pw_Token1 meta)"
      "pw_Quote meta = (if pw_BaseIsToken0 meta then pw_Token1 meta else pw_Token0 meta)"
    and a: "a0 \<noteq> 0" "a1 \<noteq> 0" and exact: "\<bar>a1\<bar> * 2 ^ 192 = \<bar>a0\<bar> * (s * s)"
  shows "priceFromAmounts (if pw_BaseIsToken0 meta then a0 else a1) (if pw_BaseIsToken0 meta then a1 else a0)
      (tk_Decimals (pw_Base meta)) (tk_Decimals (pw_Quote meta)) = Inr (priceFromSqrt s meta)"
proof -
  define x y where "x = (of_int \<bar>a0\<bar> :: rat)" and "y = (of_int \<bar>a1\<bar> :: rat)"
  have "of_int (\<bar>a1\<bar> * 2 ^ 192) = (of_int (\<bar>a0\<bar> * (s * s)) :: rat)" by (simp only: exact)
  then have raw: "(of_int (s * s) :: rat) / 2 ^ 192 = y / x"
    using a by (simp add: x_def y_def field_simps)
  define k0 k1 where "k0 = (of_int (watchTenPow (tk_Decimals (pw_Token0 meta))) :: rat)"
    and "k1 = (of_int (watchTenPow (tk_Decimals (pw_Token1 meta))) :: rat)"
  have nz: "x \<noteq> 0" "y \<noteq> 0" "k0 \<noteq> 0" "k1 \<noteq> 0"
    using a watchTenPow_pos by (simp_all add: x_def y_def k0_def k1_def less_le)
  have "priceFromSqrt s meta = (if pw_BaseIsToken0 meta then (y / x) * (k0 / k1) else inverse (y / x) * (k1 / k0))"
    unfolding priceFromSqrt_def raw Let_def decimalAdjust_def k0_def [symmetric] k1_def [symmetric] using nz by simp
  moreover have "priceFromAmounts (if pw_BaseIsToken0 meta then a0 else a1) (if pw_BaseIsToken0 meta then a1 else a0)
      (tk_Decimals (pw_Base meta)) (tk_Decimals (pw_Quote meta)) =
      Inr (if pw_BaseIsToken0 meta then (y / k1) / (x / k0) else (x / k0) / (y / k1))"
    using a by (simp add: priceFromAmounts_def order x_def y_def k0_def k1_def)
  ultimately show ?thesis using nz by (simp add: field_simps)
qed

lemma handleSwap_Inr:
  assumes "map_of fs ''amount0'' = Some (EBig a0)" "map_of fs ''amount1'' = Some (EBig a1)" "map_of fs ''sqrtPriceX96'' = Some (EBig s)"
      "map_of fs ''liquidity'' = Some (EBig liq)" "map_of fs ''tick'' = Some (EBig tick)"
    and "priceFromAmounts (if pw_BaseIsToken0 meta then a0 else a1) (if pw_BaseIsToken0 meta then a1 else a0)
      (tk_Decimals (pw_Base meta)) (tk_Decimals (pw_Quote meta)) = Inr p"
  shows "\<exists>line. handleSwap E A (Some meta) r \<lparr>de_Name = nm, de_Fields = fs\<rparr> = Inr line \<and> sw_Price line = v4Format p 6 \<and>
    sw_PriceSqrt line = v4Format (priceFromSqrt s meta) 6 \<and> sw_Side line = tradeSide (if pw_BaseIsToken0 meta then a0 else a1) \<and>
    sw_Base line = displaySymbol E (pw_Base meta) \<and> sw_Quote line = displaySymbol E (pw_Quote meta)"
  using assms by (simp add: handleSwap_def requireBigInt_def Let_def)

text \<open>C18. The watcher with the metadata it has loaded prints a swap at the price of the pool as one line, with the same text
  for the price of the amounts and the price of the square root. This price is the quote amount over the base amount,
  each in units of its token; base and quote are the two tokens of the pool, and the base amount decides the side.\<close>

theorem watched_swap_prices:
  assumes load: "loadPoolMetadata E A getenv dial_node url addr = Inr meta"
    and fs: "map_of fs ''amount0'' = Some (EBig a0)" "map_of fs ''amount1'' = Some (EBig a1)" "map_of fs ''sqrtPriceX96'' = Some (EBig s)"
      "map_of fs ''liquidity'' = Some (EBig liq)" "map_of fs ''tick'' = Some (EBig tick)"
    and log: "trySubscriptionAck (wf_ack raw) = None" "tryNotification (wf_note raw) = Some n"
      "decodeLog E A (wn_Result n) = Inr \<lparr>de_Name = ''Swap'', de_Fields = fs\<rparr>"
    and swap: "a0 \<noteq> 0" "a1 \<noteq> 0" "\<bar>a1\<bar> * 2 ^ 192 = \<bar>a0\<bar> * (s * s)"
    and base: "bt = (if pw_BaseIsToken0 meta then a0 else a1)" "qt = (if pw_BaseIsToken0 meta then a1 else a0)"
  shows "\<exists>line p. handleMessage E A (Some meta) raw = Some [SwapPrinted line] \<and>
    sw_Price line = v4Format p 6 \<and> sw_PriceSqrt line = v4Format p 6 \<and>
    p * (of_int \<bar>bt\<bar> / 10 ^ unat (tk_Decimals (pw_Base meta))) = of_int \<bar>qt\<bar> / 10 ^ unat (tk_Decimals (pw_Quote meta)) \<and>
    sw_Base line = displaySymbol E (pw_Base meta) \<and> sw_Quote line = displaySymbol E (pw_Quote meta) \<and>
    {pw_Base meta, pw_Quote meta} = {pw_Token0 meta, pw_Token1 meta} \<and> sw_Side line = (if bt < 0 then ''BUY'' else ''SELL'')"
proof -
  note order = loadPoolMetadata_order [OF load]
  define p where "p = priceFromSqrt s meta"
  have price: "priceFromAmounts bt qt (tk_Decimals (pw_Base meta)) (tk_Decimals (pw_Quote meta)) = Inr p"
    unfolding base p_def by (rule prices_agree [OF order swap])
  have "bt \<noteq> 0" using swap base by simp
  moreover have "p = (of_int \<bar>qt\<bar> / of_int (watchTenPow (tk_Decimals (pw_Quote meta)))) /
      (of_int \<bar>bt\<bar> / of_int (watchTenPow (tk_Decimals (pw_Base meta))))"
    using price by (simp add: priceFromAmounts_def split: if_splits)
  ultimately have p: "p * (of_int \<bar>bt\<bar> / 10 ^ unat (tk_Decimals (pw_Base meta))) = of_int \<bar>qt\<bar> / 10 ^ unat (tk_Decimals (pw_Quote meta))"
    by (simp add: watchTenPow_def)
  obtain line where l: "handleSwap E A (Some meta) (wn_Result n) \<lparr>de_Name = ''Swap'', de_Fields = fs\<rparr> = Inr line"
      "sw_Price line = v4Format p 6" "sw_PriceSqrt line = v4Format p 6" "sw_Side line = tradeSide bt"
      "sw_Base line = displaySymbol E (pw_Base meta)" "sw_Quote line = displaySymbol E (pw_Quote meta)"
    using handleSwap_Inr [OF fs price [unfolded base], of E A "wn_Result n" "''Swap''"] by (auto simp: p_def base)
  have "handleMessage E A (Some meta) raw = Some [SwapPrinted line]"
    by (simp add: handleMessage_def log processDecodedEvent_def l(1))
  moreover have "{pw_Base meta, pw_Quote meta} = {pw_Token0 meta, pw_Token1 meta}" using order by auto
  ultimately show ?thesis using l p \<open>bt \<noteq> 0\<close> by (intro exI [of _ line] exI [of _ p]) (simp add: tradeSide_def)
qed

subsection \<open>A concrete pool and swap\<close>

definition demo_watch_abi :: watch_abi where
  "demo_watch_abi = \<lparr>wa_events = [(7, \<lparr>ev_Name = ''Swap'', ev_Inputs = [\<lparr>aa_Name = ''tick'', aa_Indexed = False, aa_Type = IntTy\<rparr>]\<rparr>)],
     wa_pack = (\<lambda>m. Some [if m = ''token0'' then 0 else if m = ''token1'' then 1 else 2]),
     wa_unpack = (\<lambda>_ _. Some [(''amount0'', EBig 5), (''amount1'', EBig (- 5)), (''sqrtPriceX96'', EBig (2 ^ 96)),
       (''liquidity'', EBig 1), (''tick'', EBig 0)]),
     wa_unpackDecimals = (\<lambda>bs. Some [DecUint8 (if bs = [1] then 6 else 18)]),
     wa_unpackSymbol = (\<lambda>bs. Some [SymText (if bs = [1] then ''USDC'' else ''WETH'')]),
     wa_decode = (\<lambda>t. if t = ''0x01'' then Some [1] else Some (replicate 32 255)),
     wa_decodeBig = (\<lambda>_. None), wa_decodeUint64 = (\<lambda>_. None)\<rparr>"

definition demo_call :: contract_call where
  "demo_call addr data = (if data = [0] then Some (replicate 31 0 @ [1]) else if data = [1] then Some (replicate 31 0 @ [2])
     else Some [unat addr])"

definition demo_swap_frame :: watch_frame where
  "demo_swap_frame = \<lparr>wf_raw = [], wf_ack = None,
     wf_note = Some \<lparr>wn_Method = ''eth_subscription'',
       wn_Result = \<lparr>lr_BlockNumber = ''0x1'', lr_Data = ''0x01'', lr_Topics = [''0x07''], lr_TransactionHash = []\<rparr>\<rparr>,
     wf_pretty = None\<rparr>"

definition demo_usdc :: tokenMetadata where
  "demo_usdc = \<lparr>tk_Address = 1, tk_Symbol = ''USDC'', tk_Decimals = 6\<rparr>"

definition demo_weth :: tokenMetadata where
  "demo_weth = \<lparr>tk_Address = 2, tk_Symbol = ''WETH'', tk_Decimals = 18\<rparr>"

definition demo_pool_metadata :: poolMetadata where
  "demo_pool_metadata = \<lparr>pw_Pool = 9, pw_Token0 = demo_usdc, pw_Token1 = demo_weth, pw_Base = demo_weth, pw_Quote = demo_usdc,
     pw_BaseIsToken0 = False, pw_Guess = True\<rparr>"

lemma demo_watch_load:
  "loadPoolMetadata plain_eth demo_watch_abi (\<lambda>_. []) (\<lambda>_. Some demo_call) [] 9 = Inr demo_pool_metadata"
proof -
  have c: "to_upper ''USDC'' = ''USDC''" "to_upper ''WETH'' = ''WETH''" "contains ''WETH'' ''ETH''" "\<not> contains ''USDC'' ''ETH''"
    by code_simp+
  have "callPoolAddress demo_watch_abi demo_call 9 ''token0'' = Inr 1" "callPoolAddress demo_watch_abi demo_call 9 ''token1'' = Inr 2"
    by (simp_all add: callPoolAddress_def demo_watch_abi_def demo_call_def set_bytes_def numeral_eq_Suc)
  moreover have "fetchTokenMetadata demo_watch_abi demo_call 1 = Inr demo_usdc" "fetchTokenMetadata demo_watch_abi demo_call 2 = Inr demo_weth"
    by (simp_all add: fetchTokenMetadata_def callERC20Decimals_def callERC20Symbol_def demo_watch_abi_def demo_call_def demo_usdc_def demo_weth_def)
  moreover have "chooseBase_ws plain_eth (\<lambda>_. []) demo_usdc demo_weth = Inr (demo_weth, demo_usdc, True)"
    by (simp add: chooseBase_ws_def demo_usdc_def demo_weth_def c Let_def del: contains.simps)
  ultimately show ?thesis
    by (simp add: loadPoolMetadata_def demo_pool_metadata_def demo_usdc_def demo_weth_def)
qed

theorem topic_values_witness:
  "decodeTopicValue plain_eth demo_watch_abi AddressTy [] ''0x01'' = Inl Panics \<and>
   decodeTopicValue plain_eth demo_watch_abi IntTy [] [] = Inr (EBig (- 1))"
proof -
  have "set_bytes (replicate 32 255) = 2 ^ 256 - 1" by code_simp
  then have "word_of_int (set_bytes (replicate 32 255)) = (- 1 :: hash)" by simp
  then show ?thesis
    using topic_values [of demo_watch_abi "''0x01''" "[1]" plain_eth AddressTy "[]"]
      topic_values [of demo_watch_abi "[]" "replicate 32 255" plain_eth IntTy "[]"]
    by (simp add: demo_watch_abi_def Let_def)
qed

theorem watched_swap_prices_witness:
  "\<exists>line. handleMessage plain_eth demo_watch_abi (Some demo_pool_metadata) demo_swap_frame = Some [SwapPrinted line] \<and>
     sw_Price line = sw_PriceSqrt line \<and> sw_Base line = ''WETH'' \<and> sw_Quote line = ''USDC'' \<and> sw_Side line = ''BUY''"
proof -
  define fs where "fs = [(''amount0'', EBig 5), (''amount1'', EBig (- 5)), (''sqrtPriceX96'', EBig (2 ^ 96)),
       (''liquidity'', EBig 1), (''tick'', EBig 0)]"
  have c: "trim_space ''0x01'' = ''0x01''" "hex_read 0 (trim_prefix ''0x07'' ''0x'') = 7"
    "equal_fold ''eth_subscription'' ''eth_subscription''" by code_simp+
  define n where "n = the (wf_note demo_swap_frame)"
  have h: "eth_HexToHash plain_eth ''0x07'' = 7" by (simp only: plain_eth_def eth_lib.simps c of_int_numeral)
  have e: "map_of (eventBySig demo_watch_abi) 7 = Some \<lparr>ev_Name = ''Swap'', ev_Inputs = [\<lparr>aa_Name = ''tick'', aa_Indexed = False, aa_Type = IntTy\<rparr>]\<rparr>"
      "wa_decode demo_watch_abi ''0x01'' = Some [1]" "wa_unpack demo_watch_abi = (\<lambda>_ _. Some fs)"
    by (simp_all add: eventBySig_def demo_watch_abi_def fs_def)
  have d: "decodeLog plain_eth demo_watch_abi (wn_Result n) = Inr \<lparr>de_Name = ''Swap'', de_Fields = fs\<rparr>"
    by (simp add: decodeLog_def n_def demo_swap_frame_def e h c Let_def)
  have tr: "trySubscriptionAck (wf_ack demo_swap_frame) = None" "tryNotification (wf_note demo_swap_frame) = Some n"
    by (simp_all add: trySubscriptionAck_def tryNotification_def n_def demo_swap_frame_def c)
  have m: "map_of fs ''amount0'' = Some (EBig 5)" "map_of fs ''amount1'' = Some (EBig (- 5))"
      "map_of fs ''sqrtPriceX96'' = Some (EBig (2 ^ 96))" "map_of fs ''liquidity'' = Some (EBig 1)" "map_of fs ''tick'' = Some (EBig 0)"
    by (simp_all add: fs_def)
  have x: "(5 :: int) \<noteq> 0" "(- 5 :: int) \<noteq> 0" "\<bar>- 5 :: int\<bar> * 2 ^ 192 = \<bar>5\<bar> * (2 ^ 96 * 2 ^ 96)" by simp_all
  have oo: "- 5 = (if pw_BaseIsToken0 demo_pool_metadata then 5 else - 5 :: int)"
      "5 = (if pw_BaseIsToken0 demo_pool_metadata then - 5 else 5 :: int)"
    by (simp_all add: demo_pool_metadata_def)
  obtain line p where "handleMessage plain_eth demo_watch_abi (Some demo_pool_metadata) demo_swap_frame = Some [SwapPrinted line]"
    and "sw_Price line = v4Format p 6" "sw_PriceSqrt line = v4Format p 6" "sw_Base line = displaySymbol plain_eth (pw_Base demo_pool_metadata)"
      "sw_Quote line = displaySymbol plain_eth (pw_Quote demo_pool_metadata)" "sw_Side line = (if - 5 < (0 :: int) then ''BUY'' else ''SELL'')"
    using watched_swap_prices [OF demo_watch_load m tr d x oo] by (elim exE conjE) (rule that)
  then show ?thesis by (intro exI [of _ line]) (simp add: demo_pool_metadata_def demo_weth_def demo_usdc_def displaySymbol_def)
qed

end
