(* ===== verification/Spec2Isabelle.thy ===== *)
theory Spec2Isabelle
  imports Smoke_Tests V4_Once Token_Validator Bitget_Filter V2_Script Swap_Watcher
begin

text \<open>
  A verification development for ScreenerCD, a price screener in Go. The program \<open>cmd/screener-core\<close>
  connects to exchanges (\<open>internal/exchange\<close>) and to Uniswap (\<open>internal/dex\<close>), turns what they send into
  market data and writes it to Redis.

  Parts and theories.

  \<^item> \<open>Prelude\<close>, \<open>Float64\<close>: results, Go strings and maps; IEEE binary64 values as used by the prices.
  \<^item> \<open>Util\<close> (\<open>internal/util\<close>): exchange names, symbols, symbol files, the log writer that keeps the last lines.
  \<^item> \<open>Eth\<close>: the functions of go-ethereum the code relies on, a parameter \<open>eth_lib\<close> with the law \<open>eth_ok\<close>, and
    the instance \<open>plain_eth\<close> that satisfies it.
  \<^item> \<open>Assets\<close> (\<open>internal/assets\<close>): the token registry file, its conversion and its index.
  \<^item> \<open>Pricer\<close>: the interface \<open>pricing.Pricer\<close> as a record of operations and the locale \<open>usd_pricer\<close> of its laws.
  \<^item> \<open>Graph_Pricer\<close>, \<open>Graph_Search\<close> (\<open>internal/dex/pricing\<close>): the price graph and the route search; the
    interpretation \<open>graph\<close> discharges the laws of \<open>usd_pricer\<close>.
  \<^item> \<open>Config\<close> (\<open>internal/config\<close>): path resolution, defaults and validation of the configuration.
  \<^item> \<open>Redis\<close> (\<open>internal/redisclient\<close>): pipelined writes and the clean-up of keys, over a parameter \<open>redis_api\<close>
    with the law \<open>redis_ok\<close> and the instance \<open>mem_redis\<close>.
  \<^item> \<open>Exchange\<close> (\<open>internal/exchange\<close>): the read loops, subscriptions and the broadcast hub.
  \<^item> \<open>Backoff\<close>: the locale \<open>backoff_policy\<close> of restart delays, interpreted where a delay is computed.
  \<^item> \<open>Launcher\<close> (\<open>internal/launcher\<close>): the registry of builders, batches of subscriptions, forwarding.
  \<^item> \<open>Core\<close> (\<open>cmd/screener-core/main.go\<close>): supervisor, symbols, launches and Redis workers.
  \<^item> \<open>Token_Registry\<close> (\<open>v2_connector.go\<close>): the tokens a Uniswap connector knows.
  \<^item> \<open>V2_Pools\<close>, \<open>Uniswap_V2\<close> (\<open>v2_connector.go\<close>): the pools of the file and the reference pools, their correction from
    the node, and the connector from Sync logs to messages, with the loop that connects again.
  \<^item> \<open>V3_Pools\<close>, \<open>Uniswap_V3\<close> (\<open>connect_uniswap_v3_all.go\<close>): pools, endpoints and token metadata from the chain; Swap
    logs, messages, the derived USD values and the run loop. The package-level variables are the record \<open>v3Globals\<close>.
  \<^item> \<open>V4_Pools\<close>, \<open>Uniswap_V4\<close>, \<open>V4_Once\<close> (\<open>v4_connector.go\<close>): token metadata, inline pools and pools of the file; prices,
    swaps, the acknowledgement protocol of the subscription, the connection loop; the end of once mode.
  \<^item> \<open>Launcher_Dex\<close> (\<open>register_dex.go\<close>, \<open>context.go\<close>, \<open>main.go\<close>): the builders of the Uniswap connectors and the loops of
    \<open>main\<close> that call the builders; its properties compose configuration, registry, pools and connectors.
  \<^item> \<open>Token_Validator\<close>, \<open>Bitget_Filter\<close> (\<open>test_scripts/assets\<close>, \<open>test_scripts/bitget\<close>): the two maintenance tools that
    write inputs of the program, the lists of stable symbols in its sources and a symbols file.
  \<^item> \<open>V4_Scripts\<close>, \<open>V2_Script\<close>, \<open>Swap_Watcher\<close> (\<open>test_scripts/uniswap\<close>): the price scripts that the connectors grew out
    of; their prices are compared with those of the connectors or with a second way to compute them.
  \<^item> \<open>Smoke_Tests\<close> (\<open>Temp\<close>, \<open>scripts\<close>, \<open>test_scripts/okx\<close> and \<open>gateio\<close>): small tools, among them the list of pools with
    its insertion sort, which is the stable sort of the library.
  \<^item> \<open>Core_Main\<close>: \<open>main\<close> as a whole up to the workers, its health check and metrics, and the life of the exchange
    clients and of the hub around their read loops. Its property of the start rests on those of all parts.

  How the parts interact. \<open>Core\<close> resolves the symbols, chooses the pricer and calls the builders of \<open>Launcher\<close> and
  \<open>Launcher_Dex\<close>. A builder makes a connector and hands its run function to the supervisor. The Uniswap connectors
  share one pricer: they use it through the record \<open>Pricer\<close> and their lemmas are proved once in the locale
  \<open>usd_pricer\<close>; the interpretation by \<open>Graph_Pricer\<close> gives the properties of whole runs. The messages of all
  connectors go to the Redis workers of \<open>Core\<close>, which write with the operations of \<open>Redis\<close>.

  What the lemmas show. For the pricer: routes found are sound and, within the hop limit, the best; histories of
  operations keep its invariant. For the connectors: whatever frames, files and nodes deliver, only positive finite
  prices are sent, under the connector's name; prices are those of the chain up to rounding; retries and pauses are
  bounded; once mode returns. For the builders: when a launch succeeds, and what the connector then starts from. For
  the start of \<open>main\<close>: what is launched has symbols, a valid section and a pricer. For the scripts: their prices agree
  with those of the connectors or with a second computation, and where their filters and guards fail. For
  the workers, the clean-up and the symbols: nothing accepted is lost, keys are canonical, the newest entry survives.

  Conventions. Code outside the repository (go-ethereum, JSON and YAML decoders, the Redis server, the
  clock, files, the environment) is a parameter. Frames are modelled after
  their decoding; \<open>eth_call\<close>, \<open>hexutil\<close> and the ABI of the V4 manager are functions or records of functions.
  Goroutines that read a socket or tick are events of the loops. Intervals are nanoseconds without a width, for
  settings in seconds that stay below \<open>2\<^sup>6\<^sup>3\<close> after the multiplication. Addresses are words of 160 bits, prices are binary64 values with the rounding written out, Go maps are association
  lists or partial functions, and the order of a range over a map is a parameter. Errors are values of a
  sum or an option. Loops are structural recursions, except the route search, which ends by a multiset
  measure on the hops left, and the Redis scan, which is a partial function because the server decides
  when it ends.

  Not modelled: the single commands of the Redis client that only call the library, the text of log messages (with it
  \<open>ratToString\<close>, \<open>formatAmount\<close>, \<open>v3Format\<close> and \<open>v3Mask\<close>), sockets and timers as such, the HTTP request of
  \<open>v3EthCall\<close>, \<open>v3LoadDotEnv\<close>, which nothing calls, locks (every operation is atomic under its lock), the
  tests that only dial, subscribe to fixed symbols and print (\<open>connect_bitget_ws.go\<close>, \<open>test_all_tickers.go\<close>,
  \<open>redis_hset_pipeline.go\<close>), the copy of the Bitget filter under \<open>scripts\<close>, which does not compile, and the stubs that
  nothing uses.
\<close>

end
